theory Spec2Isabelle
  imports Main "HOL-Library.Word" "HOL-Library.Monad_Syntax"
begin

unbundle bit_operations_syntax

section \<open>Machine types and arrays\<close>

text \<open>
  \<^verbatim>\<open>uint8_t\<close>, \<^verbatim>\<open>uint16_t\<close> and \<^verbatim>\<open>uint32_t\<close> are words; \<^verbatim>\<open>int8_t\<close> values are kept as
  8-bit words read with \<open>sint\<close>, or as \<open>int\<close> where the code only stores small indices.
  C's integer promotion computes in \<^verbatim>\<open>int\<close> and truncates on assignment, which agrees
  with word arithmetic at the width of the destination.
\<close>

type_synonym u8 = "8 word"
type_synonym u16 = "16 word"
type_synonym u32 = "32 word"

text \<open>
  A C array is a list. An access at a computed index is checked against the array:
  outside it the C program has undefined behaviour, and the model returns \<open>None\<close>.
\<close>

definition load :: "'a list \<Rightarrow> nat \<Rightarrow> 'a option" where
  "load xs i = (if i < length xs then Some (xs ! i) else None)"

definition store :: "'a list \<Rightarrow> nat \<Rightarrow> 'a \<Rightarrow> 'a list option" where
  "store xs i v = (if i < length xs then Some (xs[i := v]) else None)"

section \<open>rds\_decoder.h: blocks, group types, frequencies\<close>

definition BLER_NONE :: u8 where "BLER_NONE = 0"
definition BLER_1_2 :: u8 where "BLER_1_2 = 1"
definition BLER_3_5 :: u8 where "BLER_3_5 = 2"
definition BLER_6_PLUS :: u8 where "BLER_6_PLUS = 3"

definition BLERA_MAX :: u8 where "BLERA_MAX = BLER_3_5"
definition BLERB_MAX :: u8 where "BLERB_MAX = BLER_1_2"
definition BLERC_MAX :: u8 where "BLERC_MAX = BLER_3_5"
definition BLERD_MAX :: u8 where "BLERD_MAX = BLER_3_5"

record rds_block =
  val :: u16
  errors :: u8

record rds_blocks =
  blk_a :: rds_block
  blk_b :: rds_block
  blk_c :: rds_block
  blk_d :: rds_block

record rds_group_type =
  gt_code :: u8
  gt_version :: char

datatype rds_band = AF_BAND_UHF | AF_BAND_LF_MF

datatype rds_af_attrib = AF_ATTRIB_SAME_PROG | AF_ATTRIB_REG_VARIANT

datatype rds_af_encoding = AF_EM_UNKNOWN | AF_EM_A | AF_EM_B

record rds_freq =
  band :: rds_band
  attrib :: rds_af_attrib
  freq :: u16

record rds_af_table =
  tuned_freq :: rds_freq
  count :: u8
  entry :: "rds_freq list"

record rds_af_decode_table =
  table :: rds_af_table
  enc_method :: rds_af_encoding
  pvt_band :: rds_band
  pvt_prev_enc_method :: rds_af_encoding
  pvt_expected_cnt :: u8

record rds_af_table_group =
  pvt_current_table_idx :: int
  grp_count :: u8
  grp_table :: "rds_af_decode_table list"

text \<open>The all-zero values of these structures (what \<^verbatim>\<open>memset(.., 0, ..)\<close> leaves).\<close>

definition zero_freq :: rds_freq where
  "zero_freq = \<lparr>band = AF_BAND_UHF, attrib = AF_ATTRIB_SAME_PROG, freq = 0\<rparr>"

definition zero_af_table :: rds_af_table where
  "zero_af_table = \<lparr>tuned_freq = zero_freq, count = 0, entry = replicate 25 zero_freq\<rparr>"

definition zero_af_decode_table :: rds_af_decode_table where
  "zero_af_decode_table =
     \<lparr>table = zero_af_table, enc_method = AF_EM_UNKNOWN, pvt_band = AF_BAND_UHF,
      pvt_prev_enc_method = AF_EM_UNKNOWN, pvt_expected_cnt = 0\<rparr>"

definition zero_af_table_group :: rds_af_table_group where
  "zero_af_table_group =
     \<lparr>pvt_current_table_idx = 0, grp_count = 0, grp_table = replicate 20 zero_af_decode_table\<rparr>"

section \<open>freq\_table.c\<close>

definition AF_MIN_FREQ_CODE :: u8 where "AF_MIN_FREQ_CODE = 1"
definition AF_MAX_FREQ_CODE :: u8 where "AF_MAX_FREQ_CODE = 204"
definition AF_FILLER_CODE :: u8 where "AF_FILLER_CODE = 205"
definition AF_MIN_COUNT_CODE :: u8 where "AF_MIN_COUNT_CODE = 225"
definition AF_MAX_COUNT_CODE :: u8 where "AF_MAX_COUNT_CODE = 249"
definition AF_LF_MF_FOLLOWS :: u8 where "AF_LF_MF_FOLLOWS = 250"

definition freq_code_is_freq :: "u8 \<Rightarrow> bool" where
  "freq_code_is_freq freq_code \<longleftrightarrow> AF_MIN_FREQ_CODE \<le> freq_code \<and> freq_code \<le> AF_MAX_FREQ_CODE"

definition freq_eq :: "rds_freq \<Rightarrow> rds_freq \<Rightarrow> bool" where
  "freq_eq x y \<longleftrightarrow> band x = band y \<and> freq x = freq y"

definition freq_lt :: "rds_freq \<Rightarrow> rds_freq \<Rightarrow> bool" where
  "freq_lt x y =
     (if band x = band y then freq x < freq y
      else if band x = AF_BAND_LF_MF \<and> band y = AF_BAND_UHF then True
      else False)"

definition is_freq_code_count :: "u8 \<Rightarrow> bool" where
  "is_freq_code_count freq_code \<longleftrightarrow> AF_MIN_COUNT_CODE \<le> freq_code \<and> freq_code \<le> AF_MAX_COUNT_CODE"

definition freq_code_to_count :: "u8 \<Rightarrow> u8" where
  "freq_code_to_count freq_code = 1 + freq_code - AF_MIN_COUNT_CODE"

definition af_code_to_freq :: "u8 \<Rightarrow> rds_band \<Rightarrow> u16" where
  "af_code_to_freq freq_code bnd =
     (if bnd = AF_BAND_UHF then 876 + ucast freq_code - 1
      else if freq_code < 16 then 153 + 9 * (ucast freq_code - 1)
      else 531 + 9 * (ucast freq_code - 16))"

text \<open>
  The loop of \<^verbatim>\<open>find_af_freq_idx\<close>, from index \<open>i\<close>: the index of the first of the
  \<open>count\<close> entries equal to the frequency, or \<open>-1\<close>.
\<close>

function find_af_freq_idx_from :: "rds_af_table \<Rightarrow> rds_freq \<Rightarrow> nat \<Rightarrow> int option" where
  "find_af_freq_idx_from t fq i =
     (if i < unat (count t) then
        (case load (entry t) i of
           None \<Rightarrow> None
         | Some e \<Rightarrow>
             if freq_eq e fq then Some (int i) else find_af_freq_idx_from t fq (Suc i))
      else Some (- 1))"
  by pat_completeness auto
termination
  by (relation "measure (\<lambda>(t, fq, i). unat (count t) - i)") auto

declare find_af_freq_idx_from.simps [simp del]

definition find_af_freq_idx :: "rds_af_table \<Rightarrow> rds_freq \<Rightarrow> int option" where
  "find_af_freq_idx t fq = find_af_freq_idx_from t fq 0"

definition freq_in_af_table :: "rds_af_table \<Rightarrow> rds_freq \<Rightarrow> bool option" where
  "freq_in_af_table t fq = do { i \<leftarrow> find_af_freq_idx t fq; Some (i \<noteq> - 1) }"

definition dec_af_expected_count :: "rds_af_decode_table \<Rightarrow> rds_af_decode_table" where
  "dec_af_expected_count dt =
     (if pvt_expected_cnt dt = 0 then dt
      else dt\<lparr>pvt_expected_cnt := pvt_expected_cnt dt - 1\<rparr>)"

text \<open>The result pairs the C return value with the table as the call leaves it.\<close>

definition insert_alt_freq :: "rds_af_table \<Rightarrow> rds_freq \<Rightarrow> (bool \<times> rds_af_table) option" where
  "insert_alt_freq t fq =
     (if 25 \<le> unat (count t) then Some (False, t)
      else do {
        present \<leftarrow> freq_in_af_table t fq;
        if present then Some (False, t)
        else do {
          es \<leftarrow> store (entry t) (unat (count t)) fq;
          Some (True, t\<lparr>entry := es, count := count t + 1\<rparr>)
        }
      })"

definition add_alt_freq :: "rds_af_decode_table \<Rightarrow> rds_freq \<Rightarrow> (bool \<times> rds_af_decode_table) option" where
  "add_alt_freq dt fq =
     (let dt1 = dec_af_expected_count dt in
      do {
        (r, t) \<leftarrow> insert_alt_freq (table dt1) fq;
        Some (r, dt1\<lparr>table := t\<rparr>)
      })"

definition handle_freq_code :: "rds_af_decode_table \<Rightarrow> u8 \<Rightarrow> bool \<times> rds_af_decode_table" where
  "handle_freq_code dt freq_code =
     (if freq_code = AF_FILLER_CODE then (True, dec_af_expected_count dt)
      else if freq_code = AF_LF_MF_FOLLOWS then
        (True, dec_af_expected_count (dt\<lparr>pvt_band := AF_BAND_LF_MF\<rparr>))
      else
        (let handled = \<not> freq_code_is_freq freq_code in
         if handled then (True, dec_af_expected_count dt) else (False, dt)))"

definition decode_freq_table_start_block ::
    "rds_af_decode_table \<Rightarrow> u8 \<Rightarrow> u8 \<Rightarrow> rds_af_decode_table option" where
  "decode_freq_table_start_block dt num_freqs_in_table second_byte =
     (let dt1 = dt\<lparr>pvt_expected_cnt := num_freqs_in_table, pvt_band := AF_BAND_UHF\<rparr>;
          dt2 = (if pvt_prev_enc_method dt1 \<noteq> AF_EM_UNKNOWN
                 then dt1\<lparr>enc_method := pvt_prev_enc_method dt1\<rparr> else dt1);
          (handled, dt3) = handle_freq_code dt2 second_byte
      in if handled then Some dt3
         else do {
           (r, dt4) \<leftarrow> add_alt_freq dt3
             \<lparr>band = pvt_band dt3, attrib = AF_ATTRIB_SAME_PROG,
              freq = af_code_to_freq second_byte (pvt_band dt3)\<rparr>;
           Some dt4
         })"

text \<open>
  \<^verbatim>\<open>decode_freq_table_nth_block\<close> in three steps: the classification of the two bytes,
  the choice of the encoding method while it is unknown, and the emission.
\<close>

definition nth_block_choose_method ::
    "rds_af_decode_table \<Rightarrow> bool \<Rightarrow> bool \<Rightarrow> rds_freq \<Rightarrow> rds_freq \<Rightarrow> rds_af_decode_table option" where
  "nth_block_choose_method dt handled_first handled_second first_freq second_freq =
     (if handled_first \<or> handled_second then Some (dt\<lparr>enc_method := AF_EM_A\<rparr>)
      else if freq_eq first_freq (tuned_freq (table dt)) \<or>
              freq_eq second_freq (tuned_freq (table dt))
      then Some (dt\<lparr>enc_method := AF_EM_B\<rparr>)
      else
        (let dt1 = dt\<lparr>enc_method := AF_EM_A\<rparr> in
         if freq (tuned_freq (table dt1)) \<noteq> 0 then do {
           (r, dt2) \<leftarrow> add_alt_freq dt1 (tuned_freq (table dt1));
           Some (dt2\<lparr>table := (table dt2)\<lparr>tuned_freq := zero_freq\<rparr>\<rparr>)
         } else Some dt1))"

definition nth_block_emit ::
    "rds_af_decode_table \<Rightarrow> bool \<Rightarrow> bool \<Rightarrow> rds_freq \<Rightarrow> rds_freq \<Rightarrow> rds_af_decode_table option" where
  "nth_block_emit dt handled_first handled_second first_freq second_freq =
     (if enc_method dt = AF_EM_A then do {
        dt1 \<leftarrow> (if \<not> handled_first then map_option snd (add_alt_freq dt first_freq) else Some dt);
        (if \<not> handled_second then map_option snd (add_alt_freq dt1 second_freq) else Some dt1)
      }
      else if handled_first \<or> handled_second then Some dt
      else if freq_eq (tuned_freq (table dt)) first_freq then
        map_option snd (add_alt_freq dt
          (if freq_lt first_freq second_freq
           then second_freq\<lparr>attrib := AF_ATTRIB_REG_VARIANT\<rparr> else second_freq))
      else if freq_eq (tuned_freq (table dt)) second_freq then
        map_option snd (add_alt_freq dt
          (if freq_lt first_freq second_freq
           then first_freq\<lparr>attrib := AF_ATTRIB_REG_VARIANT\<rparr> else first_freq))
      else Some dt)"

definition decode_freq_table_nth_block ::
    "rds_af_decode_table \<Rightarrow> u8 \<Rightarrow> u8 \<Rightarrow> rds_af_decode_table option" where
  "decode_freq_table_nth_block dt first_byte second_byte =
     (if pvt_expected_cnt dt = 0 then Some dt
      else
        (let (handled_first, dt1) = handle_freq_code dt first_byte;
             first_freq = \<lparr>band = pvt_band dt1, attrib = AF_ATTRIB_SAME_PROG,
                           freq = af_code_to_freq first_byte (pvt_band dt1)\<rparr>;
             (handled_second, dt2) = handle_freq_code dt1 second_byte;
             second_freq = \<lparr>band = pvt_band dt2, attrib = AF_ATTRIB_SAME_PROG,
                            freq = af_code_to_freq second_byte (pvt_band dt2)\<rparr>
         in if enc_method dt2 = AF_EM_UNKNOWN \<and> handled_first \<and> handled_second then Some dt2
            else do {
              dt3 \<leftarrow> (if enc_method dt2 = AF_EM_UNKNOWN
                      then nth_block_choose_method dt2 handled_first handled_second
                             first_freq second_freq
                      else Some dt2);
              nth_block_emit (dt3\<lparr>pvt_prev_enc_method := enc_method dt3\<rparr>)
                handled_first handled_second first_freq second_freq
            }))"

section \<open>freq\_table\_group.c\<close>

text \<open>The loop of \<^verbatim>\<open>find_af_table_idx\<close>, from index \<open>i\<close>.\<close>

function find_af_table_idx_from :: "rds_af_table_group \<Rightarrow> rds_freq \<Rightarrow> nat \<Rightarrow> int option" where
  "find_af_table_idx_from g fq i =
     (if i < unat (grp_count g) then
        (case load (grp_table g) i of
           None \<Rightarrow> None
         | Some dt \<Rightarrow>
             if freq_eq (tuned_freq (table dt)) fq then Some (int i)
             else find_af_table_idx_from g fq (Suc i))
      else Some (- 1))"
  by pat_completeness auto
termination
  by (relation "measure (\<lambda>(g, fq, i). unat (grp_count g) - i)") auto

declare find_af_table_idx_from.simps [simp del]

definition find_af_table_idx :: "rds_af_table_group \<Rightarrow> rds_freq \<Rightarrow> int option" where
  "find_af_table_idx g fq = find_af_table_idx_from g fq 0"

text \<open>
  A call \<^verbatim>\<open>f(&group->table[group->pvt.current_table_idx], ...)\<close>: the table at the
  current index is read, changed by \<open>f\<close> and written back.
\<close>

definition on_current_table ::
    "rds_af_table_group \<Rightarrow> (rds_af_decode_table \<Rightarrow> rds_af_decode_table option) \<Rightarrow>
     rds_af_table_group option" where
  "on_current_table g f =
     (if pvt_current_table_idx g < 0 then None
      else do {
        dt \<leftarrow> load (grp_table g) (nat (pvt_current_table_idx g));
        dt' \<leftarrow> f dt;
        ts \<leftarrow> store (grp_table g) (nat (pvt_current_table_idx g)) dt';
        Some (g\<lparr>grp_table := ts\<rparr>)
      })"

definition decode_af_start_block :: "rds_af_table_group \<Rightarrow> u8 \<Rightarrow> u8 \<Rightarrow> rds_af_table_group option" where
  "decode_af_start_block g num_freqs_in_table second_byte =
     (let (g1, em1) =
            (if grp_count g = 1 \<and> enc_method (grp_table g ! 0) = AF_EM_A
             then (g\<lparr>pvt_current_table_idx := 0\<rparr>, AF_EM_A)
             else (g\<lparr>pvt_current_table_idx := - 1\<rparr>, AF_EM_UNKNOWN));
          (g2, encoding_method) =
            (if num_freqs_in_table = 1 then (g1\<lparr>pvt_current_table_idx := 0\<rparr>, AF_EM_A)
             else (g1, em1));
          start = (\<lambda>dt. decode_freq_table_start_block dt num_freqs_in_table second_byte)
      in if pvt_current_table_idx g2 = - 1 then
           (let fq = \<lparr>band = AF_BAND_UHF, attrib = AF_ATTRIB_SAME_PROG,
                      freq = af_code_to_freq second_byte AF_BAND_UHF\<rparr>
            in do {
              i \<leftarrow> find_af_table_idx g2 fq;
              let g3 = g2\<lparr>pvt_current_table_idx := i\<rparr>;
              if i = - 1 then
                (if unat (grp_count g3) = 20 then Some g3
                 else do {
                   let k = unat (grp_count g3);
                   dt \<leftarrow> load (grp_table g3) k;
                   let dt1 = dt\<lparr>enc_method := encoding_method\<rparr>;
                   let dt2 = (if enc_method dt1 = AF_EM_UNKNOWN
                              then dt1\<lparr>table := (table dt1)\<lparr>tuned_freq := fq\<rparr>\<rparr> else dt1);
                   ts \<leftarrow> store (grp_table g3) k dt2;
                   on_current_table
                     (g3\<lparr>pvt_current_table_idx := int k, grp_count := grp_count g3 + 1,
                        grp_table := ts\<rparr>) start
                 })
              else on_current_table g3 start
            })
         else on_current_table g2 start)"

definition decode_af_nth_block :: "rds_af_table_group \<Rightarrow> u8 \<Rightarrow> u8 \<Rightarrow> rds_af_table_group option" where
  "decode_af_nth_block g first_byte second_byte =
     (if pvt_current_table_idx g < 0 then Some g
      else on_current_table g (\<lambda>dt. decode_freq_table_nth_block dt first_byte second_byte))"

definition decode_freq_group_block :: "rds_af_table_group \<Rightarrow> u16 \<Rightarrow> rds_af_table_group option" where
  "decode_freq_group_block g block =
     (let first_byte = (ucast (drop_bit 8 block) :: u8);
          second_byte = (ucast (block AND 0xFF) :: u8)
      in if is_freq_code_count first_byte
         then decode_af_start_block g (freq_code_to_count first_byte) second_byte
         else decode_af_nth_block g first_byte second_byte)"

section \<open>rds\_decoder.h: the RDS state record\<close>

definition PKTCNT_AF :: nat where "PKTCNT_AF = 0"
definition PKTCNT_CLOCK :: nat where "PKTCNT_CLOCK = 1"
definition PKTCNT_EON :: nat where "PKTCNT_EON = 2"
definition PKTCNT_EWS :: nat where "PKTCNT_EWS = 3"
definition PKTCNT_FBT :: nat where "PKTCNT_FBT = 4"
definition PKTCNT_IH :: nat where "PKTCNT_IH = 5"
definition PKTCNT_PAGING :: nat where "PKTCNT_PAGING = 6"
definition PKTCNT_PIC :: nat where "PKTCNT_PIC = 7"
definition PKTCNT_PI_CODE :: nat where "PKTCNT_PI_CODE = 8"
definition PKTCNT_PS :: nat where "PKTCNT_PS = 9"
definition PKTCNT_PTY :: nat where "PKTCNT_PTY = 10"
definition PKTCNT_PTYN :: nat where "PKTCNT_PTYN = 11"
definition PKTCNT_RT :: nat where "PKTCNT_RT = 12"
definition PKTCNT_SLC :: nat where "PKTCNT_SLC = 13"
definition PKTCNT_TDC :: nat where "PKTCNT_TDC = 14"
definition PKTCNT_TMC :: nat where "PKTCNT_TMC = 15"
definition PKTCNT_TA_CODE :: nat where "PKTCNT_TA_CODE = 16"
definition PKTCNT_TP_CODE :: nat where "PKTCNT_TP_CODE = 17"
definition PKTCNT_MS :: nat where "PKTCNT_MS = 18"
definition PKTCNT_NUM :: nat where "PKTCNT_NUM = 20"

definition RDS_AF :: u32 where "RDS_AF = 0x00001"
definition RDS_CLOCK :: u32 where "RDS_CLOCK = 0x00002"
definition RDS_EWS :: u32 where "RDS_EWS = 0x00004"
definition RDS_FBT :: u32 where "RDS_FBT = 0x00008"
definition RDS_MC :: u32 where "RDS_MC = 0x00010"
definition RDS_PIC :: u32 where "RDS_PIC = 0x00020"
definition RDS_PI_CODE :: u32 where "RDS_PI_CODE = 0x00040"
definition RDS_PS :: u32 where "RDS_PS = 0x00080"
definition RDS_PTY :: u32 where "RDS_PTY = 0x00100"
definition RDS_PTYN :: u32 where "RDS_PTYN = 0x00200"
definition RDS_RT :: u32 where "RDS_RT = 0x00400"
definition RDS_SLC :: u32 where "RDS_SLC = 0x00800"
definition RDS_TDC :: u32 where "RDS_TDC = 0x01000"
definition RDS_TA_CODE :: u32 where "RDS_TA_CODE = 0x02000"
definition RDS_TP_CODE :: u32 where "RDS_TP_CODE = 0x04000"
definition RDS_MS :: u32 where "RDS_MS = 0x08000"
definition RDS_EON :: u32 where "RDS_EON = 0x10000"

datatype rds_variant_code =
    SLC_VARIANT_PAGING | SLC_VARIANT_TMC_ID | SLC_VARIANT_PAGING_ID | SLC_VARIANT_LANG
  | SLC_VARIANT_NOT_ASSIGNED1 | SLC_VARIANT_NOT_ASSIGNED5 | SLC_VARIANT_BROADCAST
  | SLC_VARIANT_EWS

text \<open>
  The payload of the SLC packet is a C union; the model keeps the member that was written
  last. All members of a zeroed union read as zero.
\<close>

datatype rds_slc_data =
    SLC_paging u8 u8
  | SLC_tmc_id u16
  | SLC_paging_id u16
  | SLC_language_codes u16
  | SLC_broadcasters u16
  | SLC_ews_channel_id u16

record rds_pic =
  pic_day :: u8
  pic_hour :: u8
  pic_minute :: u8

record rds_ps =
  ps_display :: "u8 list"
  ps_hi_prob :: "u8 list"
  ps_lo_prob :: "u8 list"
  ps_hi_prob_cnt :: "u8 list"

text \<open>
  Modelled from the spec: \<^verbatim>\<open>struct rds_rt\<close>, \<^verbatim>\<open>enum rds_rt_text\<close> and the fields
  \<^verbatim>\<open>rt.a\<close>, \<^verbatim>\<open>rt.b\<close> and \<^verbatim>\<open>rt.decode_rt\<close> that \<^verbatim>\<open>decode_group_type_2\<close> uses are not
  declared by the header; the two-buffer form (A and B, selected by the Radiotext A/B flag)
  is taken, each buffer with the display text and the three confidence arrays the update
  functions access. \<open>RT_A\<close> is the enumerator of value zero.
\<close>

datatype rds_rt_text = RT_A | RT_B

record rds_rt =
  rt_display :: "u8 list"
  rt_hi_prob :: "u8 list"
  rt_lo_prob :: "u8 list"
  rt_hi_prob_cnt :: "u8 list"

record rds_rt_buffers =
  rt_a :: rds_rt
  rt_b :: rds_rt
  decode_rt :: rds_rt_text

record rds_clock =
  clock_day_high :: bool
  clock_day_low :: u16
  clock_hour :: u8
  clock_minute :: u8
  clock_utc_offset :: u8

record rds_slc =
  slc_la :: bool
  slc_variant_code :: rds_variant_code
  slc_data :: rds_slc_data

record rds_ptyn =
  ptyn_display :: "u8 list"
  ptyn_last_ab :: bool

record rds_eon_on =
  on_ps :: "u8 list"
  on_pty :: u8
  on_tp_code :: bool
  on_ta_code :: bool
  on_af :: rds_af_decode_table
  on_pi_code :: u16
  on_pic :: rds_pic

record rds_eon_map =
  tn_tuned_freq :: rds_freq
  on_freq :: rds_freq

record rds_eon =
  eon_on :: rds_eon_on
  eon_maps :: "rds_eon_map list"

record rds_oda =
  oda_id :: u16
  oda_gt :: rds_group_type
  oda_pkt_count :: u16

record rds_tdc =
  tdc_data :: "u8 list list"
  tdc_curr_channel :: u8

record rds_ews =
  ews_b :: rds_block
  ews_c :: rds_block
  ews_d :: rds_block

record rds_group_count =
  cnt_a :: u16
  cnt_b :: u16

record rds_stats =
  stats_counts :: "u32 list"
  stats_groups :: "rds_group_count list"
  data_cnt :: u16
  blckb_errors :: u16

record rds_data =
  pi_code :: u16
  pic :: rds_pic
  pty :: u8
  tp_code :: bool
  ta_code :: bool
  music :: bool
  ps :: rds_ps
  rt :: rds_rt_buffers
  clock :: rds_clock
  slc :: rds_slc
  ptyn :: rds_ptyn
  af :: rds_af_table_group
  eon :: rds_eon
  oda_cnt :: u8
  oda :: "rds_oda list"
  tdc :: rds_tdc
  ews :: rds_ews
  stats :: rds_stats
  valid_values :: u32

text \<open>The record after \<^verbatim>\<open>memset(rds, 0, sizeof(struct rds_data))\<close>.\<close>

definition zero_pic :: rds_pic where
  "zero_pic = \<lparr>pic_day = 0, pic_hour = 0, pic_minute = 0\<rparr>"

definition zero_block :: rds_block where
  "zero_block = \<lparr>val = 0, errors = 0\<rparr>"

definition zero_rt :: rds_rt where
  "zero_rt = \<lparr>rt_display = replicate 64 0, rt_hi_prob = replicate 64 0,
              rt_lo_prob = replicate 64 0, rt_hi_prob_cnt = replicate 64 0\<rparr>"

definition zero_oda :: rds_oda where
  "zero_oda = \<lparr>oda_id = 0, oda_gt = \<lparr>gt_code = 0, gt_version = CHR 0x00\<rparr>, oda_pkt_count = 0\<rparr>"

definition zero_rds_data :: rds_data where
  "zero_rds_data =
     \<lparr>pi_code = 0, pic = zero_pic, pty = 0, tp_code = False, ta_code = False, music = False,
      ps = \<lparr>ps_display = replicate 8 0, ps_hi_prob = replicate 8 0,
             ps_lo_prob = replicate 8 0, ps_hi_prob_cnt = replicate 8 0\<rparr>,
      rt = \<lparr>rt_a = zero_rt, rt_b = zero_rt, decode_rt = RT_A\<rparr>,
      clock = \<lparr>clock_day_high = False, clock_day_low = 0, clock_hour = 0, clock_minute = 0,
                clock_utc_offset = 0\<rparr>,
      slc = \<lparr>slc_la = False, slc_variant_code = SLC_VARIANT_PAGING, slc_data = SLC_tmc_id 0\<rparr>,
      ptyn = \<lparr>ptyn_display = replicate 8 0, ptyn_last_ab = False\<rparr>,
      af = zero_af_table_group,
      eon = \<lparr>eon_on = \<lparr>on_ps = replicate 8 0, on_pty = 0, on_tp_code = False,
                        on_ta_code = False, on_af = zero_af_decode_table, on_pi_code = 0,
                        on_pic = zero_pic\<rparr>,
              eon_maps = replicate 5 \<lparr>tn_tuned_freq = zero_freq, on_freq = zero_freq\<rparr>\<rparr>,
      oda_cnt = 0, oda = replicate 10 zero_oda,
      tdc = \<lparr>tdc_data = replicate 32 (replicate 32 0), tdc_curr_channel = 0\<rparr>,
      ews = \<lparr>ews_b = zero_block, ews_c = zero_block, ews_d = zero_block\<rparr>,
      stats = \<lparr>stats_counts = replicate 20 0,
                stats_groups = replicate 16 \<lparr>cnt_a = 0, cnt_b = 0\<rparr>,
                data_cnt = 0, blckb_errors = 0\<rparr>,
      valid_values = 0\<rparr>"

section \<open>rds\_decoder.c: the decoder and its calls to the host\<close>

text \<open>
  A call of one of the two ODA callbacks of the host, with the arguments passed. The
  callbacks are host code: the model records each call, together with the content of
  the RDS state record at the moment of the call, and assumes that the callback leaves
  the record alone (the decode callback receives it \<^verbatim>\<open>const\<close>).
  Function pointers and the opaque \<^verbatim>\<open>cb_data\<close> are addresses.
\<close>

datatype oda_call =
    Decode_call nat u16 rds_data rds_blocks rds_group_type nat
  | Clear_call nat nat rds_data

text \<open>
  \<^verbatim>\<open>struct rds_decoder\<close>. The field \<open>rds\<close> is the record that \<^verbatim>\<open>decoder->rds\<close>
  points to; a null function pointer is \<open>None\<close>; \<open>calls\<close> is the list of the calls
  made to the host so far, oldest first.
\<close>

record rds_decoder =
  rds :: rds_data
  oda_decode_cb :: "nat option"
  oda_clear_cb :: "nat option"
  oda_cb_data :: nat
  advanced_ps_decoding :: bool
  calls :: "oda_call list"

definition GT_CODE_MASK :: u16 where "GT_CODE_MASK = 0xF000"
definition VERSION_CODE :: u16 where "VERSION_CODE = 0x0800"
definition TP_CODE :: u16 where "TP_CODE = 0x0400"
definition PTY_MASK :: u16 where "PTY_MASK = 0x03E0"
definition RT_VALIDATE_LIMIT :: u8 where "RT_VALIDATE_LIMIT = 2"

definition SET_BITS :: "rds_data \<Rightarrow> u32 \<Rightarrow> rds_data" where
  "SET_BITS r bits = r\<lparr>valid_values := valid_values r OR bits\<rparr>"

text \<open>\<^verbatim>\<open>rds->stats.counts[k]++\<close> for an enumerator \<open>k\<close>.\<close>

definition count_packet :: "rds_data \<Rightarrow> nat \<Rightarrow> rds_data" where
  "count_packet r k =
     r\<lparr>stats := (stats r)\<lparr>stats_counts :=
          (stats_counts (stats r))[k := stats_counts (stats r) ! k + 1]\<rparr>\<rparr>"

definition GroupTypesEqual :: "rds_group_type \<Rightarrow> rds_group_type \<Rightarrow> bool" where
  "GroupTypesEqual gta gtb \<longleftrightarrow> gt_code gta = gt_code gtb \<and> gt_version gta = gt_version gtb"

text \<open>The loop runs over the whole array \<^verbatim>\<open>rds->oda\<close>, not only its first \<open>oda_cnt\<close> entries.\<close>

definition IsGroupTypeUsedByODA :: "rds_data \<Rightarrow> rds_group_type \<Rightarrow> bool" where
  "IsGroupTypeUsedByODA r gt = list_ex (\<lambda>e. GroupTypesEqual (oda_gt e) gt) (oda r)"

definition IsValidODAAppId :: "u16 \<Rightarrow> bool" where
  "IsValidODAAppId app_id \<longleftrightarrow> app_id \<noteq> 0"

definition decode_pty :: "rds_data \<Rightarrow> rds_block \<Rightarrow> rds_data" where
  "decode_pty r block =
     (let r1 = r\<lparr>tp_code := (val block AND TP_CODE \<noteq> 0),
                 pty := ucast (drop_bit 5 (val block AND PTY_MASK))\<rparr>;
          r2 = SET_BITS r1 RDS_TP_CODE;
          r3 = (if tp_code r2 then count_packet r2 PKTCNT_TP_CODE else r2);
          r4 = SET_BITS r3 RDS_PTY
      in count_packet r4 PKTCNT_PTY)"

definition TA_MASK :: u16 where "TA_MASK = 0x0010"
definition MS_MASK :: u16 where "MS_MASK = 0x0008"

definition decode_ta :: "rds_data \<Rightarrow> rds_block \<Rightarrow> rds_data" where
  "decode_ta r block =
     count_packet (SET_BITS (r\<lparr>ta_code := (val block AND TA_MASK \<noteq> 0)\<rparr>) RDS_TA_CODE)
       PKTCNT_TA_CODE"

definition decode_ms :: "rds_data \<Rightarrow> rds_block \<Rightarrow> rds_data" where
  "decode_ms r block =
     count_packet (SET_BITS (r\<lparr>music := (val block AND MS_MASK \<noteq> 0)\<rparr>) RDS_MS) PKTCNT_MS"

text \<open>A \<^verbatim>\<open>for\<close> loop over the indices \<open>is\<close> whose body can leave the array.\<close>

primrec for_each :: "nat list \<Rightarrow> ('s \<Rightarrow> nat \<Rightarrow> 's option) \<Rightarrow> 's \<Rightarrow> 's option" where
  "for_each [] f s = Some s"
| "for_each (i # is) f s = (case f s i of None \<Rightarrow> None | Some s' \<Rightarrow> for_each is f s')"

text \<open>
  Both Radiotext loops choose the block that carries character \<open>i\<close> of \<open>cnt\<close> the same
  way and go on only when its error class is acceptable.
\<close>

definition rt_block_ok :: "rds_blocks \<Rightarrow> nat \<Rightarrow> nat \<Rightarrow> bool" where
  "rt_block_ok blks cnt i =
     (if i < 2 \<and> 2 < cnt then errors (blk_c blks) \<le> BLERC_MAX
      else errors (blk_d blks) \<le> BLERD_MAX)"

text \<open>
  The first loop of \<^verbatim>\<open>update_rt_simple\<close>, from character \<open>i\<close>, on the display array.
  The end-of-message character wipes the rest of the array and breaks out of the loop.
\<close>

function update_rt_simple_from ::
    "u8 list \<Rightarrow> rds_blocks \<Rightarrow> nat \<Rightarrow> nat \<Rightarrow> u8 list \<Rightarrow> nat \<Rightarrow> u8 list option" where
  "update_rt_simple_from disp blks cnt addr chars i =
     (if i < cnt then
        (if rt_block_ok blks cnt i then
           (case load chars i of
              None \<Rightarrow> None
            | Some ch \<Rightarrow>
                (case store disp (addr + i) ch of
                   None \<Rightarrow> None
                 | Some disp1 \<Rightarrow>
                     if ch = 0x0d
                     then for_each [addr + i + 1 ..< 64] (\<lambda>xs j. store xs j 0) disp1
                     else update_rt_simple_from disp1 blks cnt addr chars (Suc i)))
         else update_rt_simple_from disp blks cnt addr chars (Suc i))
      else Some disp)"
  by pat_completeness auto
termination
  by (relation "measure (\<lambda>(disp, blks, cnt, addr, chars, i). cnt - i)") auto

declare update_rt_simple_from.simps [simp del]

definition update_rt_simple ::
    "rds_rt \<Rightarrow> rds_blocks \<Rightarrow> u8 \<Rightarrow> u8 \<Rightarrow> u8 list \<Rightarrow> rds_rt option" where
  "update_rt_simple t blks cnt addr chars = do {
     d1 \<leftarrow> update_rt_simple_from (rt_display t) blks (unat cnt) (unat addr) chars 0;
     d2 \<leftarrow> for_each [0 ..< unat addr]
             (\<lambda>xs i. do { x \<leftarrow> load xs i; if x = 0 then store xs i 0x20 else Some xs }) d1;
     Some (t\<lparr>rt_display := d2\<rparr>)
   }"

definition bump_rt_validation_count :: "rds_rt \<Rightarrow> rds_rt" where
  "bump_rt_validation_count t =
     (let t1 = t\<lparr>rt_hi_prob_cnt :=
                   map2 (\<lambda>h c. if h = 0 then c + 1 else c) (rt_hi_prob t) (rt_hi_prob_cnt t),
                 rt_hi_prob := map (\<lambda>h. if h = 0 then 0x20 else h) (rt_hi_prob t)\<rparr>;
          t2 = t1\<lparr>rt_hi_prob_cnt := map (\<lambda>c. c + 1) (rt_hi_prob_cnt t1)\<rparr>
      in t2\<lparr>rt_hi_prob_cnt := replicate 64 0, rt_hi_prob := replicate 64 0,
            rt_lo_prob := replicate 64 0\<rparr>)"

text \<open>
  The confidence vote on one received byte, which \<^verbatim>\<open>update_rt_advance\<close> and
  \<^verbatim>\<open>update_ps_advanced\<close> both spell out on their own arrays, with the same limit 2:
  the three arrays after the vote, and whether the text is found in transition.
\<close>

definition vote_byte ::
    "u8 \<Rightarrow> u8 list \<Rightarrow> u8 list \<Rightarrow> u8 list \<Rightarrow> nat \<Rightarrow> u8 \<Rightarrow>
     (u8 list \<times> u8 list \<times> u8 list \<times> bool) option" where
  "vote_byte limit hi_prob lo_prob hi_prob_cnt idx byte = do {
     h \<leftarrow> load hi_prob idx;
     l \<leftarrow> load lo_prob idx;
     c \<leftarrow> load hi_prob_cnt idx;
     if h = byte then
       (if c < limit then do {
          cs \<leftarrow> store hi_prob_cnt idx (c + 1);
          Some (hi_prob, lo_prob, cs, False)
        } else do {
          cs \<leftarrow> store hi_prob_cnt idx limit;
          ls \<leftarrow> store lo_prob idx byte;
          Some (hi_prob, ls, cs, False)
        })
     else if l = byte then do {
       cs \<leftarrow> store hi_prob_cnt idx (if limit \<le> c then limit + 1 else limit);
       ls \<leftarrow> store lo_prob idx h;
       hs \<leftarrow> store hi_prob idx byte;
       Some (hs, ls, cs, limit \<le> c)
     }
     else if c = 0 then do {
       hs \<leftarrow> store hi_prob idx byte;
       cs \<leftarrow> store hi_prob_cnt idx 1;
       Some (hs, lo_prob, cs, False)
     }
     else do {
       ls \<leftarrow> store lo_prob idx byte;
       Some (hi_prob, ls, hi_prob_cnt, False)
     }
   }"

text \<open>The loop that knocks every count above one down by one.\<close>

definition knock_down :: "u8 list \<Rightarrow> u8 list" where
  "knock_down cs = map (\<lambda>c. if 1 < c then c - 1 else c) cs"

text \<open>One round of the loop of \<^verbatim>\<open>update_rt_advance\<close>; \<open>byte\<close> is the caller's array.\<close>

definition update_rt_advance_step ::
    "rds_blocks \<Rightarrow> nat \<Rightarrow> nat \<Rightarrow> rds_rt \<times> u8 list \<times> bool \<Rightarrow> nat \<Rightarrow>
     (rds_rt \<times> u8 list \<times> bool) option" where
  "update_rt_advance_step blks cnt addr st i =
     (case st of (t, byte, text_changing) \<Rightarrow>
        if rt_block_ok blks cnt i then do {
          b0 \<leftarrow> load byte i;
          byte1 \<leftarrow> (if b0 = 0 then store byte i 0x20 else Some byte);
          b1 \<leftarrow> load byte1 i;
          (hs, ls, cs, changing) \<leftarrow>
            vote_byte RT_VALIDATE_LIMIT (rt_hi_prob t) (rt_lo_prob t) (rt_hi_prob_cnt t)
              (addr + i) b1;
          Some (t\<lparr>rt_hi_prob := hs, rt_lo_prob := ls, rt_hi_prob_cnt := cs\<rparr>, byte1,
                text_changing \<or> changing)
        } else Some st)"

definition update_rt_advance ::
    "rds_rt \<Rightarrow> rds_blocks \<Rightarrow> u8 \<Rightarrow> u8 \<Rightarrow> u8 list \<Rightarrow> rds_rt option" where
  "update_rt_advance t blks cnt addr byte = do {
     (t1, byte1, text_changing) \<leftarrow>
       for_each [0 ..< unat cnt] (update_rt_advance_step blks (unat cnt) (unat addr))
         (t, byte, False);
     Some (if \<not> text_changing then t1
           else t1\<lparr>rt_hi_prob_cnt := knock_down (rt_hi_prob_cnt t1)\<rparr>)
   }"

definition PS_VALIDATE_LIMIT :: u8 where "PS_VALIDATE_LIMIT = 2"

definition update_ps_advanced :: "rds_data \<Rightarrow> u8 \<Rightarrow> u8 \<Rightarrow> rds_data option" where
  "update_ps_advanced r char_idx byte =
     (if 8 \<le> unat char_idx then Some r
      else do {
        (hs, ls, cs, in_transition) \<leftarrow>
          vote_byte PS_VALIDATE_LIMIT (ps_hi_prob (ps r)) (ps_lo_prob (ps r))
            (ps_hi_prob_cnt (ps r)) (unat char_idx) byte;
        let cs1 = (if in_transition then knock_down cs else cs);
        let complete = list_all (\<lambda>c. \<not> c < PS_VALIDATE_LIMIT) cs1;
        let r1 = r\<lparr>ps := (ps r)\<lparr>ps_hi_prob := hs, ps_lo_prob := ls, ps_hi_prob_cnt := cs1\<rparr>\<rparr>;
        Some (if complete
              then (let r2 = SET_BITS r1 RDS_PS in r2\<lparr>ps := (ps r2)\<lparr>ps_display := hs\<rparr>\<rparr>)
              else r1)
      })"

definition update_ps_simple :: "rds_data \<Rightarrow> u8 \<Rightarrow> u8 \<Rightarrow> rds_data option" where
  "update_ps_simple r char_idx current_ps_byte =
     (if 8 \<le> unat char_idx then Some r
      else do {
        d \<leftarrow> store (ps_display (ps r)) (unat char_idx) current_ps_byte;
        Some (SET_BITS (r\<lparr>ps := (ps r)\<lparr>ps_display := d\<rparr>\<rparr>) RDS_PS)
      })"

definition decode_alt_freq :: "rds_data \<Rightarrow> rds_blocks \<Rightarrow> rds_data option" where
  "decode_alt_freq r blks =
     (if errors (blk_c blks) \<noteq> BLER_NONE then Some r
      else do {
        let r1 = count_packet (SET_BITS r RDS_AF) PKTCNT_AF;
        g \<leftarrow> decode_freq_group_block (af r1) (val (blk_c blks));
        Some (r1\<lparr>af := g\<rparr>)
      })"

text \<open>The high and the low byte of a block value, as passed to a \<^verbatim>\<open>uint8_t\<close> parameter.\<close>

definition hi_byte :: "u16 \<Rightarrow> u8" where
  "hi_byte v = ucast (drop_bit 8 v)"

definition lo_byte :: "u16 \<Rightarrow> u8" where
  "lo_byte v = ucast (v AND 0xFF)"

definition decode_group_type_0 ::
    "rds_decoder \<Rightarrow> rds_group_type \<Rightarrow> rds_blocks \<Rightarrow> rds_decoder option" where
  "decode_group_type_0 decoder gt blks = do {
     r1 \<leftarrow> (if gt_version gt = CHR ''A'' then decode_alt_freq (rds decoder) blks
            else Some (rds decoder));
     if errors (blk_d blks) > BLERD_MAX then Some (decoder\<lparr>rds := r1\<rparr>)
     else do {
       let r2 = decode_ms (decode_ta r1 (blk_b blks)) (blk_b blks);
       let pair_idx = (val (blk_b blks) AND 0x03) * 2;
       r3 \<leftarrow> (if advanced_ps_decoding decoder
              then update_ps_advanced r2 (ucast (pair_idx + 0)) (hi_byte (val (blk_d blks)))
              else update_ps_simple r2 (ucast (pair_idx + 0)) (hi_byte (val (blk_d blks))));
       r4 \<leftarrow> (if advanced_ps_decoding decoder
              then update_ps_advanced r3 (ucast (pair_idx + 1)) (lo_byte (val (blk_d blks)))
              else update_ps_simple r3 (ucast (pair_idx + 1)) (lo_byte (val (blk_d blks))));
       Some (decoder\<lparr>rds := count_packet r4 PKTCNT_PS\<rparr>)
     }
   }"

definition C_SLC_LA :: u16 where "C_SLC_LA = 0x8000"
definition C_SLC_VC :: u16 where "C_SLC_VC = 0x7000"
definition C_SLC_DATA :: u16 where "C_SLC_DATA = 0x0FFF"
definition C_SLC_PAGING_MASK :: u16 where "C_SLC_PAGING_MASK = 0x0F00"
definition C_SLC_COUNTRY_MASK :: u16 where "C_SLC_COUNTRY_MASK = 0x00FF"

text \<open>The cast of the three bits of the variant code to \<^verbatim>\<open>enum rds_variant_code\<close>.\<close>

definition variant_code_of :: "u16 \<Rightarrow> rds_variant_code" where
  "variant_code_of v =
     (if v = 0 then SLC_VARIANT_PAGING else if v = 1 then SLC_VARIANT_TMC_ID
      else if v = 2 then SLC_VARIANT_PAGING_ID else if v = 3 then SLC_VARIANT_LANG
      else if v = 4 then SLC_VARIANT_NOT_ASSIGNED1 else if v = 5 then SLC_VARIANT_NOT_ASSIGNED5
      else if v = 6 then SLC_VARIANT_BROADCAST else SLC_VARIANT_EWS)"

definition decode_slow_labelling_codes :: "rds_data \<Rightarrow> rds_blocks \<Rightarrow> rds_data" where
  "decode_slow_labelling_codes r blks =
     (if errors (blk_c blks) > BLERC_MAX then r
      else
        (let c = val (blk_c blks);
             r1 = count_packet (SET_BITS r RDS_SLC) PKTCNT_SLC;
             vc = variant_code_of (drop_bit 12 (c AND C_SLC_VC));
             s1 = (slc r1)\<lparr>slc_la := (c AND C_SLC_LA \<noteq> 0), slc_variant_code := vc\<rparr>
         in r1\<lparr>slc := s1\<lparr>slc_data :=
              (case vc of
                 SLC_VARIANT_PAGING \<Rightarrow>
                   SLC_paging (ucast (drop_bit 8 (c AND C_SLC_PAGING_MASK)))
                     (ucast (c AND C_SLC_COUNTRY_MASK))
               | SLC_VARIANT_TMC_ID \<Rightarrow> SLC_tmc_id (c AND C_SLC_DATA)
               | SLC_VARIANT_PAGING_ID \<Rightarrow> SLC_paging_id (c AND C_SLC_DATA)
               | SLC_VARIANT_LANG \<Rightarrow> SLC_language_codes (c AND C_SLC_DATA)
               | SLC_VARIANT_NOT_ASSIGNED1 \<Rightarrow> SLC_tmc_id 0
               | SLC_VARIANT_NOT_ASSIGNED5 \<Rightarrow> SLC_tmc_id 0
               | SLC_VARIANT_BROADCAST \<Rightarrow> SLC_broadcasters (c AND C_SLC_DATA)
               | SLC_VARIANT_EWS \<Rightarrow> SLC_ews_channel_id (c AND C_SLC_DATA))\<rparr>\<rparr>))"

definition PI_HOUR :: u16 where "PI_HOUR = 0x07C0"
definition PI_MINUTE :: u16 where "PI_MINUTE = 0x003F"

definition decode_program_item_number_code :: "u16 \<Rightarrow> rds_pic" where
  "decode_program_item_number_code raw_value =
     (let p = \<lparr>pic_day = ucast (drop_bit 11 raw_value), pic_hour = 0, pic_minute = 0\<rparr>
      in if pic_day p \<noteq> 0
         then p\<lparr>pic_hour := ucast (drop_bit 6 (raw_value AND PI_HOUR)),
                pic_minute := ucast (raw_value AND PI_MINUTE)\<rparr>
         else p)"

definition decode_group_type_1 ::
    "rds_decoder \<Rightarrow> rds_group_type \<Rightarrow> rds_blocks \<Rightarrow> rds_decoder option" where
  "decode_group_type_1 decoder gt blks =
     (let r1 = (if gt_version gt = CHR ''A''
                then decode_slow_labelling_codes (rds decoder) blks else rds decoder)
      in if errors (blk_d blks) \<le> BLERD_MAX
         then Some (decoder\<lparr>rds :=
                count_packet
                  (SET_BITS (r1\<lparr>pic := decode_program_item_number_code (val (blk_d blks))\<rparr>)
                     RDS_PIC)
                  PKTCNT_PIC\<rparr>)
         else Some (decoder\<lparr>rds := r1\<rparr>))"

text \<open>
  The Radiotext buffer that \<^verbatim>\<open>rt\<close> points to in \<^verbatim>\<open>decode_group_type_2\<close>, and the write
  back through that pointer.
\<close>

definition rt_buffer :: "rds_data \<Rightarrow> rds_rt_text \<Rightarrow> rds_rt" where
  "rt_buffer r which = (if which = RT_A then rt_a (rt r) else rt_b (rt r))"

definition set_rt_buffer :: "rds_data \<Rightarrow> rds_rt_text \<Rightarrow> rds_rt \<Rightarrow> rds_data" where
  "set_rt_buffer r which t =
     (if which = RT_A then r\<lparr>rt := (rt r)\<lparr>rt_a := t\<rparr>\<rparr> else r\<lparr>rt := (rt r)\<lparr>rt_b := t\<rparr>\<rparr>)"

definition decode_group_type_2 ::
    "rds_decoder \<Rightarrow> rds_group_type \<Rightarrow> rds_blocks \<Rightarrow> rds_decoder option" where
  "decode_group_type_2 decoder gt blks =
     (let r = rds decoder;
          b = val (blk_b blks);
          which = (if drop_bit 4 (b AND 0x0010) \<noteq> 0 then RT_A else RT_B);
          finish = (\<lambda>t. Some (decoder\<lparr>rds :=
                      (let r1 = set_rt_buffer r which t;
                           r2 = r1\<lparr>rt := (rt r1)\<lparr>decode_rt := which\<rparr>\<rparr>
                       in count_packet (SET_BITS r2 RDS_RT) PKTCNT_RT)\<rparr>))
      in if gt_version gt = CHR ''A'' then
           (if errors (blk_c blks) > BLERC_MAX \<or> errors (blk_d blks) > BLERD_MAX
            then Some decoder
            else do {
              let rtchars = [hi_byte (val (blk_c blks)), lo_byte (val (blk_c blks)),
                             hi_byte (val (blk_d blks)), lo_byte (val (blk_d blks))];
              let addr = (ucast ((b AND 0xf) * 4) :: u8);
              t1 \<leftarrow> update_rt_simple (rt_buffer r which) blks 4 addr rtchars;
              let t2 = (if decode_rt (rt r) \<noteq> which then bump_rt_validation_count t1 else t1);
              t3 \<leftarrow> update_rt_advance t2 blks 4 addr rtchars;
              finish t3
            })
         else
           (if errors (blk_d blks) > BLERD_MAX then Some decoder
            else do {
              let rtchars = [hi_byte (val (blk_d blks)), lo_byte (val (blk_d blks)), 0, 0];
              let addr = (ucast ((b AND 0xf) * 2) :: u8);
              let t = rt_buffer r which;
              let t0 = t\<lparr>rt_display := (rt_display t)[32 := 0x0d],
                         rt_hi_prob := (rt_hi_prob t)[32 := 0x0d],
                         rt_lo_prob := (rt_lo_prob t)[32 := 0x0d],
                         rt_hi_prob_cnt := (rt_hi_prob_cnt t)[32 := RT_VALIDATE_LIMIT]\<rparr>;
              t1 \<leftarrow> update_rt_simple t0 blks 2 addr rtchars;
              let t2 = (if decode_rt (rt r) \<noteq> which then bump_rt_validation_count t1 else t1);
              t3 \<leftarrow> update_rt_advance t2 blks 2 addr rtchars;
              finish t3
            }))"

text \<open>The search loop of \<^verbatim>\<open>decode_oda\<close>, from \<open>idx\<close>: where it stops.\<close>

function find_oda_gt_from :: "rds_data \<Rightarrow> rds_group_type \<Rightarrow> nat \<Rightarrow> nat option" where
  "find_oda_gt_from r gt idx =
     (if idx < unat (oda_cnt r) then
        (case load (oda r) idx of
           None \<Rightarrow> None
         | Some e \<Rightarrow>
             if GroupTypesEqual (oda_gt e) gt then Some idx else find_oda_gt_from r gt (Suc idx))
      else Some idx)"
  by pat_completeness auto
termination
  by (relation "measure (\<lambda>(r, gt, idx). unat (oda_cnt r) - idx)") auto

declare find_oda_gt_from.simps [simp del]

definition decode_oda ::
    "rds_decoder \<Rightarrow> rds_group_type \<Rightarrow> rds_blocks \<Rightarrow> rds_decoder option" where
  "decode_oda decoder gt blks = do {
     idx \<leftarrow> find_oda_gt_from (rds decoder) gt 0;
     if idx = unat (oda_cnt (rds decoder)) then Some decoder
     else do {
       e \<leftarrow> load (oda (rds decoder)) idx;
       es \<leftarrow> store (oda (rds decoder)) idx (e\<lparr>oda_pkt_count := oda_pkt_count e + 1\<rparr>);
       let r1 = (rds decoder)\<lparr>oda := es\<rparr>;
       Some (case oda_decode_cb decoder of
               None \<Rightarrow> decoder\<lparr>rds := r1\<rparr>
             | Some f \<Rightarrow>
                 decoder\<lparr>rds := r1,
                   calls := calls decoder @
                     [Decode_call f (oda_id e) r1 blks gt (oda_cb_data decoder)]\<rparr>)
     }
   }"

text \<open>The \<^verbatim>\<open>while\<close> loop of \<^verbatim>\<open>decode_group_type_3\<close>, from \<open>idx\<close>: where it stops.\<close>

function find_oda_id_from :: "rds_data \<Rightarrow> u16 \<Rightarrow> nat \<Rightarrow> nat option" where
  "find_oda_id_from r app_id idx =
     (if idx < unat (oda_cnt r) then
        (case load (oda r) idx of
           None \<Rightarrow> None
         | Some e \<Rightarrow> if oda_id e = app_id then Some idx else find_oda_id_from r app_id (Suc idx))
      else Some idx)"
  by pat_completeness auto
termination
  by (relation "measure (\<lambda>(r, app_id, idx). unat (oda_cnt r) - idx)") auto

declare find_oda_id_from.simps [simp del]

text \<open>The group type that a 3A group announces in block B.\<close>

definition announced_gt :: "u16 \<Rightarrow> rds_group_type" where
  "announced_gt b =
     \<lparr>gt_code = ucast (drop_bit 1 (b AND 0x1E)),
      gt_version = (if b AND 0x1 \<noteq> 0 then CHR ''B'' else CHR ''A'')\<rparr>"

definition decode_group_type_3 ::
    "rds_decoder \<Rightarrow> rds_group_type \<Rightarrow> rds_blocks \<Rightarrow> rds_decoder option" where
  "decode_group_type_3 decoder gt blks =
     (if gt_version gt = CHR ''A'' then
        (if errors (blk_d blks) = BLER_NONE then
           (let app_id = val (blk_d blks); r = rds decoder in
            if \<not> IsValidODAAppId app_id then Some decoder
            else do {
              idx \<leftarrow> find_oda_id_from r app_id 0;
              r1 \<leftarrow> (if idx < unat (oda_cnt r) then do {
                       e \<leftarrow> load (oda r) idx;
                       es \<leftarrow> store (oda r) idx (e\<lparr>oda_gt := announced_gt (val (blk_b blks))\<rparr>);
                       Some (r\<lparr>oda := es\<rparr>)
                     } else Some r);
              r2 \<leftarrow> (if idx = unat (oda_cnt r1) \<and> idx < 10 then do {
                       e \<leftarrow> load (oda r1) idx;
                       es \<leftarrow> store (oda r1) idx
                              (e\<lparr>oda_id := app_id, oda_gt := announced_gt (val (blk_b blks))\<rparr>);
                       Some (r1\<lparr>oda := es, oda_cnt := oda_cnt r1 + 1\<rparr>)
                     } else Some r1);
              Some (decoder\<lparr>rds := r2\<rparr>)
            })
         else Some decoder)
      else decode_oda decoder gt blks)"

definition B_JDATE :: u16 where "B_JDATE = 0x0003"
definition C_JDATE :: u16 where "C_JDATE = 0xFFFE"
definition D_HOUR :: u16 where "D_HOUR = 0xF000"
definition D_MINUTE :: u16 where "D_MINUTE = 0x0FC0"
definition D_UTC_OFFSET :: u16 where "D_UTC_OFFSET = 0x001F"
definition D_UTC_OFFSET_SIGN :: u16 where "D_UTC_OFFSET_SIGN = 0x0020"

text \<open>The sum of the three error classes is computed in \<^verbatim>\<open>int\<close> and cannot wrap.\<close>

definition update_clock :: "rds_decoder \<Rightarrow> rds_blocks \<Rightarrow> rds_decoder" where
  "update_clock decoder blks =
     (if errors (blk_b blks) > BLERB_MAX then decoder
      else if errors (blk_c blks) > BLERC_MAX then decoder
      else if errors (blk_d blks) > BLERD_MAX then decoder
      else if unat (errors (blk_b blks)) + unat (errors (blk_c blks)) + unat (errors (blk_d blks))
              > unat BLERB_MAX then decoder
      else
        (let b = val (blk_b blks); c = val (blk_c blks); d = val (blk_d blks);
             r1 = count_packet (SET_BITS (rds decoder) RDS_CLOCK) PKTCNT_CLOCK;
             off = (ucast (d AND D_UTC_OFFSET) :: u8)
         in decoder\<lparr>rds := r1\<lparr>clock :=
              \<lparr>clock_day_high = (drop_bit 1 (b AND B_JDATE) \<noteq> 0),
               clock_day_low = push_bit 15 (b AND 0x1) OR drop_bit 1 (c AND C_JDATE),
               clock_hour = ucast (push_bit 4 (c AND 0x1) OR drop_bit 12 (d AND D_HOUR)),
               clock_minute = ucast (drop_bit 6 (d AND D_MINUTE)),
               clock_utc_offset = (if d AND D_UTC_OFFSET_SIGN \<noteq> 0 then - off else off)\<rparr>\<rparr>\<rparr>))"

definition decode_group_type_4 ::
    "rds_decoder \<Rightarrow> rds_group_type \<Rightarrow> rds_blocks \<Rightarrow> rds_decoder option" where
  "decode_group_type_4 decoder gt blks =
     (if gt_version gt = CHR ''A'' then Some (update_clock decoder blks)
      else decode_oda decoder gt blks)"

definition NUM_TDC :: nat where "NUM_TDC = 32"
definition TDC_LEN :: nat where "TDC_LEN = 32"

text \<open>
  \<^verbatim>\<open>memmove(&data[channel][0], &data[channel][2], TDC_LEN - 2)\<close> on one channel's array:
  byte \<open>j + 2\<close> goes to \<open>j\<close> for the first \<open>TDC_LEN - 2\<close> positions, the last two stay.
\<close>

definition tdc_memmove :: "u8 list \<Rightarrow> u8 list" where
  "tdc_memmove xs = map (\<lambda>j. if j < TDC_LEN - 2 then xs ! (j + 2) else xs ! j) [0 ..< TDC_LEN]"

definition decode_tdc_block :: "rds_data \<Rightarrow> rds_block \<Rightarrow> rds_data option" where
  "decode_tdc_block r block =
     (let channel = tdc_curr_channel (tdc r) in
      if NUM_TDC \<le> unat channel then Some r
      else do {
        let r1 = count_packet (SET_BITS r RDS_TDC) PKTCNT_TDC;
        row \<leftarrow> load (tdc_data (tdc r1)) (unat channel);
        let row1 = (tdc_memmove row)[TDC_LEN - 2 := hi_byte (val block),
                                     TDC_LEN - 1 := lo_byte (val block)];
        rows \<leftarrow> store (tdc_data (tdc r1)) (unat channel) row1;
        Some (r1\<lparr>tdc := (tdc r1)\<lparr>tdc_data := rows\<rparr>\<rparr>)
      })"

text \<open>
  The channel is \<^verbatim>\<open>blocks->b.val & 0x11111\<close>, computed in \<^verbatim>\<open>int\<close> and truncated to the
  \<^verbatim>\<open>uint8_t\<close> field.
\<close>

definition decode_group_type_5 ::
    "rds_decoder \<Rightarrow> rds_group_type \<Rightarrow> rds_blocks \<Rightarrow> rds_decoder option" where
  "decode_group_type_5 decoder gt blks =
     (if IsGroupTypeUsedByODA (rds decoder) gt then decode_oda decoder gt blks
      else if gt_version gt = CHR ''A'' then do {
        let r = rds decoder;
        let r1 = r\<lparr>tdc := (tdc r)\<lparr>tdc_curr_channel :=
                   ucast ((ucast (val (blk_b blks)) :: u32) AND 0x11111)\<rparr>\<rparr>;
        r2 \<leftarrow> decode_tdc_block r1 (blk_c blks);
        r3 \<leftarrow> decode_tdc_block r2 (blk_d blks);
        Some (decoder\<lparr>rds := r3\<rparr>)
      }
      else do {
        r1 \<leftarrow> decode_tdc_block (rds decoder) (blk_d blks);
        Some (decoder\<lparr>rds := r1\<rparr>)
      })"

definition decode_in_house_data :: "rds_decoder \<Rightarrow> rds_decoder" where
  "decode_in_house_data decoder = decoder\<lparr>rds := count_packet (rds decoder) PKTCNT_IH\<rparr>"

definition decode_group_type_6 ::
    "rds_decoder \<Rightarrow> rds_group_type \<Rightarrow> rds_blocks \<Rightarrow> rds_decoder option" where
  "decode_group_type_6 decoder gt blks =
     (if IsGroupTypeUsedByODA (rds decoder) gt then decode_oda decoder gt blks
      else Some (decode_in_house_data decoder))"

definition decode_radio_paging :: "rds_decoder \<Rightarrow> rds_decoder" where
  "decode_radio_paging decoder = decoder\<lparr>rds := count_packet (rds decoder) PKTCNT_PAGING\<rparr>"

definition decode_group_type_7 ::
    "rds_decoder \<Rightarrow> rds_group_type \<Rightarrow> rds_blocks \<Rightarrow> rds_decoder option" where
  "decode_group_type_7 decoder gt blks =
     (if gt_version gt = CHR ''A'' then
        (if IsGroupTypeUsedByODA (rds decoder) gt then decode_oda decoder gt blks
         else Some (decode_radio_paging decoder))
      else decode_oda decoder gt blks)"

definition decode_tmc :: "rds_decoder \<Rightarrow> rds_decoder" where
  "decode_tmc decoder = decoder\<lparr>rds := count_packet (rds decoder) PKTCNT_TMC\<rparr>"

definition decode_group_type_8 ::
    "rds_decoder \<Rightarrow> rds_group_type \<Rightarrow> rds_blocks \<Rightarrow> rds_decoder option" where
  "decode_group_type_8 decoder gt blks =
     (if IsGroupTypeUsedByODA (rds decoder) gt then decode_oda decoder gt blks
      else if gt_version gt = CHR ''A'' then Some (decode_tmc decoder)
      else Some decoder)"

definition decode_ews :: "rds_decoder \<Rightarrow> rds_blocks \<Rightarrow> rds_decoder" where
  "decode_ews decoder blks =
     (let r1 = SET_BITS (count_packet (rds decoder) PKTCNT_EWS) RDS_EWS;
          e1 = (ews r1)\<lparr>ews_b := blk_b blks\<rparr>;
          e2 = e1\<lparr>ews_b := (ews_b e1)\<lparr>val := val (ews_b e1) AND 0x1F\<rparr>\<rparr>
      in decoder\<lparr>rds := r1\<lparr>ews := e2\<lparr>ews_c := blk_c blks, ews_d := blk_d blks\<rparr>\<rparr>\<rparr>)"

definition decode_group_type_9 ::
    "rds_decoder \<Rightarrow> rds_group_type \<Rightarrow> rds_blocks \<Rightarrow> rds_decoder option" where
  "decode_group_type_9 decoder gt blks =
     (if IsGroupTypeUsedByODA (rds decoder) gt then decode_oda decoder gt blks
      else if gt_version gt = CHR ''A'' then Some (decode_ews decoder blks)
      else Some decoder)"

definition update_ptyn :: "rds_data \<Rightarrow> u8 \<Rightarrow> u8 \<Rightarrow> rds_data option" where
  "update_ptyn r char_idx ch =
     (if 8 \<le> unat char_idx then Some r
      else do {
        d \<leftarrow> store (ptyn_display (ptyn r)) (unat char_idx) ch;
        Some (r\<lparr>ptyn := (ptyn r)\<lparr>ptyn_display := d\<rparr>\<rparr>)
      })"

definition B_PTYN_AB_FLAG :: u16 where "B_PTYN_AB_FLAG = 0x10"
definition B_PTYN_SEGMENT_ADDR :: u16 where "B_PTYN_SEGMENT_ADDR = 0x01"

definition decode_ptyn :: "rds_decoder \<Rightarrow> rds_blocks \<Rightarrow> rds_decoder option" where
  "decode_ptyn decoder blks =
     (let r1 = count_packet (SET_BITS (rds decoder) RDS_PTYN) PKTCNT_PTYN;
          ab_val = (val (blk_b blks) AND B_PTYN_AB_FLAG \<noteq> 0);
          r2 = (if ptyn_last_ab (ptyn r1) \<noteq> ab_val
                then r1\<lparr>ptyn := \<lparr>ptyn_display = replicate 8 0, ptyn_last_ab = ab_val\<rparr>\<rparr>
                else r1);
          base = (if val (blk_b blks) AND B_PTYN_SEGMENT_ADDR \<noteq> 0 then 4 else 0 :: u8)
      in do {
        r3 \<leftarrow> (if errors (blk_c blks) \<le> BLERC_MAX then do {
                 r \<leftarrow> update_ptyn r2 (base + 0) (hi_byte (val (blk_c blks)));
                 update_ptyn r (base + 1) (lo_byte (val (blk_c blks)))
               } else Some r2);
        r4 \<leftarrow> (if errors (blk_d blks) \<le> BLERD_MAX then do {
                 r \<leftarrow> update_ptyn r3 (base + 2) (hi_byte (val (blk_d blks)));
                 update_ptyn r (base + 3) (lo_byte (val (blk_d blks)))
               } else Some r3);
        Some (decoder\<lparr>rds := r4\<rparr>)
      })"

definition decode_group_type_10 ::
    "rds_decoder \<Rightarrow> rds_group_type \<Rightarrow> rds_blocks \<Rightarrow> rds_decoder option" where
  "decode_group_type_10 decoder gt blks =
     (if gt_version gt = CHR ''A'' then decode_ptyn decoder blks
      else decode_oda decoder gt blks)"

definition decode_group_type_11 ::
    "rds_decoder \<Rightarrow> rds_group_type \<Rightarrow> rds_blocks \<Rightarrow> rds_decoder option" where
  "decode_group_type_11 decoder gt blks = decode_oda decoder gt blks"

definition decode_group_type_12 ::
    "rds_decoder \<Rightarrow> rds_group_type \<Rightarrow> rds_blocks \<Rightarrow> rds_decoder option" where
  "decode_group_type_12 decoder gt blks = decode_oda decoder gt blks"

definition decode_group_type_13 ::
    "rds_decoder \<Rightarrow> rds_group_type \<Rightarrow> rds_blocks \<Rightarrow> rds_decoder option" where
  "decode_group_type_13 decoder gt blks = decode_oda decoder gt blks"

text \<open>
  The sixteen variants of a 14A group; the variants that the \<^verbatim>\<open>switch\<close> leaves empty
  (5 to 12, 14 and 15) change nothing.
\<close>

definition decode_eon_block_a :: "rds_data \<Rightarrow> rds_blocks \<Rightarrow> rds_data option" where
  "decode_eon_block_a r blks =
     (let vc = val (blk_b blks) AND 0xf;
          c = val (blk_c blks);
          e = eon r;
          n = eon_on e;
          put_ps = (\<lambda>k. Some (r\<lparr>eon := e\<lparr>eon_on :=
                      n\<lparr>on_ps := (on_ps n)[k := hi_byte c, k + 1 := lo_byte c]\<rparr>\<rparr>\<rparr>))
      in if vc = 0 then put_ps 0
         else if vc = 1 then put_ps 2
         else if vc = 2 then put_ps 4
         else if vc = 3 then put_ps 6
         else if vc = 4 then
           (let first_byte = hi_byte c in
            if is_freq_code_count first_byte then do {
              dt \<leftarrow> decode_freq_table_start_block ((on_af n)\<lparr>pvt_band := AF_BAND_UHF\<rparr>)
                      (freq_code_to_count first_byte) (lo_byte c);
              Some (r\<lparr>eon := e\<lparr>eon_on := n\<lparr>on_af := dt\<rparr>\<rparr>\<rparr>)
            } else do {
              dt \<leftarrow> decode_freq_table_nth_block (on_af n) first_byte (lo_byte c);
              Some (r\<lparr>eon := e\<lparr>eon_on := n\<lparr>on_af := dt\<rparr>\<rparr>\<rparr>)
            })
         else if vc = 13 then
           Some (r\<lparr>eon := e\<lparr>eon_on :=
                   n\<lparr>on_pty := (if c > 11 then 1 else 0), on_ta_code := (c AND 0x1 \<noteq> 0)\<rparr>\<rparr>\<rparr>)
         else Some r)"

definition decode_group_type_14 ::
    "rds_decoder \<Rightarrow> rds_group_type \<Rightarrow> rds_blocks \<Rightarrow> rds_decoder option" where
  "decode_group_type_14 decoder gt blks =
     (let r1 = SET_BITS (count_packet (rds decoder) PKTCNT_EON) RDS_EON in
      if gt_version gt = CHR ''A'' then do {
        r2 \<leftarrow> decode_eon_block_a r1 blks;
        Some (decoder\<lparr>rds := r2\<rparr>)
      }
      else
        (let n = eon_on (eon r1);
             n1 = (if errors (blk_d blks) \<le> BLERD_MAX
                   then n\<lparr>on_pi_code := val (blk_d blks)\<rparr> else n);
             n2 = n1\<lparr>on_tp_code := (val (blk_b blks) AND 0x8 \<noteq> 0),
                     on_ta_code := (val (blk_b blks) AND 0x4 \<noteq> 0)\<rparr>
         in Some (decoder\<lparr>rds := r1\<lparr>eon := (eon r1)\<lparr>eon_on := n2\<rparr>\<rparr>\<rparr>)))"

definition decode_fast_basic_tuning :: "rds_decoder \<Rightarrow> rds_blocks \<Rightarrow> rds_decoder" where
  "decode_fast_basic_tuning decoder blks =
     (let d1 = decoder\<lparr>rds := count_packet (rds decoder) PKTCNT_FBT\<rparr> in
      if errors (blk_d blks) > BLERD_MAX then d1 else d1)"

definition decode_group_type_15 ::
    "rds_decoder \<Rightarrow> rds_group_type \<Rightarrow> rds_blocks \<Rightarrow> rds_decoder option" where
  "decode_group_type_15 decoder gt blks =
     (let d1 = (if gt_version gt = CHR ''A'' then decoder
                else decode_fast_basic_tuning decoder blks)
      in Some (d1\<lparr>rds := decode_ta (rds d1) (blk_b blks)\<rparr>))"

section \<open>rds\_decoder.c: the exported functions\<close>

text \<open>\<^verbatim>\<open>stats.groups[gt.code].a++\<close> or \<^verbatim>\<open>.b++\<close>, by the version of the group.\<close>

definition count_group :: "rds_data \<Rightarrow> rds_group_type \<Rightarrow> rds_data option" where
  "count_group r gt = do {
     g \<leftarrow> load (stats_groups (stats r)) (unat (gt_code gt));
     gs \<leftarrow> store (stats_groups (stats r)) (unat (gt_code gt))
            (if gt_version gt = CHR ''A'' then g\<lparr>cnt_a := cnt_a g + 1\<rparr>
             else g\<lparr>cnt_b := cnt_b g + 1\<rparr>);
     Some (r\<lparr>stats := (stats r)\<lparr>stats_groups := gs\<rparr>\<rparr>)
   }"

definition dispatch ::
    "rds_decoder \<Rightarrow> rds_group_type \<Rightarrow> rds_blocks \<Rightarrow> rds_decoder option" where
  "dispatch decoder gt blks =
     (let k = gt_code gt in
      if k = 0 then decode_group_type_0 decoder gt blks
      else if k = 1 then decode_group_type_1 decoder gt blks
      else if k = 2 then decode_group_type_2 decoder gt blks
      else if k = 3 then decode_group_type_3 decoder gt blks
      else if k = 4 then decode_group_type_4 decoder gt blks
      else if k = 5 then decode_group_type_5 decoder gt blks
      else if k = 6 then decode_group_type_6 decoder gt blks
      else if k = 7 then decode_group_type_7 decoder gt blks
      else if k = 8 then decode_group_type_8 decoder gt blks
      else if k = 9 then decode_group_type_9 decoder gt blks
      else if k = 10 then decode_group_type_10 decoder gt blks
      else if k = 11 then decode_group_type_11 decoder gt blks
      else if k = 12 then decode_group_type_12 decoder gt blks
      else if k = 13 then decode_group_type_13 decoder gt blks
      else if k = 14 then decode_group_type_14 decoder gt blks
      else if k = 15 then decode_group_type_15 decoder gt blks
      else Some decoder)"

definition group_type_of :: "u16 \<Rightarrow> rds_group_type" where
  "group_type_of b =
     \<lparr>gt_code = ucast (drop_bit 12 (b AND GT_CODE_MASK)),
      gt_version = (if b AND VERSION_CODE \<noteq> 0 then CHR ''B'' else CHR ''A'')\<rparr>"

definition latch_pi_code :: "rds_data \<Rightarrow> u16 \<Rightarrow> rds_data" where
  "latch_pi_code r v = count_packet (SET_BITS (r\<lparr>pi_code := v\<rparr>) RDS_PI_CODE) PKTCNT_PI_CODE"

definition rds_decoder_decode :: "rds_decoder \<Rightarrow> rds_blocks \<Rightarrow> rds_decoder option" where
  "rds_decoder_decode decoder blks =
     (let r0 = rds decoder;
          r1 = r0\<lparr>stats := (stats r0)\<lparr>data_cnt := data_cnt (stats r0) + 1\<rparr>\<rparr>;
          r2 = (if errors (blk_a blks) \<le> BLERA_MAX then latch_pi_code r1 (val (blk_a blks))
                else r1)
      in if errors (blk_b blks) > BLERB_MAX
         then Some (decoder\<lparr>rds :=
                r2\<lparr>stats := (stats r2)\<lparr>blckb_errors := blckb_errors (stats r2) + 1\<rparr>\<rparr>\<rparr>)
         else
           (let gt = group_type_of (val (blk_b blks));
                r3 = (if gt_version gt = CHR ''B'' \<and> errors (blk_c blks) \<le> BLERC_MAX \<and>
                         errors (blk_c blks) < errors (blk_b blks)
                      then latch_pi_code r2 (val (blk_c blks)) else r2)
            in do {
              r4 \<leftarrow> count_group r3 gt;
              dispatch (decoder\<lparr>rds := decode_pty r4 (blk_b blks)\<rparr>) gt blks
            }))"

definition rds_decoder_reset :: "rds_decoder \<Rightarrow> rds_decoder" where
  "rds_decoder_reset decoder =
     (let r1 = zero_rds_data;
          r2 = r1\<lparr>af := (af r1)\<lparr>pvt_current_table_idx := - 1\<rparr>\<rparr>;
          d1 = decoder\<lparr>rds := r2\<rparr>
      in case oda_clear_cb decoder of
           None \<Rightarrow> d1
         | Some f \<Rightarrow> d1\<lparr>calls := calls d1 @ [Clear_call f (oda_cb_data decoder) (rds d1)]\<rparr>)"

text \<open>
  \<^verbatim>\<open>rds_decoder_create\<close>: \<^verbatim>\<open>calloc\<close> clears the decoder, then the configuration is copied.
  The record \<open>r\<close> is the host's, as \<^verbatim>\<open>config->rds_data\<close> points to it.
\<close>

definition rds_decoder_create :: "bool \<Rightarrow> rds_data \<Rightarrow> rds_decoder" where
  "rds_decoder_create config_advanced_ps_decoding r =
     \<lparr>rds = r, oda_decode_cb = None, oda_clear_cb = None, oda_cb_data = 0,
      advanced_ps_decoding = config_advanced_ps_decoding, calls = []\<rparr>"

definition rds_decoder_set_oda_callbacks ::
    "rds_decoder \<Rightarrow> nat option \<Rightarrow> nat option \<Rightarrow> nat \<Rightarrow> rds_decoder" where
  "rds_decoder_set_oda_callbacks decoder decode_cb clear_cb cb_data =
     decoder\<lparr>oda_decode_cb := decode_cb, oda_clear_cb := clear_cb, oda_cb_data := cb_data\<rparr>"

text \<open>A sequence of calls of \<^verbatim>\<open>rds_decoder_decode\<close>, one per group, in order.\<close>

primrec decode_all :: "rds_decoder \<Rightarrow> rds_blocks list \<Rightarrow> rds_decoder option" where
  "decode_all decoder [] = Some decoder"
| "decode_all decoder (blks # rest) =
     (case rds_decoder_decode decoder blks of
        None \<Rightarrow> None
      | Some d \<Rightarrow> decode_all d rest)"

section \<open>Well-formed records and derived notions\<close>

text \<open>
  The arrays of a record have their declared sizes, and the counters that index them stay
  within these sizes. Every record reached from \<^verbatim>\<open>rds_decoder_reset\<close> is of this kind.
\<close>

definition wf_af_table :: "rds_af_table \<Rightarrow> bool" where
  "wf_af_table t \<longleftrightarrow> length (entry t) = 25 \<and> unat (count t) \<le> 25"

definition wf_af_decode_table :: "rds_af_decode_table \<Rightarrow> bool" where
  "wf_af_decode_table dt \<longleftrightarrow> wf_af_table (table dt)"

definition wf_af_group :: "rds_af_table_group \<Rightarrow> bool" where
  "wf_af_group g \<longleftrightarrow>
     length (grp_table g) = 20 \<and> unat (grp_count g) \<le> 20 \<and> pvt_current_table_idx g < 20 \<and>
     list_all wf_af_decode_table (grp_table g)"

definition wf_rt :: "rds_rt \<Rightarrow> bool" where
  "wf_rt t \<longleftrightarrow>
     length (rt_display t) = 64 \<and> length (rt_hi_prob t) = 64 \<and> length (rt_lo_prob t) = 64 \<and>
     length (rt_hi_prob_cnt t) = 64"

definition wf_ps :: "rds_ps \<Rightarrow> bool" where
  "wf_ps p \<longleftrightarrow>
     length (ps_display p) = 8 \<and> length (ps_hi_prob p) = 8 \<and> length (ps_lo_prob p) = 8 \<and>
     length (ps_hi_prob_cnt p) = 8"

definition wf_tdc :: "rds_tdc \<Rightarrow> bool" where
  "wf_tdc t \<longleftrightarrow> length (tdc_data t) = 32 \<and> list_all (\<lambda>row. length row = 32) (tdc_data t)"

definition wf_stats :: "rds_stats \<Rightarrow> bool" where
  "wf_stats s \<longleftrightarrow> length (stats_counts s) = 20 \<and> length (stats_groups s) = 16"

definition wf_rds :: "rds_data \<Rightarrow> bool" where
  "wf_rds r \<longleftrightarrow>
     wf_ps (ps r) \<and> wf_rt (rt_a (rt r)) \<and> wf_rt (rt_b (rt r)) \<and>
     length (ptyn_display (ptyn r)) = 8 \<and> wf_af_group (af r) \<and>
     length (on_ps (eon_on (eon r))) = 8 \<and> wf_af_decode_table (on_af (eon_on (eon r))) \<and>
     length (eon_maps (eon r)) = 5 \<and>
     length (oda r) = 10 \<and> unat (oda_cnt r) \<le> 10 \<and>
     wf_tdc (tdc r) \<and> wf_stats (stats r)"

text \<open>
  The record with which \<^verbatim>\<open>rds_decoder_decode\<close> enters the \<^verbatim>\<open>switch\<close> on the group code,
  for a group whose block B is accepted: the counters, the PI code, TP and PTY are updated.
\<close>

definition entry_state :: "rds_data \<Rightarrow> rds_blocks \<Rightarrow> rds_data" where
  "entry_state r blks =
     (let r1 = r\<lparr>stats := (stats r)\<lparr>data_cnt := data_cnt (stats r) + 1\<rparr>\<rparr>;
          r2 = (if errors (blk_a blks) \<le> BLERA_MAX then latch_pi_code r1 (val (blk_a blks))
                else r1);
          gt = group_type_of (val (blk_b blks));
          r3 = (if gt_version gt = CHR ''B'' \<and> errors (blk_c blks) \<le> BLERC_MAX \<and>
                   errors (blk_c blks) < errors (blk_b blks)
                then latch_pi_code r2 (val (blk_c blks)) else r2);
          k = unat (gt_code gt);
          gs = stats_groups (stats r3);
          r4 = r3\<lparr>stats := (stats r3)\<lparr>stats_groups :=
                 gs[k := (if gt_version gt = CHR ''A'' then (gs ! k)\<lparr>cnt_a := cnt_a (gs ! k) + 1\<rparr>
                          else (gs ! k)\<lparr>cnt_b := cnt_b (gs ! k) + 1\<rparr>)]\<rparr>\<rparr>
      in decode_pty r4 (blk_b blks))"

text \<open>
  The clock fields as the specification writes them, from the values of blocks B, C and D:
  the day bits, \<open>hour = ((C&1)<<4) | ((D>>12)&0xF)\<close>, \<open>minute = (D>>6)&0x3F\<close> and the offset
  \<open>D&0x1F\<close>, negated when bit 5 of D is set.
\<close>

definition clock_of_blocks :: "u16 \<Rightarrow> u16 \<Rightarrow> u16 \<Rightarrow> rds_clock" where
  "clock_of_blocks B C D =
     \<lparr>clock_day_high = (drop_bit 1 (B AND 2) \<noteq> 0),
      clock_day_low = push_bit 15 (B AND 1) OR drop_bit 1 (C AND 0xFFFE),
      clock_hour = ucast (push_bit 4 (C AND 1) OR (drop_bit 12 D AND 0xF)),
      clock_minute = ucast (drop_bit 6 D AND 0x3F),
      clock_utc_offset = (if bit D 5 then - ucast (D AND 0x1F) else ucast (D AND 0x1F))\<rparr>"

text \<open>A decoder right after creation and reset, in simple and in advanced PS mode.\<close>

definition fresh_decoder :: rds_decoder where
  "fresh_decoder = rds_decoder_reset (rds_decoder_create False zero_rds_data)"

definition fresh_decoder_advanced :: rds_decoder where
  "fresh_decoder_advanced = rds_decoder_reset (rds_decoder_create True zero_rds_data)"

text \<open>A group of four blocks, from the four values and the four error classes.\<close>

definition group_of :: "u16 \<Rightarrow> u8 \<Rightarrow> u16 \<Rightarrow> u8 \<Rightarrow> u16 \<Rightarrow> u8 \<Rightarrow> u16 \<Rightarrow> u8 \<Rightarrow> rds_blocks" where
  "group_of va ea vb eb vc ec vd ed =
     \<lparr>blk_a = \<lparr>val = va, errors = ea\<rparr>, blk_b = \<lparr>val = vb, errors = eb\<rparr>,
      blk_c = \<lparr>val = vc, errors = ec\<rparr>, blk_d = \<lparr>val = vd, errors = ed\<rparr>\<rparr>"

text \<open>
  Whether a frequency is among the entries in use (equal band and value).
\<close>

definition af_present :: "rds_af_table \<Rightarrow> rds_freq \<Rightarrow> bool" where
  "af_present t fq = list_ex (\<lambda>e. freq_eq e fq) (take (unat (count t)) (entry t))"

text \<open>
  What \<^verbatim>\<open>insert_alt_freq\<close> leaves of a well-formed table: the frequency is stored at index
  \<open>count\<close>, unless the table is full or holds the frequency already.
\<close>

definition append_freq :: "rds_af_table \<Rightarrow> rds_freq \<Rightarrow> rds_af_table" where
  "append_freq t fq =
     (if unat (count t) < 25 \<and> \<not> af_present t fq
      then t\<lparr>entry := (entry t)[unat (count t) := fq], count := count t + 1\<rparr>
      else t)"

text \<open>
  No two of the entries in use have the same band and value.
\<close>

definition af_distinct :: "rds_af_table \<Rightarrow> bool" where
  "af_distinct t = distinct (map (\<lambda>e. (band e, freq e)) (take (unat (count t)) (entry t)))"

text \<open>
  From one content of a table to a later one: the later table is well formed, its count
  is not smaller, the entries that were in use are the same, and no duplicate has come in.
\<close>

definition af_table_step :: "rds_af_table \<Rightarrow> rds_af_table \<Rightarrow> bool" where
  "af_table_step t t' \<longleftrightarrow>
     wf_af_table t' \<and> unat (count t) \<le> unat (count t') \<and>
     take (unat (count t)) (entry t') = take (unat (count t)) (entry t) \<and>
     (af_distinct t \<longrightarrow> af_distinct t')"

text \<open>
  The same for a table group: its count is not smaller and each table has made a step.
\<close>

definition af_group_step :: "rds_af_table_group \<Rightarrow> rds_af_table_group \<Rightarrow> bool" where
  "af_group_step g g' \<longleftrightarrow>
     wf_af_group g' \<and> unat (grp_count g) \<le> unat (grp_count g') \<and>
     list_all2 (\<lambda>dt dt'. af_table_step (table dt) (table dt')) (grp_table g) (grp_table g')"

text \<open>
  The frequency that \<^verbatim>\<open>decode_freq_table_nth_block\<close> builds from a frequency code, in the
  current band of the table.
\<close>

definition nth_pair_freq :: "rds_af_decode_table \<Rightarrow> u8 \<Rightarrow> rds_freq" where
  "nth_pair_freq dt freq_code =
     \<lparr>band = pvt_band dt, attrib = AF_ATTRIB_SAME_PROG,
      freq = af_code_to_freq freq_code (pvt_band dt)\<rparr>"

text \<open>
  The first table after the two 0A groups with block C \<open>0xE301\<close> (three frequencies,
  tuned 87.6 MHz) and \<open>0x0105\<close>: method B, anchor 87.6 MHz, one more pair expected.
\<close>

definition method_b_table :: rds_af_decode_table where
  "method_b_table =
     zero_af_decode_table
       \<lparr>table := zero_af_table
          \<lparr>tuned_freq := \<lparr>band = AF_BAND_UHF, attrib = AF_ATTRIB_SAME_PROG, freq = 876\<rparr>,
           count := 2,
           entry := (replicate 25 zero_freq)
             [0 := \<lparr>band = AF_BAND_UHF, attrib = AF_ATTRIB_SAME_PROG, freq = 876\<rparr>,
              1 := \<lparr>band = AF_BAND_UHF, attrib = AF_ATTRIB_REG_VARIANT, freq = 880\<rparr>]\<rparr>,
        enc_method := AF_EM_B, pvt_prev_enc_method := AF_EM_B, pvt_expected_cnt := 1\<rparr>"

text \<open>
  From one content of the RDS state record to a later one: the later record is well
  formed, and the AF table group and the AF table of the other network have made a step.
\<close>

definition rds_step :: "rds_data \<Rightarrow> rds_data \<Rightarrow> bool" where
  "rds_step r r' \<longleftrightarrow>
     wf_rds r' \<and> af_group_step (af r) (af r') \<and>
     af_table_step (table (on_af (eon_on (eon r)))) (table (on_af (eon_on (eon r'))))"

text \<open>
  A call that returns a record reached by a step.
\<close>

definition steps_to :: "rds_data \<Rightarrow> rds_data option \<Rightarrow> bool" where
  "steps_to r res \<longleftrightarrow> (case res of None \<Rightarrow> False | Some r' \<Rightarrow> rds_step r r')"

text \<open>
  A call that returns a decoder whose record is reached by a step from \<open>r\<close>.
\<close>

definition reaches :: "rds_data \<Rightarrow> rds_decoder option \<Rightarrow> bool" where
  "reaches r res \<longleftrightarrow> (case res of None \<Rightarrow> False | Some d' \<Rightarrow> rds_step r (rds d'))"

section \<open>Basic facts\<close>

lemma load_in: "i < length xs \<Longrightarrow> load xs i = Some (xs ! i)"
  by (simp add: load_def)

lemma store_in: "i < length xs \<Longrightarrow> store xs i v = Some (xs[i := v])"
  by (simp add: store_def)

lemma unat_and_le: "unat (x AND m) \<le> unat (m :: 'a::len word)"
  by (rule word_and_le1 [THEN word_le_nat_alt [THEN iffD1]])

lemma gt_code_lt_16: "unat (gt_code (group_type_of b)) < 16"
proof -
  have "unat (drop_bit 12 b AND 15) \<le> unat (15 :: u16)" by (rule unat_and_le)
  then show ?thesis
    by (simp add: group_type_of_def GT_CODE_MASK_def unsigned_ucast_eq take_bit_eq_mod)
qed

lemma latch_pi_code_groups:
  "stats_groups (stats (latch_pi_code r v)) = stats_groups (stats r)"
  by (simp add: latch_pi_code_def SET_BITS_def count_packet_def)

lemma decode_accepted:
  assumes "errors (blk_b blks) \<le> BLERB_MAX"
      and "length (stats_groups (stats (rds d))) = 16"
  shows "rds_decoder_decode d blks =
           dispatch (d\<lparr>rds := entry_state (rds d) blks\<rparr>) (group_type_of (val (blk_b blks))) blks"
proof -
  have k: "unat (gt_code (group_type_of (val (blk_b blks)))) < 16" by (rule gt_code_lt_16)
  have nb: "\<not> errors (blk_b blks) > BLERB_MAX" using assms(1) by (simp add: not_less)
  show ?thesis
    using k nb assms(2)
    by (simp add: rds_decoder_decode_def entry_state_def Let_def count_group_def load_in store_in
        latch_pi_code_groups)
qed

lemma entry_state_frame:
  "entry_state r blks =
     r\<lparr>pi_code := pi_code (entry_state r blks), pty := pty (entry_state r blks),
       tp_code := tp_code (entry_state r blks), stats := stats (entry_state r blks),
       valid_values := valid_values (entry_state r blks)\<rparr>"
  by (simp add: entry_state_def Let_def decode_pty_def latch_pi_code_def SET_BITS_def
      count_packet_def)

lemma entry_state_fields:
  "pic (entry_state r blks) = pic r"
  "ta_code (entry_state r blks) = ta_code r"
  "music (entry_state r blks) = music r"
  "ps (entry_state r blks) = ps r"
  "rt (entry_state r blks) = rt r"
  "clock (entry_state r blks) = clock r"
  "slc (entry_state r blks) = slc r"
  "ptyn (entry_state r blks) = ptyn r"
  "af (entry_state r blks) = af r"
  "eon (entry_state r blks) = eon r"
  "oda_cnt (entry_state r blks) = oda_cnt r"
  "oda (entry_state r blks) = oda r"
  "tdc (entry_state r blks) = tdc r"
  "ews (entry_state r blks) = ews r"
  by (subst entry_state_frame, simp)+

lemma entry_state_stats:
  "length (stats_counts (stats (entry_state r blks))) = length (stats_counts (stats r))"
  "length (stats_groups (stats (entry_state r blks))) = length (stats_groups (stats r))"
  by (simp_all add: entry_state_def Let_def decode_pty_def latch_pi_code_def SET_BITS_def
      count_packet_def)

lemma sint_small:
  assumes "uint (x::u8) \<le> 31"
  shows "sint x = uint x" and "sint (- x) = - uint x"
proof -
  have "sint x = signed_take_bit 7 (uint x)" by (simp add: sint_uint)
  also have "\<dots> = uint x"
    using assms signed_take_bit_int_eq_self [of 7 "uint x"] uint_nonnegative [of x] by simp
  finally show a: "sint x = uint x" .
  have "sint (- x) = signed_take_bit 7 (- sint x)" by (simp add: sint_word_minus)
  also have "\<dots> = - uint x"
    using assms a signed_take_bit_int_eq_self [of 7 "- uint x"] uint_nonnegative [of x] by simp
  finally show "sint (- x) = - uint x" .
qed

lemma and_1f_uint: "uint (ucast ((d::u16) AND 0x1F) :: u8) = uint (d AND 0x1F)"
proof -
  have "unat (d AND 0x1F) \<le> unat (0x1F :: u16)" by (rule unat_and_le)
  then have "unat (d AND 0x1F) < 256" by simp
  then have "unat (ucast (d AND 0x1F) :: u8) = unat (d AND 0x1F)"
    by (simp add: unsigned_ucast_eq take_bit_eq_mod)
  then show ?thesis unfolding uint_nat by simp
qed

lemma and_1f_le: "uint ((d::u16) AND 0x1F) \<le> 31"
  using word_and_le1 [of d "0x1F"] by (simp add: word_le_def)

lemma and_32_bit5: "((d::u16) AND 32 \<noteq> 0) = bit d 5"
  using and_exp_eq_0_iff_not_bit [of d 5] by simp

lemma update_clock_eq:
  "clock (rds (update_clock d g)) =
     (if errors (blk_b g) \<le> BLERB_MAX \<and> errors (blk_c g) \<le> BLERC_MAX \<and>
         errors (blk_d g) \<le> BLERD_MAX \<and>
         unat (errors (blk_b g)) + unat (errors (blk_c g)) + unat (errors (blk_d g))
           \<le> unat BLERB_MAX
      then clock_of_blocks (val (blk_b g)) (val (blk_c g)) (val (blk_d g))
      else clock (rds d))"
proof (cases "errors (blk_b g) \<le> BLERB_MAX \<and> errors (blk_c g) \<le> BLERC_MAX \<and>
         errors (blk_d g) \<le> BLERD_MAX \<and>
         unat (errors (blk_b g)) + unat (errors (blk_c g)) + unat (errors (blk_d g))
           \<le> unat BLERB_MAX")
  case True
  then show ?thesis
    by (simp add: update_clock_def Let_def clock_of_blocks_def not_less B_JDATE_def C_JDATE_def
        D_HOUR_def D_MINUTE_def D_UTC_OFFSET_def D_UTC_OFFSET_SIGN_def and_32_bit5
        SET_BITS_def count_packet_def leD)
next
  case False
  then show ?thesis
    by (auto simp add: update_clock_def not_le)
qed

lemma clock_of_blocks_offset:
  "sint (clock_utc_offset (clock_of_blocks B C D)) =
     (if bit D 5 then - uint (D AND 0x1F) else uint (D AND 0x1F))"
  using sint_small [of "ucast (D AND 0x1F)"] and_1f_uint [of D] and_1f_le [of D]
  by (simp add: clock_of_blocks_def)

section \<open>Alternative frequencies: every table only grows\<close>

lemma find_af_freq_idx_from_wf:
  assumes "unat (count t) \<le> length (entry t)"
  shows "\<exists>r. find_af_freq_idx_from t fq i = Some r \<and>
           (r = - 1 \<longleftrightarrow> \<not> list_ex (\<lambda>e. freq_eq e fq) (drop i (take (unat (count t)) (entry t))))"
  using assms
proof (induction t fq i rule: find_af_freq_idx_from.induct)
  case (1 t fq i)
  show ?case
  proof (cases "i < unat (count t)")
    case False
    then show ?thesis by (subst find_af_freq_idx_from.simps) simp
  next
    case True
    then have il: "i < length (entry t)" using "1.prems" by simp
    have d: "drop i (take (unat (count t)) (entry t)) =
               entry t ! i # drop (Suc i) (take (unat (count t)) (entry t))"
      using True il by (simp add: Cons_nth_drop_Suc [symmetric])
    show ?thesis
    proof (cases "freq_eq (entry t ! i) fq")
      case True
      with \<open>i < unat (count t)\<close> il d show ?thesis
        by (subst find_af_freq_idx_from.simps) (simp add: load_in)
    next
      case False
      from "1.IH" [OF \<open>i < unat (count t)\<close> _ False "1.prems"] il
      obtain r where "find_af_freq_idx_from t fq (Suc i) = Some r"
        and "r = - 1 \<longleftrightarrow> \<not> list_ex (\<lambda>e. freq_eq e fq) (drop (Suc i) (take (unat (count t)) (entry t)))"
        by (auto simp add: load_in)
      with \<open>i < unat (count t)\<close> il d False show ?thesis
        by (subst find_af_freq_idx_from.simps) (simp add: load_in)
    qed
  qed
qed

lemma freq_in_af_table_wf:
  "wf_af_table t \<Longrightarrow> freq_in_af_table t fq = Some (af_present t fq)"
  using find_af_freq_idx_from_wf [of t fq 0]
  by (auto simp add: freq_in_af_table_def find_af_freq_idx_def af_present_def wf_af_table_def)

lemma insert_alt_freq_wf:
  "wf_af_table t \<Longrightarrow>
   insert_alt_freq t fq =
     Some (unat (count t) < 25 \<and> \<not> af_present t fq, append_freq t fq)"
  by (auto simp add: insert_alt_freq_def freq_in_af_table_wf append_freq_def store_in
      wf_af_table_def)

lemma wf_af_table_tuned [simp]: "wf_af_table (t\<lparr>tuned_freq := x\<rparr>) = wf_af_table t"
  by (simp add: wf_af_table_def)

lemma af_distinct_tuned [simp]: "af_distinct (t\<lparr>tuned_freq := x\<rparr>) = af_distinct t"
  by (simp add: af_distinct_def)

lemma af_table_step_refl: "wf_af_table t \<Longrightarrow> af_table_step t t"
  by (simp add: af_table_step_def)

lemma af_table_step_trans:
  assumes "af_table_step t1 t2" and "af_table_step t2 t3"
  shows "af_table_step t1 t3"
proof -
  have "take (unat (count t1)) (entry t3) =
        take (unat (count t1)) (take (unat (count t2)) (entry t3))"
    using assms(1) by (simp add: af_table_step_def min_def)
  also have "\<dots> = take (unat (count t1)) (take (unat (count t2)) (entry t2))"
    using assms(2) by (simp add: af_table_step_def)
  also have "\<dots> = take (unat (count t1)) (entry t1)"
    using assms(1) by (simp add: af_table_step_def min_def)
  finally show ?thesis
    using assms by (simp add: af_table_step_def)
qed

lemma af_table_step_tuned:
  "af_table_step t t' \<Longrightarrow> af_table_step t (t'\<lparr>tuned_freq := x\<rparr>)"
  by (simp add: af_table_step_def)

lemma append_freq_step:
  assumes "wf_af_table t"
  shows "af_table_step t (append_freq t fq)"
proof (cases "unat (count t) < 25 \<and> \<not> af_present t fq")
  case False
  then show ?thesis using assms by (auto simp add: append_freq_def af_table_step_refl)
next
  case True
  let ?n = "unat (count t)"
  have len: "length (entry t) = 25" using assms by (simp add: wf_af_table_def)
  have n1: "unat (count t + 1) = Suc ?n"
    using True by (simp add: unat_word_ariths)
  have tk: "take (Suc ?n) ((entry t)[?n := fq]) = take ?n (entry t) @ [fq]"
    using True len by (simp add: take_Suc_conv_app_nth)
  have notin: "(band fq, freq fq) \<notin> (\<lambda>e. (band e, freq e)) ` set (take ?n (entry t))"
    using True by (auto simp add: af_present_def list_ex_iff freq_eq_def)
  show ?thesis
    using True len n1 tk notin
    by (simp add: append_freq_def af_table_step_def wf_af_table_def af_distinct_def)
qed

lemma af_table_step_append:
  "af_table_step t t' \<Longrightarrow> af_table_step t (append_freq t' fq)"
  using af_table_step_trans [of t t' "append_freq t' fq"] append_freq_step [of t' fq]
  by (simp add: af_table_step_def)

lemma append_freq_tuned [simp]: "tuned_freq (append_freq t fq) = tuned_freq t"
  by (simp add: append_freq_def)

lemma dec_af_expected_count_fields [simp]:
  "table (dec_af_expected_count dt) = table dt"
  "enc_method (dec_af_expected_count dt) = enc_method dt"
  "pvt_band (dec_af_expected_count dt) = pvt_band dt"
  "pvt_prev_enc_method (dec_af_expected_count dt) = pvt_prev_enc_method dt"
  by (simp_all add: dec_af_expected_count_def)

lemma add_alt_freq_wf:
  "wf_af_decode_table dt \<Longrightarrow>
   add_alt_freq dt fq =
     Some (unat (count (table dt)) < 25 \<and> \<not> af_present (table dt) fq,
           (dec_af_expected_count dt)\<lparr>table := append_freq (table dt) fq\<rparr>)"
  by (simp add: add_alt_freq_def Let_def insert_alt_freq_wf wf_af_decode_table_def)

lemma handle_freq_code_eq:
  "handle_freq_code dt c =
     (\<not> freq_code_is_freq c,
      if freq_code_is_freq c then dt
      else dec_af_expected_count (if c = AF_LF_MF_FOLLOWS then dt\<lparr>pvt_band := AF_BAND_LF_MF\<rparr> else dt))"
  by (auto simp add: handle_freq_code_def Let_def freq_code_is_freq_def AF_FILLER_CODE_def
      AF_LF_MF_FOLLOWS_def AF_MIN_FREQ_CODE_def AF_MAX_FREQ_CODE_def)

lemma handle_freq_code_table [simp]:
  "table (snd (handle_freq_code dt c)) = table dt"
  "enc_method (snd (handle_freq_code dt c)) = enc_method dt"
  by (simp_all add: handle_freq_code_eq)

lemma lf_mf_not_freq [simp]: "\<not> freq_code_is_freq AF_LF_MF_FOLLOWS"
  by (simp add: freq_code_is_freq_def AF_LF_MF_FOLLOWS_def AF_MAX_FREQ_CODE_def)

lemma append_freq_wf [simp]: "wf_af_table t \<Longrightarrow> wf_af_table (append_freq t fq)"
  using append_freq_step [of t fq] by (simp add: af_table_step_def)

lemma start_block_wf:
  assumes "wf_af_decode_table dt"
  shows "\<exists>dt'. decode_freq_table_start_block dt n b = Some dt' \<and>
           af_table_step (table dt) (table dt')"
  using assms
  by (auto simp add: decode_freq_table_start_block_def Let_def handle_freq_code_eq add_alt_freq_wf
      wf_af_decode_table_def af_table_step_refl append_freq_step split: prod.splits)

lemma nth_block_wf:
  assumes "wf_af_decode_table dt"
  shows "\<exists>dt'. decode_freq_table_nth_block dt b1 b2 = Some dt' \<and>
           af_table_step (table dt) (table dt')"
  using assms
  apply (auto simp add: decode_freq_table_nth_block_def Let_def handle_freq_code_eq
      nth_block_choose_method_def nth_block_emit_def add_alt_freq_wf
      wf_af_decode_table_def af_table_step_refl append_freq_step af_table_step_append
      af_table_step_tuned split: prod.splits)
  done

lemma af_group_step_refl: "wf_af_group g \<Longrightarrow> af_group_step g g"
  by (simp add: af_group_step_def wf_af_group_def list_all2_same list_all_iff
      wf_af_decode_table_def af_table_step_refl)

lemma af_group_step_trans:
  assumes "af_group_step g1 g2" and "af_group_step g2 g3"
  shows "af_group_step g1 g3"
proof -
  let ?P = "\<lambda>dt dt'. af_table_step (table dt) (table dt')"
  have "list_all2 ?P (grp_table g1) (grp_table g3)"
  proof (rule list_all2_trans)
    show "\<And>a b c. ?P a b \<Longrightarrow> ?P b c \<Longrightarrow> ?P a c" by (rule af_table_step_trans)
    show "list_all2 ?P (grp_table g1) (grp_table g2)" using assms(1) by (simp add: af_group_step_def)
    show "list_all2 ?P (grp_table g2) (grp_table g3)" using assms(2) by (simp add: af_group_step_def)
  qed
  then show ?thesis using assms by (simp add: af_group_step_def)
qed

lemma find_af_table_idx_from_wf:
  assumes "unat (grp_count g) \<le> length (grp_table g)"
  shows "\<exists>r. find_af_table_idx_from g fq i = Some r \<and>
           (r = - 1 \<or> 0 \<le> r \<and> nat r < unat (grp_count g))"
  using assms
proof (induction g fq i rule: find_af_table_idx_from.induct)
  case (1 g fq i)
  show ?case
  proof (cases "i < unat (grp_count g)")
    case False
    then show ?thesis by (subst find_af_table_idx_from.simps) simp
  next
    case True
    then have il: "i < length (grp_table g)" using "1.prems" by simp
    show ?thesis
    proof (cases "freq_eq (tuned_freq (table (grp_table g ! i))) fq")
      case True
      with \<open>i < unat (grp_count g)\<close> il show ?thesis
        by (subst find_af_table_idx_from.simps) (simp add: load_in)
    next
      case False
      from "1.IH" [OF \<open>i < unat (grp_count g)\<close> _ False "1.prems"] il
      obtain r where "find_af_table_idx_from g fq (Suc i) = Some r"
        and "r = - 1 \<or> 0 \<le> r \<and> nat r < unat (grp_count g)"
        by (auto simp add: load_in)
      with \<open>i < unat (grp_count g)\<close> il False show ?thesis
        by (subst find_af_table_idx_from.simps) (simp add: load_in)
    qed
  qed
qed

lemma group_tables_update:
  assumes "wf_af_group g" and "k < 20"
      and "af_table_step (table (grp_table g ! k)) (table dt')"
      and "pvt_current_table_idx g' < 20" and "unat (grp_count g') \<le> 20"
      and "unat (grp_count g) \<le> unat (grp_count g')"
      and "grp_table g' = (grp_table g)[k := dt']"
  shows "af_group_step g g'"
proof -
  let ?P = "\<lambda>dt dt'. af_table_step (table dt) (table dt')"
  have len: "length (grp_table g) = 20" and all: "list_all wf_af_decode_table (grp_table g)"
    using assms(1) by (simp_all add: wf_af_group_def)
  have same: "list_all2 ?P (grp_table g) (grp_table g)"
    using all by (simp add: list_all2_same list_all_iff wf_af_decode_table_def af_table_step_refl)
  have "list_all2 ?P ((grp_table g)[k := grp_table g ! k]) ((grp_table g)[k := dt'])"
    using same assms(3) by (rule list_all2_update_cong)
  then have l2: "list_all2 ?P (grp_table g) (grp_table g')"
    using assms(7) by simp
  have "wf_af_decode_table dt'"
    using assms(3) by (simp add: af_table_step_def wf_af_decode_table_def)
  then have "list_all wf_af_decode_table (grp_table g')"
    using all assms(7) by (auto simp add: list_all_iff dest: subsetD [OF set_update_subset_insert])
  then show ?thesis
    using l2 len assms(4,5,6,7) by (simp add: af_group_step_def wf_af_group_def)
qed

lemma on_current_table_wf:
  assumes wf: "wf_af_group g" and idx: "0 \<le> pvt_current_table_idx g"
      and f: "\<And>dt. wf_af_decode_table dt \<Longrightarrow>
                \<exists>dt'. f dt = Some dt' \<and> af_table_step (table dt) (table dt')"
  shows "\<exists>g'. on_current_table g f = Some g' \<and> af_group_step g g'"
proof -
  let ?k = "nat (pvt_current_table_idx g)"
  have k: "?k < 20" and len: "length (grp_table g) = 20"
    using wf idx by (auto simp add: wf_af_group_def)
  have "wf_af_decode_table (grp_table g ! ?k)"
    using wf k by (simp add: wf_af_group_def list_all_length)
  from f [OF this] obtain dt' where
    fd: "f (grp_table g ! ?k) = Some dt'" and
    st: "af_table_step (table (grp_table g ! ?k)) (table dt')" by blast
  have res: "on_current_table g f = Some (g\<lparr>grp_table := (grp_table g)[?k := dt']\<rparr>)"
    using idx k len fd by (simp add: on_current_table_def load_in store_in)
  have "af_group_step g (g\<lparr>grp_table := (grp_table g)[?k := dt']\<rparr>)"
    using wf k st by (rule group_tables_update) (use wf in \<open>simp_all add: wf_af_group_def\<close>)
  with res show ?thesis by simp
qed

lemma decode_af_nth_block_wf:
  assumes "wf_af_group g"
  shows "\<exists>g'. decode_af_nth_block g b1 b2 = Some g' \<and> af_group_step g g'"
proof (cases "pvt_current_table_idx g < 0")
  case True
  then show ?thesis using assms by (simp add: decode_af_nth_block_def af_group_step_refl)
next
  case False
  then have "0 \<le> pvt_current_table_idx g" by simp
  from on_current_table_wf [OF assms this, of "\<lambda>dt. decode_freq_table_nth_block dt b1 b2"]
  show ?thesis using False by (simp add: decode_af_nth_block_def nth_block_wf)
qed

lemma uint_less_of_unat: "unat (x :: 'a::len word) < n \<Longrightarrow> uint x < int n"
  unfolding uint_nat by (rule of_nat_less_iff [THEN iffD2])

lemma af_group_step_idx [simp]:
  "af_group_step (g\<lparr>pvt_current_table_idx := i\<rparr>) g' = af_group_step g g'"
  by (simp add: af_group_step_def)

lemma wf_af_group_idx:
  "wf_af_group g \<Longrightarrow> i < 20 \<Longrightarrow> wf_af_group (g\<lparr>pvt_current_table_idx := i\<rparr>)"
  by (simp add: wf_af_group_def)

lemma decode_af_start_block_wf:
  assumes wf: "wf_af_group g"
  shows "\<exists>g'. decode_af_start_block g n b = Some g' \<and> af_group_step g g'"
proof -
  let ?start = "\<lambda>dt. decode_freq_table_start_block dt n b"
  let ?fq = "\<lparr>band = AF_BAND_UHF, attrib = AF_ATTRIB_SAME_PROG,
              freq = af_code_to_freq b AF_BAND_UHF\<rparr>"
  have start: "\<And>dt. wf_af_decode_table dt \<Longrightarrow>
      \<exists>dt'. ?start dt = Some dt' \<and> af_table_step (table dt) (table dt')"
    by (rule start_block_wf)
  have on0: "\<exists>g'. on_current_table (g\<lparr>pvt_current_table_idx := 0\<rparr>) ?start = Some g' \<and>
               af_group_step g g'"
    using on_current_table_wf [OF wf_af_group_idx [OF wf, of 0] _ start] by simp
  have len: "length (grp_table g) = 20" and cnt: "unat (grp_count g) \<le> 20"
    using wf by (simp_all add: wf_af_group_def)
  show ?thesis
  proof (cases "n = 1 \<or> (grp_count g = 1 \<and> enc_method (grp_table g ! 0) = AF_EM_A)")
    case True
    then show ?thesis
      using on0 by (auto simp add: decode_af_start_block_def Let_def)
  next
    case False
    let ?g2 = "g\<lparr>pvt_current_table_idx := - 1\<rparr>"
    from find_af_table_idx_from_wf [of ?g2 ?fq 0] len cnt
    obtain r where r: "find_af_table_idx ?g2 ?fq = Some r"
      and rr: "r = - 1 \<or> 0 \<le> r \<and> nat r < unat (grp_count g)"
      by (auto simp add: find_af_table_idx_def)
    show ?thesis
    proof (cases "r = - 1")
      case found: False
      then have "r < 20" "0 \<le> r" using rr cnt by auto
      from on_current_table_wf [OF wf_af_group_idx [OF wf \<open>r < 20\<close>] _ start] \<open>0 \<le> r\<close>
      have "\<exists>g'. on_current_table (g\<lparr>pvt_current_table_idx := r\<rparr>) ?start = Some g' \<and>
               af_group_step g g'" by simp
      then show ?thesis
        using False r found by (auto simp add: decode_af_start_block_def Let_def)
    next
      case True
      show ?thesis
      proof (cases "unat (grp_count g) = 20")
        case full: True
        have "af_group_step g (g\<lparr>pvt_current_table_idx := - 1\<rparr>)"
          using af_group_step_refl [OF wf_af_group_idx [OF wf, of "- 1"]] by simp
        then show ?thesis
          using False r True full by (auto simp add: decode_af_start_block_def Let_def)
      next
        case False
        note room = this
        let ?k = "unat (grp_count g)"
        let ?dt = "grp_table g ! ?k"
        let ?dt2 = "?dt\<lparr>enc_method := AF_EM_UNKNOWN, table := (table ?dt)\<lparr>tuned_freq := ?fq\<rparr>\<rparr>"
        let ?g4 = "g\<lparr>pvt_current_table_idx := int ?k, grp_count := grp_count g + 1,
                     grp_table := (grp_table g)[?k := ?dt2]\<rparr>"
        have k: "?k < 20" using cnt room by simp
        have k1: "unat (grp_count g + 1) = Suc ?k" using k by (simp add: unat_word_ariths)
        have wfk: "wf_af_decode_table ?dt"
          using wf k by (simp add: wf_af_group_def list_all_length)
        have st: "af_table_step (table ?dt) (table ?dt2)"
          using wfk by (simp add: af_table_step_tuned af_table_step_refl wf_af_decode_table_def)
        have s4: "af_group_step g ?g4"
          using wf k st by (rule group_tables_update) (use k k1 uint_less_of_unat [OF k] in simp_all)
        then have "wf_af_group ?g4" by (simp add: af_group_step_def)
        from on_current_table_wf [OF this _ start]
        obtain g' where g': "on_current_table ?g4 ?start = Some g'" and s5: "af_group_step ?g4 g'"
          by auto
        have "af_group_step g g'" using s4 s5 by (rule af_group_step_trans)
        moreover have "decode_af_start_block g n b = Some g'"
          using \<open>\<not> (n = 1 \<or> (grp_count g = 1 \<and> enc_method (grp_table g ! 0) = AF_EM_A))\<close>
            r True room k len g'
          by (auto simp add: decode_af_start_block_def Let_def load_in store_in)
        ultimately show ?thesis by blast
      qed
    qed
  qed
qed

lemma decode_freq_group_block_wf:
  assumes "wf_af_group g"
  shows "\<exists>g'. decode_freq_group_block g block = Some g' \<and> af_group_step g g'"
  using decode_af_start_block_wf [OF assms] decode_af_nth_block_wf [OF assms]
  by (simp add: decode_freq_group_block_def Let_def)

section \<open>Every call returns and keeps the record well formed\<close>

lemma rds_step_refl: "wf_rds r \<Longrightarrow> rds_step r r"
  by (simp add: rds_step_def wf_rds_def af_group_step_refl af_table_step_refl wf_af_decode_table_def)

lemma rds_step_trans: "rds_step r1 r2 \<Longrightarrow> rds_step r2 r3 \<Longrightarrow> rds_step r1 r3"
  by (auto simp add: rds_step_def intro: af_group_step_trans af_table_step_trans)

lemma rds_step_wf: "rds_step r r' \<Longrightarrow> wf_rds r'"
  by (simp add: rds_step_def)

lemma rds_step_same_af:
  "wf_rds r \<Longrightarrow> wf_rds r' \<Longrightarrow> af r' = af r \<Longrightarrow> eon r' = eon r \<Longrightarrow> rds_step r r'"
  by (simp add: rds_step_def wf_rds_def af_group_step_refl af_table_step_refl wf_af_decode_table_def)

lemma steps_to_Some [simp]: "steps_to r (Some r') = rds_step r r'"
  by (simp add: steps_to_def)

lemma steps_to_bind:
  assumes "steps_to r m" and "\<And>r1. rds_step r r1 \<Longrightarrow> steps_to r1 (k r1)"
  shows "steps_to r (m \<bind> k)"
proof -
  from assms(1) obtain r1 where m: "m = Some r1" and s: "rds_step r r1"
    by (auto simp add: steps_to_def split: option.splits)
  from assms(2) [OF s] obtain r2 where "k r1 = Some r2" and "rds_step r1 r2"
    by (auto simp add: steps_to_def split: option.splits)
  with m s show ?thesis by (auto simp add: steps_to_def intro: rds_step_trans)
qed

lemma wf_rds_SET_BITS [simp]: "wf_rds (SET_BITS r b) = wf_rds r"
  by (simp add: SET_BITS_def wf_rds_def)

lemma wf_rds_count_packet [simp]: "wf_rds (count_packet r k) = wf_rds r"
  by (simp add: count_packet_def wf_rds_def wf_stats_def)

lemma SET_BITS_af [simp]: "af (SET_BITS r b) = af r" "eon (SET_BITS r b) = eon r"
  by (simp_all add: SET_BITS_def)

lemma count_packet_af [simp]: "af (count_packet r k) = af r" "eon (count_packet r k) = eon r"
  by (simp_all add: count_packet_def)

lemma wf_rds_decode_ta [simp]: "wf_rds (decode_ta r b) = wf_rds r"
  by (simp add: decode_ta_def) (simp add: wf_rds_def)

lemma wf_rds_decode_ms [simp]: "wf_rds (decode_ms r b) = wf_rds r"
  by (simp add: decode_ms_def) (simp add: wf_rds_def)

lemma decode_ta_af [simp]: "af (decode_ta r b) = af r" "eon (decode_ta r b) = eon r"
  by (simp_all add: decode_ta_def)

lemma decode_ms_af [simp]: "af (decode_ms r b) = af r" "eon (decode_ms r b) = eon r"
  by (simp_all add: decode_ms_def)

lemma wf_rds_entry_state [simp]: "wf_rds (entry_state r g) = wf_rds r"
  by (simp add: wf_rds_def entry_state_fields wf_stats_def entry_state_stats)

lemma vote_byte_wf:
  assumes "idx < length hi" "length lo = length hi" "length cnt = length hi"
  shows "\<exists>hs ls cs t. vote_byte limit hi lo cnt idx byte = Some (hs, ls, cs, t) \<and>
           length hs = length hi \<and> length ls = length hi \<and> length cs = length hi"
  using assms by (auto simp add: vote_byte_def load_in store_in)

lemma knock_down_length [simp]: "length (knock_down cs) = length cs"
  by (simp add: knock_down_def)

lemma update_ps_simple_wf:
  "wf_rds r \<Longrightarrow> steps_to r (update_ps_simple r i b)"
  by (auto simp add: update_ps_simple_def store_in wf_rds_def wf_ps_def SET_BITS_def
      intro!: rds_step_same_af)

lemma update_ps_advanced_wf:
  assumes "wf_rds r"
  shows "steps_to r (update_ps_advanced r i b)"
proof (cases "8 \<le> unat i")
  case True
  then show ?thesis using assms by (simp add: update_ps_advanced_def rds_step_refl)
next
  case False
  then have i: "unat i < length (ps_hi_prob (ps r))" using assms by (simp add: wf_rds_def wf_ps_def)
  from vote_byte_wf [OF i, of "ps_lo_prob (ps r)" "ps_hi_prob_cnt (ps r)" PS_VALIDATE_LIMIT b] assms
  obtain hs ls cs t where
    v: "vote_byte PS_VALIDATE_LIMIT (ps_hi_prob (ps r)) (ps_lo_prob (ps r))
          (ps_hi_prob_cnt (ps r)) (unat i) b = Some (hs, ls, cs, t)"
    and l: "length hs = 8" "length ls = 8" "length cs = 8"
    by (auto simp add: wf_rds_def wf_ps_def)
  show ?thesis
    using False assms v l
    by (auto simp add: update_ps_advanced_def Let_def wf_rds_def wf_ps_def SET_BITS_def
        intro!: rds_step_same_af)
qed

lemma update_ptyn_wf:
  "wf_rds r \<Longrightarrow> steps_to r (update_ptyn r i b)"
  by (auto simp add: update_ptyn_def store_in wf_rds_def intro!: rds_step_same_af)

lemma reaches_Some [simp]: "reaches r (Some d') = rds_step r (rds d')"
  by (simp add: reaches_def)

lemma reaches_bind:
  assumes "rds_step r r0" and "steps_to r0 m" and "\<And>r1. rds_step r r1 \<Longrightarrow> reaches r (k r1)"
  shows "reaches r (m \<bind> k)"
proof -
  from assms(2) obtain r1 where m: "m = Some r1" and s: "rds_step r0 r1"
    by (auto simp add: steps_to_def split: option.splits)
  have "rds_step r r1" using assms(1) s by (rule rds_step_trans)
  from assms(3) [OF this] m show ?thesis by simp
qed

lemma steps_to_bind_from:
  assumes "rds_step r r0" and "steps_to r0 m" and "\<And>r1. rds_step r r1 \<Longrightarrow> steps_to r1 (k r1)"
  shows "steps_to r (m \<bind> k)"
proof -
  from assms(2) obtain r1 where m: "m = Some r1" and s: "rds_step r0 r1"
    by (auto simp add: steps_to_def split: option.splits)
  have s1: "rds_step r r1" using assms(1) s by (rule rds_step_trans)
  from assms(3) [OF s1] obtain r2 where "k r1 = Some r2" and "rds_step r1 r2"
    by (auto simp add: steps_to_def split: option.splits)
  with m s1 show ?thesis by (auto intro: rds_step_trans)
qed

lemma rds_step_SET_BITS [simp]: "rds_step r (SET_BITS r1 b) = rds_step r r1"
  by (simp add: rds_step_def)

lemma rds_step_count_packet [simp]: "rds_step r (count_packet r1 k) = rds_step r r1"
  by (simp add: rds_step_def)

lemma rds_step_decode_ta [simp]: "rds_step r (decode_ta r1 b) = rds_step r r1"
  by (simp add: rds_step_def)

lemma rds_step_decode_ms [simp]: "rds_step r (decode_ms r1 b) = rds_step r r1"
  by (simp add: rds_step_def)

lemma for_each_invariant:
  assumes "P s" and "\<And>s i. i \<in> set js \<Longrightarrow> P s \<Longrightarrow> \<exists>s'. f s i = Some s' \<and> P s'"
  shows "\<exists>s'. for_each js f s = Some s' \<and> P s'"
  using assms
proof (induction js arbitrary: s)
  case Nil
  then show ?case by simp
next
  case (Cons j js)
  from Cons.prems(2) [of j s] Cons.prems(1) obtain s1 where
    "f s j = Some s1" and "P s1" by auto
  moreover from Cons.IH [OF \<open>P s1\<close>] Cons.prems(2) obtain s2 where
    "for_each js f s1 = Some s2" and "P s2" by auto
  ultimately show ?case by simp
qed

lemma tdc_memmove_length [simp]: "length (tdc_memmove xs) = 32"
  by (simp add: tdc_memmove_def TDC_LEN_def)

lemma decode_tdc_block_wf:
  assumes "wf_rds r"
  shows "steps_to r (decode_tdc_block r blk)"
proof (cases "NUM_TDC \<le> unat (tdc_curr_channel (tdc r))")
  case True
  then show ?thesis using assms by (simp add: decode_tdc_block_def rds_step_refl)
next
  case False
  then have c: "unat (tdc_curr_channel (tdc r)) < length (tdc_data (tdc r))"
    using assms by (simp add: wf_rds_def wf_tdc_def NUM_TDC_def)
  have "list_all (\<lambda>row. length row = 32) (tdc_data (tdc r))"
    using assms by (simp add: wf_rds_def wf_tdc_def)
  then have "list_all (\<lambda>row. length row = 32)
               ((tdc_data (tdc r))[unat (tdc_curr_channel (tdc r)) :=
                  (tdc_memmove (tdc_data (tdc r) ! unat (tdc_curr_channel (tdc r))))
                    [TDC_LEN - 2 := hi_byte (val blk), TDC_LEN - 1 := lo_byte (val blk)]])"
    by (auto simp add: list_all_iff dest: subsetD [OF set_update_subset_insert])
  then show ?thesis
    using False c assms
    by (auto simp add: decode_tdc_block_def Let_def load_in store_in SET_BITS_def
        count_packet_def wf_rds_def wf_tdc_def wf_stats_def intro!: rds_step_same_af)
qed

lemma find_oda_gt_from_wf:
  assumes "unat (oda_cnt r) \<le> length (oda r)"
  shows "\<exists>idx. find_oda_gt_from r gt i = Some idx \<and> (i \<le> unat (oda_cnt r) \<longrightarrow> idx \<le> unat (oda_cnt r))"
  using assms
proof (induction r gt i rule: find_oda_gt_from.induct)
  case (1 r gt idx)
  show ?case
  proof (cases "idx < unat (oda_cnt r)")
    case False
    then show ?thesis by (subst find_oda_gt_from.simps) simp
  next
    case True
    then have il: "idx < length (oda r)" using "1.prems" by simp
    show ?thesis
    proof (cases "GroupTypesEqual (oda_gt (oda r ! idx)) gt")
      case True
      with \<open>idx < unat (oda_cnt r)\<close> il show ?thesis
        by (subst find_oda_gt_from.simps) (simp add: load_in)
    next
      case False
      from "1.IH" [OF \<open>idx < unat (oda_cnt r)\<close> _ False "1.prems"] il
      obtain k where "find_oda_gt_from r gt (Suc idx) = Some k"
        and "k \<le> unat (oda_cnt r)" using \<open>idx < unat (oda_cnt r)\<close>
        by (auto simp add: load_in)
      with \<open>idx < unat (oda_cnt r)\<close> il False show ?thesis
        by (subst find_oda_gt_from.simps) (simp add: load_in)
    qed
  qed
qed

lemma decode_oda_wf:
  assumes "wf_rds (rds d)"
  shows "reaches (rds d) (decode_oda d gt blks)"
proof -
  have len: "length (oda (rds d)) = 10" and cnt: "unat (oda_cnt (rds d)) \<le> 10"
    using assms by (simp_all add: wf_rds_def)
  from find_oda_gt_from_wf [of "rds d" gt 0] len cnt obtain idx where
    f: "find_oda_gt_from (rds d) gt 0 = Some idx" and i: "idx \<le> unat (oda_cnt (rds d))"
    by auto
  show ?thesis
  proof (cases "idx = unat (oda_cnt (rds d))")
    case True
    then show ?thesis using f assms by (simp add: decode_oda_def rds_step_refl)
  next
    case False
    then have "idx < length (oda (rds d))" using i len cnt by simp
    then show ?thesis
      using False f assms
      by (auto simp add: decode_oda_def Let_def load_in store_in wf_rds_def
          intro!: rds_step_same_af split: option.splits)
  qed
qed

lemma update_rt_simple_from_wf:
  assumes "length disp = 64" and "addr + cnt \<le> 64" and "cnt \<le> length chars"
  shows "\<exists>d'. update_rt_simple_from disp blks cnt addr chars i = Some d' \<and> length d' = 64"
  using assms
proof (induction disp blks cnt addr chars i rule: update_rt_simple_from.induct)
  case (1 disp blks cnt addr chars i)
  show ?case
  proof (cases "i < cnt")
    case False
    then show ?thesis using "1.prems" by (subst update_rt_simple_from.simps) simp
  next
    case True
    note i = this
    show ?thesis
    proof (cases "rt_block_ok blks cnt i")
      case False
      from "1.IH"(2) [OF i False "1.prems"] i False show ?thesis
        by (subst update_rt_simple_from.simps) simp
    next
      case True
      note ok = this
      have ic: "i < length chars" and ia: "addr + i < length disp"
        using i "1.prems" by simp_all
      let ?d1 = "disp[addr + i := chars ! i]"
      show ?thesis
      proof (cases "chars ! i = 0x0d")
        case True
        have "\<exists>s'. for_each [addr + i + 1 ..< 64] (\<lambda>xs j. store xs j 0) ?d1 = Some s' \<and>
                length s' = 64"
          by (rule for_each_invariant) (use "1.prems" in \<open>auto simp add: store_in\<close>)
        then show ?thesis
          using i ok ic ia True by (subst update_rt_simple_from.simps) (simp add: load_in store_in)
      next
        case False
        have "length ?d1 = 64" using "1.prems" by simp
        from "1.IH"(1) [OF i ok _ _ False this "1.prems"(2,3)] ic ia
        have "\<exists>d'. update_rt_simple_from ?d1 blks cnt addr chars (Suc i) = Some d' \<and>
                length d' = 64"
          by (simp add: load_in store_in)
        then show ?thesis
          using i ok ic ia False by (subst update_rt_simple_from.simps) (simp add: load_in store_in)
      qed
    qed
  qed
qed

lemma update_rt_simple_wf:
  assumes "wf_rt t" and "unat addr + unat cnt \<le> 64" and "unat cnt \<le> length chars"
  shows "\<exists>t'. update_rt_simple t blks cnt addr chars = Some t' \<and> wf_rt t'"
proof -
  from update_rt_simple_from_wf [of "rt_display t" "unat addr" "unat cnt" chars blks 0] assms
  obtain d1 where d1: "update_rt_simple_from (rt_display t) blks (unat cnt) (unat addr) chars 0 = Some d1"
    and l1: "length d1 = 64" by (auto simp add: wf_rt_def)
  have "\<exists>d2. for_each [0 ..< unat addr]
             (\<lambda>xs i. do { x \<leftarrow> load xs i; if x = 0 then store xs i 0x20 else Some xs }) d1 = Some d2 \<and>
          length d2 = 64"
    by (rule for_each_invariant) (use l1 assms(2) in \<open>auto simp add: load_in store_in\<close>)
  then show ?thesis
    using d1 assms(1) by (auto simp add: update_rt_simple_def wf_rt_def)
qed

lemma bump_rt_wf: "wf_rt t \<Longrightarrow> wf_rt (bump_rt_validation_count t)"
  by (simp add: bump_rt_validation_count_def Let_def wf_rt_def)

lemma update_rt_advance_wf:
  assumes "wf_rt t" and "unat addr + unat cnt \<le> 64" and "unat cnt \<le> length byte"
  shows "\<exists>t'. update_rt_advance t blks cnt addr byte = Some t' \<and> wf_rt t'"
proof -
  let ?P = "\<lambda>(t', byte', tc :: bool). wf_rt t' \<and> length byte' = length byte"
  have "\<exists>s'. for_each [0 ..< unat cnt] (update_rt_advance_step blks (unat cnt) (unat addr))
                (t, byte, False) = Some s' \<and> ?P s'"
  proof (rule for_each_invariant)
    show "?P (t, byte, False)" using assms(1) by simp
  next
    fix s :: "rds_rt \<times> u8 list \<times> bool" and i :: nat
    assume i: "i \<in> set [0 ..< unat cnt]" and P: "?P s"
    obtain t1 byte1 tc where s: "s = (t1, byte1, tc)" by (cases s)
    have w: "wf_rt t1" and lb: "length byte1 = length byte" using P s by simp_all
    have ib: "i < length byte1" using i lb assms(3) by simp
    let ?byte2 = "if byte1 ! i = 0 then byte1[i := 0x20] else byte1"
    have ai: "unat addr + i < length (rt_hi_prob t1)"
      using i assms(2) w by (simp add: wf_rt_def)
    from vote_byte_wf [OF ai, of "rt_lo_prob t1" "rt_hi_prob_cnt t1" RT_VALIDATE_LIMIT "?byte2 ! i"] w
    obtain hs ls cs ch where
      v: "vote_byte RT_VALIDATE_LIMIT (rt_hi_prob t1) (rt_lo_prob t1) (rt_hi_prob_cnt t1)
            (unat addr + i) (?byte2 ! i) = Some (hs, ls, cs, ch)"
      and l: "length hs = 64" "length ls = 64" "length cs = 64"
      by (auto simp add: wf_rt_def)
    show "\<exists>s'. update_rt_advance_step blks (unat cnt) (unat addr) s i = Some s' \<and> ?P s'"
      using s w lb ib v l
      by (cases "byte1 ! i = 0")
         (auto simp add: update_rt_advance_step_def load_in store_in wf_rt_def)
  qed
  then show ?thesis
    by (auto simp add: update_rt_advance_def wf_rt_def)
qed

lemma rds_step_af:
  assumes "rds_step r r1" and "af_group_step (af r1) g'"
  shows "rds_step r (r1\<lparr>af := g'\<rparr>)"
proof -
  have "af_group_step (af r) (af r1)" using assms(1) by (simp add: rds_step_def)
  then have "af_group_step (af r) g'" using assms(2) by (rule af_group_step_trans)
  moreover have "wf_af_group g'" using assms(2) by (simp add: af_group_step_def)
  ultimately show ?thesis using assms(1) by (simp add: rds_step_def wf_rds_def)
qed

lemma decode_alt_freq_wf:
  assumes "wf_rds r"
  shows "steps_to r (decode_alt_freq r blks)"
proof (cases "errors (blk_c blks) \<noteq> BLER_NONE")
  case True
  then show ?thesis using assms by (simp add: decode_alt_freq_def rds_step_refl)
next
  case False
  have "wf_af_group (af r)" using assms by (simp add: wf_rds_def)
  from decode_freq_group_block_wf [OF this, of "val (blk_c blks)"] obtain g' where
    "decode_freq_group_block (af r) (val (blk_c blks)) = Some g'" and "af_group_step (af r) g'"
    by auto
  then show ?thesis
    using False assms
    by (simp add: decode_alt_freq_def Let_def rds_step_af rds_step_refl)
qed

lemma rds_step_eon_af:
  assumes "rds_step r r1" and "af_table_step (table (on_af (eon_on (eon r1)))) (table dt')"
  shows "rds_step r (r1\<lparr>eon := (eon r1)\<lparr>eon_on := (eon_on (eon r1))\<lparr>on_af := dt'\<rparr>\<rparr>\<rparr>)"
proof -
  have "af_table_step (table (on_af (eon_on (eon r)))) (table (on_af (eon_on (eon r1))))"
    using assms(1) by (simp add: rds_step_def)
  then have "af_table_step (table (on_af (eon_on (eon r)))) (table dt')"
    using assms(2) by (rule af_table_step_trans)
  moreover have "wf_af_decode_table dt'"
    using assms(2) by (simp add: af_table_step_def wf_af_decode_table_def)
  ultimately show ?thesis using assms(1) by (simp add: rds_step_def wf_rds_def)
qed

lemma decode_eon_block_a_wf:
  assumes "wf_rds r"
  shows "steps_to r (decode_eon_block_a r blks)"
proof -
  have ps: "\<And>k k'. rds_step r (r\<lparr>eon := (eon r)\<lparr>eon_on := (eon_on (eon r))
              \<lparr>on_ps := (on_ps (eon_on (eon r)))
                 [k := hi_byte (val (blk_c blks)), k' := lo_byte (val (blk_c blks))]\<rparr>\<rparr>\<rparr>)"
    using assms by (simp add: rds_step_def wf_rds_def af_group_step_refl af_table_step_refl
        wf_af_decode_table_def)
  have pty: "\<And>x y. rds_step r (r\<lparr>eon := (eon r)\<lparr>eon_on := (eon_on (eon r))
              \<lparr>on_pty := x, on_ta_code := y\<rparr>\<rparr>\<rparr>)"
    using assms by (simp add: rds_step_def wf_rds_def af_group_step_refl af_table_step_refl
        wf_af_decode_table_def)
  have w: "wf_af_decode_table (on_af (eon_on (eon r)))" using assms by (simp add: wf_rds_def)
  then have w': "wf_af_decode_table ((on_af (eon_on (eon r)))\<lparr>pvt_band := AF_BAND_UHF\<rparr>)"
    by (simp add: wf_af_decode_table_def)
  from start_block_wf [OF w', of "freq_code_to_count (hi_byte (val (blk_c blks)))"
      "lo_byte (val (blk_c blks))"]
  obtain dt1 where s1: "decode_freq_table_start_block
        ((on_af (eon_on (eon r)))\<lparr>pvt_band := AF_BAND_UHF\<rparr>)
        (freq_code_to_count (hi_byte (val (blk_c blks)))) (lo_byte (val (blk_c blks))) = Some dt1"
    and t1: "af_table_step (table (on_af (eon_on (eon r)))) (table dt1)" by auto
  from nth_block_wf [OF w, of "hi_byte (val (blk_c blks))" "lo_byte (val (blk_c blks))"]
  obtain dt2 where s2: "decode_freq_table_nth_block (on_af (eon_on (eon r)))
        (hi_byte (val (blk_c blks))) (lo_byte (val (blk_c blks))) = Some dt2"
    and t2: "af_table_step (table (on_af (eon_on (eon r)))) (table dt2)" by auto
  show ?thesis
    using ps pty s1 s2 rds_step_eon_af [OF rds_step_refl [OF assms] t1]
      rds_step_eon_af [OF rds_step_refl [OF assms] t2] rds_step_refl [OF assms]
    by (simp add: decode_eon_block_a_def Let_def)
qed

lemma rds_step_frame:
  "rds_step r r1 \<Longrightarrow> wf_rds r2 \<Longrightarrow> af r2 = af r1 \<Longrightarrow> eon r2 = eon r1 \<Longrightarrow> rds_step r r2"
  by (simp add: rds_step_def)

lemma rt_addr_bounds:
  "unat (ucast (((b::u16) AND 0xf) * 4) :: u8) + 4 \<le> 64"
  "unat (ucast (((b::u16) AND 0xf) * 2) :: u8) + 2 \<le> 64"
proof -
  have "unat (b AND 0xf) \<le> unat (0xf :: u16)" by (rule unat_and_le)
  then have le: "unat (b AND 0xf) \<le> 15" by simp
  then have "unat ((b AND 0xf) * 4) = unat (b AND 0xf) * 4"
    and "unat ((b AND 0xf) * 2) = unat (b AND 0xf) * 2"
    by (simp_all add: unat_word_ariths)
  with le show "unat (ucast ((b AND 0xf) * 4) :: u8) + 4 \<le> 64"
    and "unat (ucast ((b AND 0xf) * 2) :: u8) + 2 \<le> 64"
    by (simp_all add: unsigned_ucast_eq take_bit_eq_mod)
qed

lemma decode_group_type_0_wf:
  assumes "wf_rds (rds d)"
  shows "reaches (rds d) (decode_group_type_0 d gt blks)"
proof -
  let ?r = "rds d"
  have 1: "steps_to ?r (if gt_version gt = CHR ''A'' then decode_alt_freq ?r blks else Some ?r)"
    using assms by (simp add: decode_alt_freq_wf rds_step_refl)
  show ?thesis
    unfolding decode_group_type_0_def
  proof (rule reaches_bind [OF rds_step_refl [OF assms] 1])
    fix r1 assume s1: "rds_step ?r r1"
    let ?r2 = "decode_ms (decode_ta r1 (blk_b blks)) (blk_b blks)"
    have s2: "rds_step ?r ?r2" using s1 by simp
    have ps: "\<And>r0 i b. rds_step ?r r0 \<Longrightarrow>
        steps_to r0 (if advanced_ps_decoding d then update_ps_advanced r0 i b
                     else update_ps_simple r0 i b)"
      by (simp add: update_ps_advanced_wf update_ps_simple_wf rds_step_wf)
    show "reaches ?r
        (if BLERD_MAX < errors (blk_d blks) then Some (d\<lparr>rds := r1\<rparr>)
         else do {
           let r2 = decode_ms (decode_ta r1 (blk_b blks)) (blk_b blks);
           let pair_idx = (val (blk_b blks) AND 0x03) * 2;
           r3 \<leftarrow> (if advanced_ps_decoding d
                  then update_ps_advanced r2 (ucast (pair_idx + 0)) (hi_byte (val (blk_d blks)))
                  else update_ps_simple r2 (ucast (pair_idx + 0)) (hi_byte (val (blk_d blks))));
           r4 \<leftarrow> (if advanced_ps_decoding d
                  then update_ps_advanced r3 (ucast (pair_idx + 1)) (lo_byte (val (blk_d blks)))
                  else update_ps_simple r3 (ucast (pair_idx + 1)) (lo_byte (val (blk_d blks))));
           Some (d\<lparr>rds := count_packet r4 PKTCNT_PS\<rparr>)
         })"
    proof (cases "BLERD_MAX < errors (blk_d blks)")
      case True
      then show ?thesis using s1 by simp
    next
      case False
      show ?thesis
      proof (cases "advanced_ps_decoding d")
        case True
        with False show ?thesis
          apply (simp add: Let_def)
          apply (rule reaches_bind [OF s2 update_ps_advanced_wf [OF rds_step_wf [OF s2]]])
          apply (rule reaches_bind [OF _ update_ps_advanced_wf], assumption)
           apply (erule rds_step_wf)
          apply simp
          done
      next
        case simple: False
        with False show ?thesis
          apply (simp add: Let_def)
          apply (rule reaches_bind [OF s2 update_ps_simple_wf [OF rds_step_wf [OF s2]]])
          apply (rule reaches_bind [OF _ update_ps_simple_wf], assumption)
           apply (erule rds_step_wf)
          apply simp
          done
      qed
    qed
  qed
qed

lemma wf_rds_slc [simp]: "wf_rds (decode_slow_labelling_codes r blks) = wf_rds r"
  by (simp add: decode_slow_labelling_codes_def Let_def wf_rds_def SET_BITS_def count_packet_def
      wf_stats_def)

lemma slc_af [simp]:
  "af (decode_slow_labelling_codes r blks) = af r"
  "eon (decode_slow_labelling_codes r blks) = eon r"
  by (simp_all add: decode_slow_labelling_codes_def Let_def SET_BITS_def count_packet_def)

lemma wf_rds_pure_updates [simp]:
  "wf_rds (r\<lparr>pic := x1\<rparr>) = wf_rds r"
  "wf_rds (r\<lparr>clock := x2\<rparr>) = wf_rds r"
  "wf_rds (r\<lparr>ews := x3\<rparr>) = wf_rds r"
  "wf_rds (r\<lparr>tdc := (tdc r)\<lparr>tdc_curr_channel := x4\<rparr>\<rparr>) = wf_rds r"
  "wf_rds (r\<lparr>stats := (stats r)\<lparr>data_cnt := x5\<rparr>\<rparr>) = wf_rds r"
  "wf_rds (r\<lparr>stats := (stats r)\<lparr>blckb_errors := x6\<rparr>\<rparr>) = wf_rds r"
  "wf_rds (latch_pi_code r x7) = wf_rds r"
  by (simp_all add: wf_rds_def wf_tdc_def wf_stats_def latch_pi_code_def SET_BITS_def
      count_packet_def)

lemma latch_pi_code_af [simp]:
  "af (latch_pi_code r v) = af r" "eon (latch_pi_code r v) = eon r"
  by (simp_all add: latch_pi_code_def SET_BITS_def count_packet_def)

lemma decode_group_type_1_wf:
  assumes "wf_rds (rds d)"
  shows "reaches (rds d) (decode_group_type_1 d gt blks)"
  using assms
  by (auto simp add: decode_group_type_1_def Let_def intro!: rds_step_same_af)

lemma wf_rt_buffer: "wf_rds r \<Longrightarrow> wf_rt (rt_buffer r which)"
  by (simp add: rt_buffer_def wf_rds_def)

lemma rds_step_rt_finish:
  assumes "wf_rds r" and "wf_rt t"
  shows "rds_step r
           (let r1 = set_rt_buffer r which t;
                r2 = r1\<lparr>rt := (rt r1)\<lparr>decode_rt := which\<rparr>\<rparr>
            in count_packet (SET_BITS r2 RDS_RT) PKTCNT_RT)"
  using assms
  by (auto simp add: Let_def set_rt_buffer_def intro!: rds_step_same_af)
     (simp_all add: wf_rds_def)

lemma decode_group_type_2_wf:
  assumes wf: "wf_rds (rds d)"
  shows "reaches (rds d) (decode_group_type_2 d gt blks)"
proof -
  let ?r = "rds d"
  let ?b = "val (blk_b blks)"
  let ?which = "if drop_bit 4 (?b AND 0x0010) \<noteq> 0 then RT_A else RT_B"
  let ?buf = "rt_buffer ?r ?which"
  have wt: "wf_rt ?buf" using wf by (rule wf_rt_buffer)
  have body: "\<exists>t3. wf_rt t3 \<and> (\<forall>k :: rds_rt \<Rightarrow> rds_decoder option. (do {
              t1 \<leftarrow> update_rt_simple t0 blks cnt addr chars;
              let t2 = (if decode_rt (rt ?r) \<noteq> ?which then bump_rt_validation_count t1 else t1);
              t3 \<leftarrow> update_rt_advance t2 blks cnt addr chars;
              k t3
            }) = k t3)"
    if a: "wf_rt t0" "unat addr + unat cnt \<le> 64" "unat cnt \<le> length chars"
    for t0 :: rds_rt and cnt addr :: u8 and chars :: "u8 list"
  proof -
    from update_rt_simple_wf [OF a, of blks] obtain t1 where
      t1: "update_rt_simple t0 blks cnt addr chars = Some t1" and w1: "wf_rt t1" by auto
    let ?t2 = "if decode_rt (rt ?r) \<noteq> ?which then bump_rt_validation_count t1 else t1"
    have "wf_rt ?t2" using w1 by (simp add: bump_rt_wf)
    from update_rt_advance_wf [OF this a(2,3), of blks] obtain t3 where
      "update_rt_advance ?t2 blks cnt addr chars = Some t3" and "wf_rt t3" by auto
    with t1 show ?thesis by (auto simp add: Let_def)
  qed
  let ?bufz = "?buf\<lparr>rt_display := (rt_display ?buf)[32 := 0x0d],
                 rt_hi_prob := (rt_hi_prob ?buf)[32 := 0x0d],
                 rt_lo_prob := (rt_lo_prob ?buf)[32 := 0x0d],
                 rt_hi_prob_cnt := (rt_hi_prob_cnt ?buf)[32 := RT_VALIDATE_LIMIT]\<rparr>"
  have w0: "wf_rt ?bufz" using wt by (simp add: wf_rt_def)
  show ?thesis
  proof (cases "gt_version gt = CHR ''A''")
    case True
    note A = this
    show ?thesis
    proof (cases "errors (blk_c blks) > BLERC_MAX \<or> errors (blk_d blks) > BLERD_MAX")
      case True
      then show ?thesis using A wf by (auto simp add: decode_group_type_2_def Let_def rds_step_refl)
    next
      case False
      have "unat (ucast ((?b AND 0xf) * 4) :: u8) + unat (4 :: u8) \<le> 64"
        using rt_addr_bounds(1) [of ?b] by simp
      from body [OF wt this, of "[hi_byte (val (blk_c blks)), lo_byte (val (blk_c blks)),
        hi_byte (val (blk_d blks)), lo_byte (val (blk_d blks))]"]
      obtain t3 where w3: "wf_rt t3" and eq: "\<And>k :: rds_rt \<Rightarrow> rds_decoder option. (do {
              t1 \<leftarrow> update_rt_simple ?buf blks 4 (ucast ((?b AND 0xf) * 4))
                     [hi_byte (val (blk_c blks)), lo_byte (val (blk_c blks)),
                      hi_byte (val (blk_d blks)), lo_byte (val (blk_d blks))];
              let t2 = (if decode_rt (rt ?r) \<noteq> ?which then bump_rt_validation_count t1 else t1);
              t3 \<leftarrow> update_rt_advance t2 blks 4 (ucast ((?b AND 0xf) * 4))
                     [hi_byte (val (blk_c blks)), lo_byte (val (blk_c blks)),
                      hi_byte (val (blk_d blks)), lo_byte (val (blk_d blks))];
              k t3
            }) = k t3" by auto
      have "decode_group_type_2 d gt blks = Some (d\<lparr>rds :=
              (let r1 = set_rt_buffer ?r ?which t3;
                   r2 = r1\<lparr>rt := (rt r1)\<lparr>decode_rt := ?which\<rparr>\<rparr>
               in count_packet (SET_BITS r2 RDS_RT) PKTCNT_RT)\<rparr>)"
        using A False eq by (simp add: decode_group_type_2_def Let_def)
      then show ?thesis using rds_step_rt_finish [OF wf w3, of ?which] by simp
    qed
  next
    case False
    note B = this
    show ?thesis
    proof (cases "errors (blk_d blks) > BLERD_MAX")
      case True
      then show ?thesis using B wf by (auto simp add: decode_group_type_2_def Let_def rds_step_refl)
    next
      case False
      have "unat (ucast ((?b AND 0xf) * 2) :: u8) + unat (2 :: u8) \<le> 64"
        using rt_addr_bounds(2) [of ?b] by simp
      from body [OF w0 this, of "[hi_byte (val (blk_d blks)), lo_byte (val (blk_d blks)), 0, 0]"]
      obtain t3 where w3: "wf_rt t3" and eq: "\<And>k :: rds_rt \<Rightarrow> rds_decoder option. (do {
              t1 \<leftarrow> update_rt_simple ?bufz blks 2 (ucast ((?b AND 0xf) * 2))
                     [hi_byte (val (blk_d blks)), lo_byte (val (blk_d blks)), 0, 0];
              let t2 = (if decode_rt (rt ?r) \<noteq> ?which then bump_rt_validation_count t1 else t1);
              t3 \<leftarrow> update_rt_advance t2 blks 2 (ucast ((?b AND 0xf) * 2))
                     [hi_byte (val (blk_d blks)), lo_byte (val (blk_d blks)), 0, 0];
              k t3
            }) = k t3" by auto
      have "decode_group_type_2 d gt blks = Some (d\<lparr>rds :=
              (let r1 = set_rt_buffer ?r ?which t3;
                   r2 = r1\<lparr>rt := (rt r1)\<lparr>decode_rt := ?which\<rparr>\<rparr>
               in count_packet (SET_BITS r2 RDS_RT) PKTCNT_RT)\<rparr>)"
        using B False eq by (simp add: decode_group_type_2_def Let_def)
      then show ?thesis using rds_step_rt_finish [OF wf w3, of ?which] by simp
    qed
  qed
qed

lemma find_oda_id_from_spec:
  assumes "unat (oda_cnt r) \<le> length (oda r)" and "i \<le> unat (oda_cnt r)"
  shows "\<exists>idx. find_oda_id_from r app_id i = Some idx \<and> i \<le> idx \<and> idx \<le> unat (oda_cnt r) \<and>
           (\<forall>j. i \<le> j \<and> j < idx \<longrightarrow> oda_id (oda r ! j) \<noteq> app_id) \<and>
           (idx < unat (oda_cnt r) \<longrightarrow> oda_id (oda r ! idx) = app_id)"
  using assms
proof (induction r app_id i rule: find_oda_id_from.induct)
  case (1 r app_id idx)
  show ?case
  proof (cases "idx < unat (oda_cnt r)")
    case False
    then show ?thesis using "1.prems" by (subst find_oda_id_from.simps) auto
  next
    case True
    then have il: "idx < length (oda r)" using "1.prems" by simp
    show ?thesis
    proof (cases "oda_id (oda r ! idx) = app_id")
      case True
      with \<open>idx < unat (oda_cnt r)\<close> il show ?thesis
        by (subst find_oda_id_from.simps) (auto simp add: load_in)
    next
      case False
      from "1.IH" [OF \<open>idx < unat (oda_cnt r)\<close> _ False "1.prems"(1)] il \<open>idx < unat (oda_cnt r)\<close>
      obtain k where k: "find_oda_id_from r app_id (Suc idx) = Some k"
        "Suc idx \<le> k" "k \<le> unat (oda_cnt r)"
        "\<forall>j. Suc idx \<le> j \<and> j < k \<longrightarrow> oda_id (oda r ! j) \<noteq> app_id"
        "k < unat (oda_cnt r) \<longrightarrow> oda_id (oda r ! k) = app_id"
        by (auto simp add: load_in)
      have "\<forall>j. idx \<le> j \<and> j < k \<longrightarrow> oda_id (oda r ! j) \<noteq> app_id"
      proof (intro allI impI)
        fix j assume "idx \<le> j \<and> j < k"
        then show "oda_id (oda r ! j) \<noteq> app_id"
          using k(4) False by (cases "j = idx") auto
      qed
      with k \<open>idx < unat (oda_cnt r)\<close> il False show ?thesis
        by (subst find_oda_id_from.simps) (simp add: load_in)
    qed
  qed
qed

lemma group_3A_result:
  assumes len: "length (oda (rds d)) = 10" and cnt: "unat (oda_cnt (rds d)) \<le> 10"
      and A: "gt_version gt = CHR ''A''"
      and ok: "errors (blk_d blks) = BLER_NONE" and aid: "val (blk_d blks) \<noteq> 0"
  shows "\<exists>idx. idx \<le> unat (oda_cnt (rds d)) \<and>
           (\<forall>j<idx. oda_id (oda (rds d) ! j) \<noteq> val (blk_d blks)) \<and>
           (idx < unat (oda_cnt (rds d)) \<longrightarrow> oda_id (oda (rds d) ! idx) = val (blk_d blks)) \<and>
           decode_group_type_3 d gt blks = Some (d\<lparr>rds :=
             (if idx < unat (oda_cnt (rds d))
              then (rds d)\<lparr>oda := (oda (rds d))
                     [idx := (oda (rds d) ! idx)\<lparr>oda_gt := announced_gt (val (blk_b blks))\<rparr>]\<rparr>
              else if unat (oda_cnt (rds d)) < 10
              then (rds d)\<lparr>oda := (oda (rds d))
                     [idx := (oda (rds d) ! idx)
                        \<lparr>oda_id := val (blk_d blks), oda_gt := announced_gt (val (blk_b blks))\<rparr>],
                     oda_cnt := oda_cnt (rds d) + 1\<rparr>
              else rds d)\<rparr>)"
proof -
  from find_oda_id_from_spec [of "rds d" 0 "val (blk_d blks)"] len cnt
  obtain idx where f: "find_oda_id_from (rds d) (val (blk_d blks)) 0 = Some idx"
    and i: "idx \<le> unat (oda_cnt (rds d))"
    and n: "\<forall>j<idx. oda_id (oda (rds d) ! j) \<noteq> val (blk_d blks)"
    and e: "idx < unat (oda_cnt (rds d)) \<longrightarrow> oda_id (oda (rds d) ! idx) = val (blk_d blks)"
    by auto
  have "decode_group_type_3 d gt blks = Some (d\<lparr>rds :=
             (if idx < unat (oda_cnt (rds d))
              then (rds d)\<lparr>oda := (oda (rds d))
                     [idx := (oda (rds d) ! idx)\<lparr>oda_gt := announced_gt (val (blk_b blks))\<rparr>]\<rparr>
              else if unat (oda_cnt (rds d)) < 10
              then (rds d)\<lparr>oda := (oda (rds d))
                     [idx := (oda (rds d) ! idx)
                        \<lparr>oda_id := val (blk_d blks), oda_gt := announced_gt (val (blk_b blks))\<rparr>],
                     oda_cnt := oda_cnt (rds d) + 1\<rparr>
              else rds d)\<rparr>)"
    using A ok aid f i len cnt
    by (auto simp add: decode_group_type_3_def Let_def IsValidODAAppId_def load_in store_in)
  with i n e show ?thesis by blast
qed

lemma decode_group_type_3_wf:
  assumes wf: "wf_rds (rds d)"
  shows "reaches (rds d) (decode_group_type_3 d gt blks)"
proof (cases "gt_version gt = CHR ''A''")
  case False
  then show ?thesis using decode_oda_wf [OF wf] by (simp add: decode_group_type_3_def)
next
  case True
  note A = this
  show ?thesis
  proof (cases "errors (blk_d blks) = BLER_NONE \<and> val (blk_d blks) \<noteq> 0")
    case False
    then show ?thesis
      using A wf by (auto simp add: decode_group_type_3_def Let_def IsValidODAAppId_def rds_step_refl)
  next
    case True
    have len: "length (oda (rds d)) = 10" and cnt: "unat (oda_cnt (rds d)) \<le> 10"
      using wf by (simp_all add: wf_rds_def)
    from group_3A_result [OF len cnt A, of blks] True obtain idx r' where
      "decode_group_type_3 d gt blks = Some (d\<lparr>rds := r'\<rparr>)"
      and r': "r' = (if idx < unat (oda_cnt (rds d))
              then (rds d)\<lparr>oda := (oda (rds d))
                     [idx := (oda (rds d) ! idx)\<lparr>oda_gt := announced_gt (val (blk_b blks))\<rparr>]\<rparr>
              else if unat (oda_cnt (rds d)) < 10
              then (rds d)\<lparr>oda := (oda (rds d))
                     [idx := (oda (rds d) ! idx)
                        \<lparr>oda_id := val (blk_d blks), oda_gt := announced_gt (val (blk_b blks))\<rparr>],
                     oda_cnt := oda_cnt (rds d) + 1\<rparr>
              else rds d)"
      by auto
    moreover have "rds_step (rds d) r'"
      using wf r' by (auto simp add: wf_rds_def unat_word_ariths intro!: rds_step_same_af)
    ultimately show ?thesis by simp
  qed
qed

lemma update_clock_step:
  "wf_rds (rds d) \<Longrightarrow> rds_step (rds d) (rds (update_clock d blks))"
  by (auto simp add: update_clock_def Let_def rds_step_refl intro!: rds_step_same_af)

lemma decode_group_type_4_wf:
  "wf_rds (rds d) \<Longrightarrow> reaches (rds d) (decode_group_type_4 d gt blks)"
  by (simp add: decode_group_type_4_def decode_oda_wf update_clock_step)

lemma decode_group_type_5_wf:
  assumes wf: "wf_rds (rds d)"
  shows "reaches (rds d) (decode_group_type_5 d gt blks)"
proof (cases "IsGroupTypeUsedByODA (rds d) gt")
  case True
  then show ?thesis using decode_oda_wf [OF wf] by (simp add: decode_group_type_5_def)
next
  case False
  let ?r1 = "(rds d)\<lparr>tdc := (tdc (rds d))\<lparr>tdc_curr_channel :=
                   ucast ((ucast (val (blk_b blks)) :: u32) AND 0x11111)\<rparr>\<rparr>"
  have s1: "rds_step (rds d) ?r1"
    using wf by (auto intro!: rds_step_same_af)
  show ?thesis
  proof (cases "gt_version gt = CHR ''A''")
    case True
    with False show ?thesis
      apply (simp add: decode_group_type_5_def Let_def)
      apply (rule reaches_bind [OF s1 decode_tdc_block_wf [OF rds_step_wf [OF s1]]])
      apply (rule reaches_bind [OF _ decode_tdc_block_wf], assumption)
       apply (erule rds_step_wf)
      apply simp
      done
  next
    case B: False
    with False show ?thesis
      apply (simp add: decode_group_type_5_def Let_def)
      apply (rule reaches_bind [OF rds_step_refl [OF wf] decode_tdc_block_wf [OF wf]])
      apply simp
      done
  qed
qed

lemma decode_group_type_6_wf:
  "wf_rds (rds d) \<Longrightarrow> reaches (rds d) (decode_group_type_6 d gt blks)"
  by (simp add: decode_group_type_6_def decode_oda_wf decode_in_house_data_def rds_step_refl)

lemma decode_group_type_7_wf:
  "wf_rds (rds d) \<Longrightarrow> reaches (rds d) (decode_group_type_7 d gt blks)"
  by (simp add: decode_group_type_7_def decode_oda_wf decode_radio_paging_def rds_step_refl)

lemma decode_group_type_8_wf:
  "wf_rds (rds d) \<Longrightarrow> reaches (rds d) (decode_group_type_8 d gt blks)"
  by (simp add: decode_group_type_8_def decode_oda_wf decode_tmc_def rds_step_refl)

lemma decode_ews_step:
  "wf_rds (rds d) \<Longrightarrow> rds_step (rds d) (rds (decode_ews d blks))"
  by (auto simp add: decode_ews_def Let_def intro!: rds_step_same_af)

lemma decode_group_type_9_wf:
  "wf_rds (rds d) \<Longrightarrow> reaches (rds d) (decode_group_type_9 d gt blks)"
  by (simp add: decode_group_type_9_def decode_oda_wf decode_ews_step rds_step_refl)

lemma wf_rds_ptyn:
  "wf_rds r \<Longrightarrow> length (ptyn_display p) = 8 \<Longrightarrow> wf_rds (r\<lparr>ptyn := p\<rparr>)"
  by (simp add: wf_rds_def)

lemma wf_rds_eon_on:
  "wf_rds r \<Longrightarrow> length (on_ps n) = 8 \<Longrightarrow> wf_af_decode_table (on_af n) \<Longrightarrow>
   wf_rds (r\<lparr>eon := (eon r)\<lparr>eon_on := n\<rparr>\<rparr>)"
  by (simp add: wf_rds_def)

lemma decode_ptyn_wf:
  assumes wf: "wf_rds (rds d)"
  shows "reaches (rds d) (decode_ptyn d blks)"
proof -
  let ?r1 = "count_packet (SET_BITS (rds d) RDS_PTYN) PKTCNT_PTYN"
  let ?ab = "val (blk_b blks) AND B_PTYN_AB_FLAG \<noteq> 0"
  let ?r2 = "if ptyn_last_ab (ptyn ?r1) \<noteq> ?ab
             then ?r1\<lparr>ptyn := \<lparr>ptyn_display = replicate 8 0, ptyn_last_ab = ?ab\<rparr>\<rparr> else ?r1"
  have s2: "rds_step (rds d) ?r2"
    using wf by (auto intro!: rds_step_same_af wf_rds_ptyn)
  have two: "\<And>r0 i b j c. rds_step (rds d) r0 \<Longrightarrow>
      steps_to r0 (do { r \<leftarrow> update_ptyn r0 i b; update_ptyn r j c })"
    by (rule steps_to_bind_from [OF _ update_ptyn_wf])
       (auto intro: rds_step_refl rds_step_wf update_ptyn_wf)
  have opt: "\<And>r0 P i b j c. rds_step (rds d) r0 \<Longrightarrow>
      steps_to r0 (if P then do { r \<leftarrow> update_ptyn r0 i b; update_ptyn r j c } else Some r0)"
    using two by (simp add: rds_step_refl rds_step_wf)
  show ?thesis
    unfolding decode_ptyn_def Let_def
    apply (rule reaches_bind [OF s2 opt [OF s2]])
    apply (rule reaches_bind [OF _ opt], assumption, assumption)
    apply simp
    done
qed

lemma decode_group_type_10_wf:
  "wf_rds (rds d) \<Longrightarrow> reaches (rds d) (decode_group_type_10 d gt blks)"
  by (simp add: decode_group_type_10_def decode_oda_wf decode_ptyn_wf)

lemma decode_group_type_14_wf:
  assumes wf: "wf_rds (rds d)"
  shows "reaches (rds d) (decode_group_type_14 d gt blks)"
proof -
  let ?r1 = "SET_BITS (count_packet (rds d) PKTCNT_EON) RDS_EON"
  have s1: "rds_step (rds d) ?r1" using wf by (simp add: rds_step_refl)
  have w1: "wf_rds ?r1" using wf by simp
  show ?thesis
  proof (cases "gt_version gt = CHR ''A''")
    case True
    then show ?thesis
      apply (simp add: decode_group_type_14_def Let_def)
      apply (rule reaches_bind [OF s1 decode_eon_block_a_wf [OF w1]])
      apply simp
      done
  next
    case False
    have n: "rds_step (rds d) (?r1\<lparr>eon := (eon (rds d))\<lparr>eon_on := n\<rparr>\<rparr>)"
      if "on_ps n = on_ps (eon_on (eon (rds d)))" and "on_af n = on_af (eon_on (eon (rds d)))"
      for n
    proof -
      have "wf_rds (?r1\<lparr>eon := (eon ?r1)\<lparr>eon_on := n\<rparr>\<rparr>)"
        using w1 that wf by (intro wf_rds_eon_on) (simp_all add: wf_rds_def)
      moreover have "af_group_step (af (rds d)) (af (rds d))"
        and "af_table_step (table (on_af (eon_on (eon (rds d))))) (table (on_af n))"
        using wf that
        by (simp_all add: wf_rds_def af_group_step_refl af_table_step_refl wf_af_decode_table_def)
      ultimately show ?thesis by (simp add: rds_step_def)
    qed
    show ?thesis
      using False by (simp add: decode_group_type_14_def Let_def n)
  qed
qed

lemma decode_group_type_15_wf:
  "wf_rds (rds d) \<Longrightarrow> reaches (rds d) (decode_group_type_15 d gt blks)"
  by (simp add: decode_group_type_15_def Let_def decode_fast_basic_tuning_def rds_step_refl)

lemma dispatch_wf:
  assumes "wf_rds (rds d)"
  shows "reaches (rds d) (dispatch d gt blks)"
  using assms
  by (simp add: dispatch_def Let_def decode_group_type_0_wf decode_group_type_1_wf
      decode_group_type_2_wf decode_group_type_3_wf decode_group_type_4_wf
      decode_group_type_5_wf decode_group_type_6_wf decode_group_type_7_wf
      decode_group_type_8_wf decode_group_type_9_wf decode_group_type_10_wf
      decode_group_type_11_def decode_group_type_12_def decode_group_type_13_def decode_oda_wf
      decode_group_type_14_wf decode_group_type_15_wf rds_step_refl)

lemma rds_decoder_decode_wf:
  assumes wf: "wf_rds (rds d)"
  shows "reaches (rds d) (rds_decoder_decode d blks)"
proof (cases "errors (blk_b blks) > BLERB_MAX")
  case True
  then show ?thesis
    using wf
    by (auto simp add: rds_decoder_decode_def Let_def latch_pi_code_def SET_BITS_def
        count_packet_def wf_rds_def wf_stats_def intro!: rds_step_same_af)
next
  case False
  then have ok: "errors (blk_b blks) \<le> BLERB_MAX" by (simp add: not_less)
  have len: "length (stats_groups (stats (rds d))) = 16"
    using wf by (simp add: wf_rds_def wf_stats_def)
  let ?d1 = "d\<lparr>rds := entry_state (rds d) blks\<rparr>"
  have w1: "wf_rds (rds ?d1)" using wf by simp
  have s1: "rds_step (rds d) (rds ?d1)"
    using wf by (auto intro!: rds_step_same_af simp add: entry_state_fields)
  from dispatch_wf [OF w1, of "group_type_of (val (blk_b blks))" blks]
  obtain d2 where "dispatch ?d1 (group_type_of (val (blk_b blks))) blks = Some d2"
    and "rds_step (rds ?d1) (rds d2)"
    by (auto simp add: reaches_def split: option.splits)
  then show ?thesis
    using s1 by (auto simp add: decode_accepted [OF ok len] intro: rds_step_trans)
qed

lemma decode_all_wf:
  "wf_rds (rds d) \<Longrightarrow> reaches (rds d) (decode_all d gs)"
proof (induction gs arbitrary: d)
  case Nil
  then show ?case by (simp add: rds_step_refl)
next
  case (Cons g gs)
  from rds_decoder_decode_wf [OF Cons.prems, of g] obtain d1 where
    d1: "rds_decoder_decode d g = Some d1" and s1: "rds_step (rds d) (rds d1)"
    by (auto simp add: reaches_def split: option.splits)
  from Cons.IH [OF rds_step_wf [OF s1]] obtain d2 where
    "decode_all d1 gs = Some d2" and "rds_step (rds d1) (rds d2)"
    by (auto simp add: reaches_def split: option.splits)
  with d1 s1 show ?case by (auto intro: rds_step_trans)
qed

section \<open>Facts about single handlers\<close>

lemma IsGroupTypeUsedByODA_entry_state:
  "IsGroupTypeUsedByODA (entry_state r blks) gt = IsGroupTypeUsedByODA r gt"
  by (simp add: IsGroupTypeUsedByODA_def entry_state_fields)

lemma decode_alt_freq_frame:
  assumes "decode_alt_freq r blks = Some r'"
  shows "ta_code r' = ta_code r" and "music r' = music r" and "ps r' = ps r"
  using assms
  by (auto simp add: decode_alt_freq_def Let_def SET_BITS_def count_packet_def
      split: if_splits bind_splits)

lemma decode_tdc_block_channel:
  assumes "decode_tdc_block r blk = Some r'"
  shows "tdc_curr_channel (tdc r') = tdc_curr_channel (tdc r)"
  using assms
  by (auto simp add: decode_tdc_block_def Let_def SET_BITS_def count_packet_def
      split: if_splits bind_splits)

lemma ucast_literal_11111: "(ucast (0x11111 :: u32) :: u8) = 0x11"
  by simp

lemma ucast_u16_u32_u8: "(ucast (ucast (b :: u16) :: u32) :: u8) = ucast b"
  by (rule bit_word_eqI) (auto simp add: bit_simps)

lemma tdc_channel_mask:
  "(ucast ((ucast (b :: u16) :: u32) AND 0x11111) :: u8) = ucast (b AND 0x11)"
  unfolding unsigned_and_eq ucast_literal_11111 ucast_u16_u32_u8 by simp

section \<open>The claims\<close>

subsection \<open>Reset\<close>

text \<open>
  Claim C9. For every decoder, \<^verbatim>\<open>rds_decoder_reset\<close> leaves the RDS state record with every
  field zero (every number 0, every flag false, every array filled with zeros, every
  enumeration at its enumerator 0), except for the current table index of the AF group, which
  is \<open>-1\<close>. When a clear callback is bound, it is called exactly once, with the user data, and
  the record it finds is the one the reset leaves, zeroed already; when none is bound, no call
  is made. The callbacks and the configuration of the decoder are as they were.
\<close>

theorem reset_zeroes_then_clears:
  "rds (rds_decoder_reset d) =
     \<lparr>pi_code = 0,
      pic = \<lparr>pic_day = 0, pic_hour = 0, pic_minute = 0\<rparr>,
      pty = 0, tp_code = False, ta_code = False, music = False,
      ps = \<lparr>ps_display = replicate 8 0, ps_hi_prob = replicate 8 0,
             ps_lo_prob = replicate 8 0, ps_hi_prob_cnt = replicate 8 0\<rparr>,
      rt = \<lparr>rt_a = \<lparr>rt_display = replicate 64 0, rt_hi_prob = replicate 64 0,
                      rt_lo_prob = replicate 64 0, rt_hi_prob_cnt = replicate 64 0\<rparr>,
             rt_b = \<lparr>rt_display = replicate 64 0, rt_hi_prob = replicate 64 0,
                      rt_lo_prob = replicate 64 0, rt_hi_prob_cnt = replicate 64 0\<rparr>,
             decode_rt = RT_A\<rparr>,
      clock = \<lparr>clock_day_high = False, clock_day_low = 0, clock_hour = 0, clock_minute = 0,
                clock_utc_offset = 0\<rparr>,
      slc = \<lparr>slc_la = False, slc_variant_code = SLC_VARIANT_PAGING, slc_data = SLC_tmc_id 0\<rparr>,
      ptyn = \<lparr>ptyn_display = replicate 8 0, ptyn_last_ab = False\<rparr>,
      af = \<lparr>pvt_current_table_idx = - 1, grp_count = 0,
             grp_table = replicate 20
               \<lparr>table = \<lparr>tuned_freq = \<lparr>band = AF_BAND_UHF, attrib = AF_ATTRIB_SAME_PROG,
                                        freq = 0\<rparr>,
                          count = 0,
                          entry = replicate 25
                            \<lparr>band = AF_BAND_UHF, attrib = AF_ATTRIB_SAME_PROG, freq = 0\<rparr>\<rparr>,
                enc_method = AF_EM_UNKNOWN, pvt_band = AF_BAND_UHF,
                pvt_prev_enc_method = AF_EM_UNKNOWN, pvt_expected_cnt = 0\<rparr>\<rparr>,
      eon = \<lparr>eon_on =
               \<lparr>on_ps = replicate 8 0, on_pty = 0, on_tp_code = False, on_ta_code = False,
                on_af =
                  \<lparr>table = \<lparr>tuned_freq = \<lparr>band = AF_BAND_UHF, attrib = AF_ATTRIB_SAME_PROG,
                                           freq = 0\<rparr>,
                             count = 0,
                             entry = replicate 25
                               \<lparr>band = AF_BAND_UHF, attrib = AF_ATTRIB_SAME_PROG, freq = 0\<rparr>\<rparr>,
                   enc_method = AF_EM_UNKNOWN, pvt_band = AF_BAND_UHF,
                   pvt_prev_enc_method = AF_EM_UNKNOWN, pvt_expected_cnt = 0\<rparr>,
                on_pi_code = 0,
                on_pic = \<lparr>pic_day = 0, pic_hour = 0, pic_minute = 0\<rparr>\<rparr>,
              eon_maps = replicate 5
                \<lparr>tn_tuned_freq = \<lparr>band = AF_BAND_UHF, attrib = AF_ATTRIB_SAME_PROG, freq = 0\<rparr>,
                 on_freq = \<lparr>band = AF_BAND_UHF, attrib = AF_ATTRIB_SAME_PROG, freq = 0\<rparr>\<rparr>\<rparr>,
      oda_cnt = 0,
      oda = replicate 10
        \<lparr>oda_id = 0, oda_gt = \<lparr>gt_code = 0, gt_version = CHR 0x00\<rparr>, oda_pkt_count = 0\<rparr>,
      tdc = \<lparr>tdc_data = replicate 32 (replicate 32 0), tdc_curr_channel = 0\<rparr>,
      ews = \<lparr>ews_b = \<lparr>val = 0, errors = 0\<rparr>, ews_c = \<lparr>val = 0, errors = 0\<rparr>,
              ews_d = \<lparr>val = 0, errors = 0\<rparr>\<rparr>,
      stats = \<lparr>stats_counts = replicate 20 0,
                stats_groups = replicate 16 \<lparr>cnt_a = 0, cnt_b = 0\<rparr>,
                data_cnt = 0, blckb_errors = 0\<rparr>,
      valid_values = 0\<rparr> \<and>
   calls (rds_decoder_reset d) = calls d @
     (case oda_clear_cb d of
        None \<Rightarrow> []
      | Some f \<Rightarrow> [Clear_call f (oda_cb_data d) (rds (rds_decoder_reset d))]) \<and>
   oda_decode_cb (rds_decoder_reset d) = oda_decode_cb d \<and>
   oda_clear_cb (rds_decoder_reset d) = oda_clear_cb d \<and>
   oda_cb_data (rds_decoder_reset d) = oda_cb_data d \<and>
   advanced_ps_decoding (rds_decoder_reset d) = advanced_ps_decoding d"
  by (simp add: rds_decoder_reset_def zero_rds_data_def zero_pic_def zero_block_def zero_rt_def
      zero_oda_def zero_freq_def zero_af_table_def zero_af_decode_table_def
      zero_af_table_group_def Let_def split: option.split)

text \<open>
  A host record that holds a PI code, a programme type, the TP flag and valid bits, in a
  decoder with a clear callback (number 7, user data 42): after the reset these fields are
  zero, the table index is \<open>-1\<close>, and the one call made is that of the callback, on the record
  that the reset leaves.
\<close>

theorem reset_zeroes_then_clears_witness:
  "pi_code (rds (rds_decoder_set_oda_callbacks
      (rds_decoder_create False
         (zero_rds_data\<lparr>pi_code := 0x1234, pty := 31, tp_code := True, valid_values := 0x1FFFF\<rparr>))
      None (Some 7) 42)) = 0x1234 \<and>
   pty (rds (rds_decoder_set_oda_callbacks
      (rds_decoder_create False
         (zero_rds_data\<lparr>pi_code := 0x1234, pty := 31, tp_code := True, valid_values := 0x1FFFF\<rparr>))
      None (Some 7) 42)) = 31 \<and>
   pi_code (rds (rds_decoder_reset (rds_decoder_set_oda_callbacks
      (rds_decoder_create False
         (zero_rds_data\<lparr>pi_code := 0x1234, pty := 31, tp_code := True, valid_values := 0x1FFFF\<rparr>))
      None (Some 7) 42))) = 0 \<and>
   pty (rds (rds_decoder_reset (rds_decoder_set_oda_callbacks
      (rds_decoder_create False
         (zero_rds_data\<lparr>pi_code := 0x1234, pty := 31, tp_code := True, valid_values := 0x1FFFF\<rparr>))
      None (Some 7) 42))) = 0 \<and>
   tp_code (rds (rds_decoder_reset (rds_decoder_set_oda_callbacks
      (rds_decoder_create False
         (zero_rds_data\<lparr>pi_code := 0x1234, pty := 31, tp_code := True, valid_values := 0x1FFFF\<rparr>))
      None (Some 7) 42))) = False \<and>
   valid_values (rds (rds_decoder_reset (rds_decoder_set_oda_callbacks
      (rds_decoder_create False
         (zero_rds_data\<lparr>pi_code := 0x1234, pty := 31, tp_code := True, valid_values := 0x1FFFF\<rparr>))
      None (Some 7) 42))) = 0 \<and>
   pvt_current_table_idx (af (rds (rds_decoder_reset (rds_decoder_set_oda_callbacks
      (rds_decoder_create False
         (zero_rds_data\<lparr>pi_code := 0x1234, pty := 31, tp_code := True, valid_values := 0x1FFFF\<rparr>))
      None (Some 7) 42)))) = - 1 \<and>
   calls (rds_decoder_reset (rds_decoder_set_oda_callbacks
      (rds_decoder_create False
         (zero_rds_data\<lparr>pi_code := 0x1234, pty := 31, tp_code := True, valid_values := 0x1FFFF\<rparr>))
      None (Some 7) 42)) =
     [Clear_call 7 42 (rds (rds_decoder_reset (rds_decoder_set_oda_callbacks
        (rds_decoder_create False
           (zero_rds_data\<lparr>pi_code := 0x1234, pty := 31, tp_code := True,
              valid_values := 0x1FFFF\<rparr>))
        None (Some 7) 42)))]"
proof -
  let ?d = "rds_decoder_set_oda_callbacks
      (rds_decoder_create False
         (zero_rds_data\<lparr>pi_code := 0x1234, pty := 31, tp_code := True, valid_values := 0x1FFFF\<rparr>))
      None (Some 7) 42"
  have before: "pi_code (rds ?d) = 0x1234" "pty (rds ?d) = 31"
    by (simp_all add: rds_decoder_set_oda_callbacks_def rds_decoder_create_def)
  have cb: "oda_clear_cb ?d = Some 7" "oda_cb_data ?d = 42" "calls ?d = []"
    by (simp_all add: rds_decoder_set_oda_callbacks_def rds_decoder_create_def)
  note r = reset_zeroes_then_clears [of ?d]
  from r have rec: "pi_code (rds (rds_decoder_reset ?d)) = 0" "pty (rds (rds_decoder_reset ?d)) = 0"
    "tp_code (rds (rds_decoder_reset ?d)) = False"
    "valid_values (rds (rds_decoder_reset ?d)) = 0"
    "pvt_current_table_idx (af (rds (rds_decoder_reset ?d))) = - 1"
    by simp_all
  from r cb have "calls (rds_decoder_reset ?d) = [Clear_call 7 42 (rds (rds_decoder_reset ?d))]"
    by simp
  with before rec show ?thesis by simp
qed

subsection \<open>A group whose block B is over its threshold\<close>

text \<open>
  Claim C1, amended. For every group whose block B is over its threshold, and every decoder,
  \<^verbatim>\<open>rds_decoder_decode\<close> returns and changes at most this: \<open>stats.data_cnt\<close> and
  \<open>stats.blckb_errors\<close> are incremented, and, when block A is within its threshold, the PI
  code is latched from block A, the bit \<open>RDS_PI_CODE\<close> is set in \<open>valid_values\<close> and
  \<open>stats.counts[PKTCNT_PI_CODE]\<close> is incremented. The PI latch comes before the test of
  block B in the code.
\<close>

theorem decode_block_b_rejected:
  assumes "errors (blk_b g) > BLERB_MAX"
  shows "rds_decoder_decode d g = Some (d\<lparr>rds :=
           (if errors (blk_a g) \<le> BLERA_MAX
            then (rds d)\<lparr>pi_code := val (blk_a g),
                   valid_values := valid_values (rds d) OR RDS_PI_CODE,
                   stats := (stats (rds d))\<lparr>
                     stats_counts := (stats_counts (stats (rds d)))
                       [PKTCNT_PI_CODE := stats_counts (stats (rds d)) ! PKTCNT_PI_CODE + 1],
                     data_cnt := data_cnt (stats (rds d)) + 1,
                     blckb_errors := blckb_errors (stats (rds d)) + 1\<rparr>\<rparr>
            else (rds d)\<lparr>stats := (stats (rds d))\<lparr>
                     data_cnt := data_cnt (stats (rds d)) + 1,
                     blckb_errors := blckb_errors (stats (rds d)) + 1\<rparr>\<rparr>)\<rparr>)"
  using assms
  by (simp add: rds_decoder_decode_def latch_pi_code_def SET_BITS_def count_packet_def Let_def)

text \<open>The theorem at a group whose blocks A and B are both over their thresholds.\<close>

theorem decode_block_b_rejected_witness:
  "errors (blk_b (group_of 0xD943 3 0 2 0 0 0 0)) > BLERB_MAX \<and>
   rds_decoder_decode fresh_decoder (group_of 0xD943 3 0 2 0 0 0 0) =
     Some (fresh_decoder\<lparr>rds := (rds fresh_decoder)\<lparr>stats := (stats (rds fresh_decoder))\<lparr>
             data_cnt := 1, blckb_errors := 1\<rparr>\<rparr>\<rparr>)"
proof -
  have h: "errors (blk_b (group_of 0xD943 3 0 2 0 0 0 0)) > BLERB_MAX"
    by (simp add: group_of_def BLERB_MAX_def BLER_1_2_def)
  have a: "\<not> errors (blk_a (group_of 0xD943 3 0 2 0 0 0 0)) \<le> BLERA_MAX"
    by (simp add: group_of_def BLERA_MAX_def BLER_3_5_def)
  have z: "data_cnt (stats (rds fresh_decoder)) = 0" "blckb_errors (stats (rds fresh_decoder)) = 0"
    by (simp_all add: fresh_decoder_def rds_decoder_reset_def rds_decoder_create_def
        zero_rds_data_def)
  show ?thesis
    using h a z decode_block_b_rejected [OF h, of fresh_decoder] by simp
qed

text \<open>
  The claim as the specification states it fails: on a fresh decoder, a group with an
  error-free block A of value \<open>0xD943\<close> and a block B of error class 2 changes the PI code
  from 0 to \<open>0xD943\<close>.
\<close>

theorem block_b_rejected_latches_pi:
  "BLERB_MAX < errors (blk_b (group_of 0xD943 0 0 2 0 0 0 0)) \<and>
   pi_code (rds fresh_decoder) = 0 \<and>
   map_option (pi_code \<circ> rds)
     (rds_decoder_decode fresh_decoder (group_of 0xD943 0 0 2 0 0 0 0)) = Some 0xD943"
  by code_simp

subsection \<open>The clock of group 4A\<close>

text \<open>
  Claim C3. For every group 4A and every decoder whose record has the sixteen group
  counters, \<^verbatim>\<open>rds_decoder_decode\<close> returns. When blocks B, C and D are each within their
  thresholds and their error classes sum to at most the threshold of block B, the clock
  fields are the ones the specification gives (\<open>clock_of_blocks\<close>), and the offset, read as
  a signed byte, is \<open>D & 0x1F\<close>, negated when bit 5 of D is set. When a condition fails,
  the clock fields are unchanged.
\<close>

theorem decode_4A_clock:
  assumes "gt_code (group_type_of (val (blk_b g))) = 4"
      and "gt_version (group_type_of (val (blk_b g))) = CHR ''A''"
      and "length (stats_groups (stats (rds d))) = 16"
  shows "\<exists>d'. rds_decoder_decode d g = Some d' \<and>
           clock (rds d') =
             (if errors (blk_b g) \<le> BLERB_MAX \<and> errors (blk_c g) \<le> BLERC_MAX \<and>
                 errors (blk_d g) \<le> BLERD_MAX \<and>
                 unat (errors (blk_b g)) + unat (errors (blk_c g)) + unat (errors (blk_d g))
                   \<le> unat BLERB_MAX
              then clock_of_blocks (val (blk_b g)) (val (blk_c g)) (val (blk_d g))
              else clock (rds d)) \<and>
           sint (clock_utc_offset
                   (clock_of_blocks (val (blk_b g)) (val (blk_c g)) (val (blk_d g)))) =
             (if bit (val (blk_d g)) 5 then - uint (val (blk_d g) AND 0x1F)
              else uint (val (blk_d g) AND 0x1F))"
proof (cases "errors (blk_b g) > BLERB_MAX")
  case True
  then have "\<not> errors (blk_b g) \<le> BLERB_MAX" by (simp add: not_le)
  with True show ?thesis
    by (simp add: rds_decoder_decode_def Let_def latch_pi_code_def SET_BITS_def count_packet_def
        clock_of_blocks_offset)
next
  case False
  then have ok: "errors (blk_b g) \<le> BLERB_MAX" by (simp add: not_less)
  show ?thesis
    using assms(1,2)
    by (simp add: decode_accepted [OF ok assms(3)] dispatch_def decode_group_type_4_def
        update_clock_eq entry_state_fields clock_of_blocks_offset)
qed

text \<open>
  The theorem at the group \<open>B = 0x4001\<close>, \<open>C = 0xB32D\<close>, \<open>D = 0xE6E3\<close> without errors, on
  a fresh decoder: hour 30, minute 27 and the offset \<open>-3\<close>.
\<close>

theorem decode_4A_clock_witness:
  "gt_code (group_type_of (val (blk_b (group_of 0xD943 0 0x4001 0 0xB32D 0 0xE6E3 0)))) = 4 \<and>
   gt_version (group_type_of (val (blk_b (group_of 0xD943 0 0x4001 0 0xB32D 0 0xE6E3 0)))) =
     CHR ''A'' \<and>
   length (stats_groups (stats (rds fresh_decoder))) = 16 \<and>
   map_option (clock \<circ> rds)
     (rds_decoder_decode fresh_decoder (group_of 0xD943 0 0x4001 0 0xB32D 0 0xE6E3 0)) =
     Some \<lparr>clock_day_high = False, clock_day_low = 0xD996, clock_hour = 30,
           clock_minute = 27, clock_utc_offset = - 3\<rparr>"
proof -
  let ?g = "group_of 0xD943 0 0x4001 0 0xB32D 0 0xE6E3 0"
  have h1: "gt_code (group_type_of (val (blk_b ?g))) = 4" by code_simp
  have h2: "gt_version (group_type_of (val (blk_b ?g))) = CHR ''A''" by code_simp
  have h3: "length (stats_groups (stats (rds fresh_decoder))) = 16" by code_simp
  have c: "clock_of_blocks (val (blk_b ?g)) (val (blk_c ?g)) (val (blk_d ?g)) =
      \<lparr>clock_day_high = False, clock_day_low = 0xD996, clock_hour = 30,
        clock_minute = 27, clock_utc_offset = - 3\<rparr>" by code_simp
  have e: "errors (blk_b ?g) \<le> BLERB_MAX \<and> errors (blk_c ?g) \<le> BLERC_MAX \<and>
           errors (blk_d ?g) \<le> BLERD_MAX \<and>
           unat (errors (blk_b ?g)) + unat (errors (blk_c ?g)) + unat (errors (blk_d ?g))
             \<le> unat BLERB_MAX" by code_simp
  from decode_4A_clock [OF h1 h2 h3] obtain d' where
    "rds_decoder_decode fresh_decoder ?g = Some d'" and
    "clock (rds d') = clock_of_blocks (val (blk_b ?g)) (val (blk_c ?g)) (val (blk_d ?g))"
    using e by auto
  then show ?thesis using h1 h2 h3 c by simp
qed

subsection \<open>A pair of frequencies under method B\<close>

text \<open>
  Claim C4, amended. For every well-formed table with committed method B that still expects
  frequencies, and every pair of frequency codes of which exactly one gives the tuned
  frequency, \<^verbatim>\<open>decode_freq_table_nth_block\<close> hands the other frequency to the append, and
  its attribute is \<open>REGIONAL_VARIANT\<close> exactly when the first frequency of the pair is
  lower than the second, \<open>SAME_PROGRAM\<close> otherwise. With the anchor first, that is when the
  anchor is the lower member of the pair; with the anchor second, when it is the higher
  member. The append stores the frequency at index \<open>count\<close> unless the table is full or
  holds it already (\<open>append_freq\<close>); one expected frequency is consumed.
\<close>

theorem nth_block_method_b_pair:
  assumes "wf_af_decode_table dt"
      and "enc_method dt = AF_EM_B"
      and "pvt_expected_cnt dt \<noteq> 0"
      and "freq_code_is_freq first_byte"
      and "freq_code_is_freq second_byte"
      and "freq_eq (tuned_freq (table dt)) (nth_pair_freq dt first_byte) \<noteq>
           freq_eq (tuned_freq (table dt)) (nth_pair_freq dt second_byte)"
  shows "decode_freq_table_nth_block dt first_byte second_byte =
     Some (dt\<lparr>table := append_freq (table dt)
                 (if freq_eq (tuned_freq (table dt)) (nth_pair_freq dt first_byte)
                  then (nth_pair_freq dt second_byte)
                    \<lparr>attrib := (if freq (nth_pair_freq dt first_byte) <
                                   freq (nth_pair_freq dt second_byte)
                                then AF_ATTRIB_REG_VARIANT else AF_ATTRIB_SAME_PROG)\<rparr>
                  else (nth_pair_freq dt first_byte)
                    \<lparr>attrib := (if freq (nth_pair_freq dt first_byte) <
                                   freq (nth_pair_freq dt second_byte)
                                then AF_ATTRIB_REG_VARIANT else AF_ATTRIB_SAME_PROG)\<rparr>),
              pvt_prev_enc_method := AF_EM_B,
              pvt_expected_cnt := pvt_expected_cnt dt - 1\<rparr>)"
  using assms
  by (auto simp add: decode_freq_table_nth_block_def Let_def handle_freq_code_eq
      nth_block_emit_def add_alt_freq_wf nth_pair_freq_def freq_lt_def
      dec_af_expected_count_def wf_af_decode_table_def)

text \<open>The theorem at the pair (87.8 MHz, 87.6 MHz) on the table above.\<close>

theorem nth_block_method_b_pair_witness:
  "wf_af_decode_table method_b_table \<and> enc_method method_b_table = AF_EM_B \<and>
   pvt_expected_cnt method_b_table \<noteq> 0 \<and> freq_code_is_freq 3 \<and> freq_code_is_freq 1 \<and>
   freq_eq (tuned_freq (table method_b_table)) (nth_pair_freq method_b_table 3) \<noteq>
   freq_eq (tuned_freq (table method_b_table)) (nth_pair_freq method_b_table 1) \<and>
   decode_freq_table_nth_block method_b_table 3 1 =
     Some (method_b_table
       \<lparr>table := (table method_b_table)
          \<lparr>entry := (entry (table method_b_table))
             [2 := \<lparr>band = AF_BAND_UHF, attrib = AF_ATTRIB_SAME_PROG, freq = 878\<rparr>],
           count := 3\<rparr>,
        pvt_expected_cnt := 0\<rparr>)"
proof -
  have h1: "wf_af_decode_table method_b_table" by code_simp
  have h2: "enc_method method_b_table = AF_EM_B" by code_simp
  have h3: "pvt_expected_cnt method_b_table \<noteq> 0" by code_simp
  have h4: "freq_code_is_freq 3" by code_simp
  have h5: "freq_code_is_freq 1" by code_simp
  have h6: "freq_eq (tuned_freq (table method_b_table)) (nth_pair_freq method_b_table 3) \<noteq>
            freq_eq (tuned_freq (table method_b_table)) (nth_pair_freq method_b_table 1)"
    by code_simp
  have r: "decode_freq_table_nth_block method_b_table 3 1 =
     Some (method_b_table
       \<lparr>table := (table method_b_table)
          \<lparr>entry := (entry (table method_b_table))
             [2 := \<lparr>band = AF_BAND_UHF, attrib = AF_ATTRIB_SAME_PROG, freq = 878\<rparr>],
           count := 3\<rparr>,
        pvt_expected_cnt := 0\<rparr>)"
    unfolding nth_block_method_b_pair [OF h1 h2 h3 h4 h5 h6] by code_simp
  from h1 h2 h3 h4 h5 h6 r show ?thesis by blast
qed

text \<open>
  The claim as the specification states it fails when the anchor is the second byte. The
  table above is the one a fresh decoder holds after the two 0A groups. In the pair
  (87.8 MHz, 87.6 MHz) the anchor 87.6 MHz is the second byte and the lower member, and
  87.8 MHz is stored as \<open>SAME_PROGRAM\<close>, not as \<open>REGIONAL_VARIANT\<close>.
\<close>

theorem method_b_anchor_second_lower:
  "map_option (\<lambda>d. grp_table (af (rds d)) ! 0)
     (decode_all fresh_decoder
        [group_of 0 0 0 0 0xE301 0 0 0, group_of 0 0 0 0 0x0105 0 0 0]) =
     Some method_b_table \<and>
   freq_eq (tuned_freq (table method_b_table)) (nth_pair_freq method_b_table 1) \<and>
   \<not> freq_eq (tuned_freq (table method_b_table)) (nth_pair_freq method_b_table 3) \<and>
   freq (nth_pair_freq method_b_table 1) < freq (nth_pair_freq method_b_table 3) \<and>
   map_option (\<lambda>dt. (count (table dt), entry (table dt) ! 2))
     (decode_freq_table_nth_block method_b_table 3 1) =
     Some (3, \<lparr>band = AF_BAND_UHF, attrib = AF_ATTRIB_SAME_PROG, freq = 878\<rparr>)"
  by code_simp

subsection \<open>The alternative-frequency tables only grow, within their bounds\<close>

text \<open>
  Claim C8. From a well-formed record, every sequence of calls of \<^verbatim>\<open>rds_decoder_decode\<close>
  returns, and in the record it leaves the count of the table group is not smaller than before
  and at most 20; the count of each of its 20 tables, and of the table of the other network,
  is not smaller than before and at most 25; the entries that were in use are unchanged; and
  a table whose entries in use were pairwise different (band and value) still has pairwise
  different entries, so no frequency already present has been inserted again.
\<close>

theorem af_counts_grow_within_bounds:
  assumes "wf_rds (rds d)"
  shows "\<exists>d'. decode_all d gs = Some d' \<and> wf_rds (rds d') \<and>
           unat (grp_count (af (rds d))) \<le> unat (grp_count (af (rds d'))) \<and>
           unat (grp_count (af (rds d'))) \<le> 20 \<and>
           (\<forall>i<20. af_table_step (table (grp_table (af (rds d)) ! i))
                                  (table (grp_table (af (rds d')) ! i)) \<and>
                    unat (count (table (grp_table (af (rds d)) ! i)))
                      \<le> unat (count (table (grp_table (af (rds d')) ! i))) \<and>
                    unat (count (table (grp_table (af (rds d')) ! i))) \<le> 25) \<and>
           af_table_step (table (on_af (eon_on (eon (rds d)))))
                         (table (on_af (eon_on (eon (rds d'))))) \<and>
           unat (count (table (on_af (eon_on (eon (rds d))))))
             \<le> unat (count (table (on_af (eon_on (eon (rds d')))))) \<and>
           unat (count (table (on_af (eon_on (eon (rds d')))))) \<le> 25"
proof -
  from decode_all_wf [OF assms, of gs] obtain d' where
    d': "decode_all d gs = Some d'" and s: "rds_step (rds d) (rds d')"
    by (auto simp add: reaches_def split: option.splits)
  have len: "length (grp_table (af (rds d))) = 20"
    using assms by (simp add: wf_rds_def wf_af_group_def)
  have g: "af_group_step (af (rds d)) (af (rds d'))"
    and e: "af_table_step (table (on_af (eon_on (eon (rds d)))))
              (table (on_af (eon_on (eon (rds d')))))"
    and w: "wf_rds (rds d')"
    using s by (simp_all add: rds_step_def)
  have tabs: "\<forall>i<20. af_table_step (table (grp_table (af (rds d)) ! i))
                                  (table (grp_table (af (rds d')) ! i))"
    using g len by (simp add: af_group_step_def list_all2_conv_all_nth)
  show ?thesis
    using d' w g e tabs
    by (auto simp add: af_group_step_def wf_af_group_def af_table_step_def wf_af_table_def)
qed

text \<open>
  On a fresh decoder: a start block announcing three frequencies on the tuned frequency
  87.6 MHz, a pair holding the tuned frequency, and twice the same second pair. The group
  holds one table of three entries, pairwise different.
\<close>

theorem af_counts_grow_within_bounds_witness:
  "wf_rds (rds fresh_decoder) \<and>
   (\<exists>d'. decode_all fresh_decoder
            [group_of 0 0 0 0 0xE301 0 0 0, group_of 0 0 0 0 0x0105 0 0 0,
             group_of 0 0 0 0 0x0301 0 0 0, group_of 0 0 0 0 0x0301 0 0 0] = Some d' \<and>
          grp_count (af (rds d')) = 1 \<and> count (table (grp_table (af (rds d')) ! 0)) = 3 \<and>
          unat (grp_count (af (rds fresh_decoder))) \<le> unat (grp_count (af (rds d'))) \<and>
          unat (grp_count (af (rds d'))) \<le> 20 \<and>
          unat (count (table (grp_table (af (rds fresh_decoder)) ! 0)))
            \<le> unat (count (table (grp_table (af (rds d')) ! 0))) \<and>
          unat (count (table (grp_table (af (rds d')) ! 0))) \<le> 25 \<and>
          af_distinct (table (grp_table (af (rds d')) ! 0)))"
proof -
  let ?gs = "[group_of 0 0 0 0 0xE301 0 0 0, group_of 0 0 0 0 0x0105 0 0 0,
             group_of 0 0 0 0 0x0301 0 0 0, group_of 0 0 0 0 0x0301 0 0 0]"
  have h: "wf_rds (rds fresh_decoder)" by code_simp
  have dis: "af_distinct (table (grp_table (af (rds fresh_decoder)) ! 0))" by code_simp
  have ev: "map_option (\<lambda>d. (grp_count (af (rds d)), count (table (grp_table (af (rds d)) ! 0))))
              (decode_all fresh_decoder ?gs) = Some (1, 3)" by code_simp
  from af_counts_grow_within_bounds [OF h, of ?gs] obtain d' where
    d': "decode_all fresh_decoder ?gs = Some d'"
    and c: "unat (grp_count (af (rds fresh_decoder))) \<le> unat (grp_count (af (rds d')))"
      "unat (grp_count (af (rds d'))) \<le> 20"
    and t: "\<forall>i<20. af_table_step (table (grp_table (af (rds fresh_decoder)) ! i))
                                  (table (grp_table (af (rds d')) ! i)) \<and>
                    unat (count (table (grp_table (af (rds fresh_decoder)) ! i)))
                      \<le> unat (count (table (grp_table (af (rds d')) ! i))) \<and>
                    unat (count (table (grp_table (af (rds d')) ! i))) \<le> 25"
    by blast
  from t have t0: "af_table_step (table (grp_table (af (rds fresh_decoder)) ! 0))
                                  (table (grp_table (af (rds d')) ! 0))"
     "unat (count (table (grp_table (af (rds fresh_decoder)) ! 0)))
                      \<le> unat (count (table (grp_table (af (rds d')) ! 0)))"
     "unat (count (table (grp_table (af (rds d')) ! 0))) \<le> 25"
    by simp_all
  from t0(1) dis have "af_distinct (table (grp_table (af (rds d')) ! 0))"
    by (simp add: af_table_step_def)
  with h d' c t0 ev show ?thesis by simp
qed

subsection \<open>Writes into the fixed-size buffers\<close>

text \<open>
  Claim C10. For every record whose PS, PTYN and TDC arrays have their declared sizes, every
  character index, byte and block: \<^verbatim>\<open>update_ps_simple\<close>, \<^verbatim>\<open>update_ps_advanced\<close> and \<^verbatim>\<open>update_ptyn\<close>
  return (no access is out of range), keep the sizes, and return the record as it was when the
  character index is 8 or more; \<^verbatim>\<open>decode_tdc_block\<close> returns, keeps the sizes, and returns the
  record as it was when the current channel is 32 or more. And on every well-formed record
  (all arrays of their declared sizes, the counts within them) \<^verbatim>\<open>rds_decoder_decode\<close> returns
  for every group, with no access out of range anywhere, and leaves a well-formed record.
\<close>

theorem buffer_writes_in_bounds:
  assumes ps: "wf_ps (ps r)" and ptyn: "length (ptyn_display (ptyn r)) = 8"
    and tdc: "wf_tdc (tdc r)"
  shows "(\<exists>r'. update_ps_simple r i b = Some r' \<and> wf_ps (ps r') \<and> (8 \<le> unat i \<longrightarrow> r' = r)) \<and>
         (\<exists>r'. update_ps_advanced r i b = Some r' \<and> wf_ps (ps r') \<and> (8 \<le> unat i \<longrightarrow> r' = r)) \<and>
         (\<exists>r'. update_ptyn r i b = Some r' \<and> length (ptyn_display (ptyn r')) = 8 \<and>
               (8 \<le> unat i \<longrightarrow> r' = r)) \<and>
         (\<exists>r'. decode_tdc_block r blk = Some r' \<and> wf_tdc (tdc r') \<and>
               (32 \<le> unat (tdc_curr_channel (tdc r)) \<longrightarrow> r' = r)) \<and>
         (wf_rds r \<longrightarrow>
            (\<forall>d blks. rds d = r \<longrightarrow>
               (\<exists>d'. rds_decoder_decode d blks = Some d' \<and> wf_rds (rds d'))))"
proof -
  have a: "\<exists>r'. update_ps_simple r i b = Some r' \<and> wf_ps (ps r') \<and> (8 \<le> unat i \<longrightarrow> r' = r)"
    using ps by (auto simp add: update_ps_simple_def store_in wf_ps_def SET_BITS_def)
  have b: "\<exists>r'. update_ps_advanced r i b = Some r' \<and> wf_ps (ps r') \<and> (8 \<le> unat i \<longrightarrow> r' = r)"
  proof (cases "8 \<le> unat i")
    case True
    then show ?thesis using ps by (simp add: update_ps_advanced_def)
  next
    case False
    then have i: "unat i < length (ps_hi_prob (ps r))" using ps by (simp add: wf_ps_def)
    from vote_byte_wf [OF i, of "ps_lo_prob (ps r)" "ps_hi_prob_cnt (ps r)" PS_VALIDATE_LIMIT b] ps
    obtain hs ls cs t where
      v: "vote_byte PS_VALIDATE_LIMIT (ps_hi_prob (ps r)) (ps_lo_prob (ps r))
            (ps_hi_prob_cnt (ps r)) (unat i) b = Some (hs, ls, cs, t)"
      and l: "length hs = 8" "length ls = 8" "length cs = 8"
      by (auto simp add: wf_ps_def)
    show ?thesis
      using False ps v l
      by (auto simp add: update_ps_advanced_def Let_def wf_ps_def SET_BITS_def)
  qed
  have c: "\<exists>r'. update_ptyn r i b = Some r' \<and> length (ptyn_display (ptyn r')) = 8 \<and>
               (8 \<le> unat i \<longrightarrow> r' = r)"
    using ptyn by (auto simp add: update_ptyn_def store_in)
  have d: "\<exists>r'. decode_tdc_block r blk = Some r' \<and> wf_tdc (tdc r') \<and>
               (32 \<le> unat (tdc_curr_channel (tdc r)) \<longrightarrow> r' = r)"
  proof (cases "NUM_TDC \<le> unat (tdc_curr_channel (tdc r))")
    case True
    then show ?thesis using tdc by (simp add: decode_tdc_block_def)
  next
    case False
    then have c: "unat (tdc_curr_channel (tdc r)) < length (tdc_data (tdc r))"
      and n: "\<not> 32 \<le> unat (tdc_curr_channel (tdc r))"
      using tdc by (simp_all add: wf_tdc_def NUM_TDC_def)
    have "list_all (\<lambda>row. length row = 32) (tdc_data (tdc r))"
      using tdc by (simp add: wf_tdc_def)
    then have "list_all (\<lambda>row. length row = 32)
                 ((tdc_data (tdc r))[unat (tdc_curr_channel (tdc r)) :=
                    (tdc_memmove (tdc_data (tdc r) ! unat (tdc_curr_channel (tdc r))))
                      [TDC_LEN - 2 := hi_byte (val blk), TDC_LEN - 1 := lo_byte (val blk)]])"
      by (auto simp add: list_all_iff dest: subsetD [OF set_update_subset_insert])
    then show ?thesis
      using False c n tdc
      by (auto simp add: decode_tdc_block_def Let_def load_in store_in SET_BITS_def
          count_packet_def wf_tdc_def)
  qed
  have e: "wf_rds r \<longrightarrow>
            (\<forall>d blks. rds d = r \<longrightarrow>
               (\<exists>d'. rds_decoder_decode d blks = Some d' \<and> wf_rds (rds d')))"
  proof (intro impI allI)
    fix d :: rds_decoder and blks
    assume "wf_rds r" "rds d = r"
    then have "wf_rds (rds d)" by simp
    from rds_decoder_decode_wf [OF this, of blks]
    show "\<exists>d'. rds_decoder_decode d blks = Some d' \<and> wf_rds (rds d')"
      by (auto simp add: reaches_def rds_step_def split: option.splits)
  qed
  from a b c d e show ?thesis by blast
qed

text \<open>
  On the record of a fresh decoder, with character index 8, and with a group 0A.
\<close>

theorem buffer_writes_in_bounds_witness:
  "wf_ps (ps (rds fresh_decoder)) \<and> length (ptyn_display (ptyn (rds fresh_decoder))) = 8 \<and>
   wf_tdc (tdc (rds fresh_decoder)) \<and> wf_rds (rds fresh_decoder) \<and>
   update_ps_simple (rds fresh_decoder) 8 0x41 = Some (rds fresh_decoder) \<and>
   update_ps_advanced (rds fresh_decoder) 8 0x41 = Some (rds fresh_decoder) \<and>
   update_ptyn (rds fresh_decoder) 8 0x41 = Some (rds fresh_decoder) \<and>
   (\<exists>r'. decode_tdc_block (rds fresh_decoder) \<lparr>val = 0x4142, errors = 0\<rparr> = Some r' \<and>
         wf_tdc (tdc r')) \<and>
   (\<exists>d'. rds_decoder_decode fresh_decoder (group_of 0x1234 0 0x0408 0 0xE301 0 0x4142 0)
           = Some d' \<and> wf_rds (rds d'))"
proof -
  have h1: "wf_ps (ps (rds fresh_decoder))" by code_simp
  have h2: "length (ptyn_display (ptyn (rds fresh_decoder))) = 8" by code_simp
  have h3: "wf_tdc (tdc (rds fresh_decoder))" by code_simp
  have h4: "wf_rds (rds fresh_decoder)" by code_simp
  have i: "(8 :: nat) \<le> unat (8 :: u8)" by simp
  from buffer_writes_in_bounds [OF h1 h2 h3, of 8 "0x41" "\<lparr>val = 0x4142, errors = 0\<rparr>"] h1 h2 h3 h4 i
  show ?thesis by blast
qed

subsection \<open>The announcement of an open data application in group 3A\<close>

text \<open>
  Claim C7. For every group 3A that the dispatcher accepts (block B within its threshold),
  with block D of error class none and a nonzero application id in block D, and every decoder
  whose table of applications has its ten slots and a count of at most ten,
  \<^verbatim>\<open>rds_decoder_decode\<close> returns, and with \<open>idx\<close> the first slot in use that holds the id (the
  count when there is none): when such a slot exists, only its group type is replaced and the
  count is unchanged; when there is none and the count is below ten, the slot at the count
  receives the id and the group type, and the count increases by one; when all ten slots are
  in use, the table and the count are unchanged. The group type written has the code
  \<open>(B AND 0b11110) >> 1\<close> and version B when bit 0 of block B is set, version A otherwise.
\<close>

theorem decode_3A_announce:
  assumes code: "gt_code (group_type_of (val (blk_b g))) = 3"
      and A: "gt_version (group_type_of (val (blk_b g))) = CHR ''A''"
      and b: "errors (blk_b g) \<le> BLERB_MAX"
      and dn: "errors (blk_d g) = BLER_NONE" and aid: "val (blk_d g) \<noteq> 0"
      and len: "length (oda (rds d)) = 10" and cnt: "unat (oda_cnt (rds d)) \<le> 10"
      and sg: "length (stats_groups (stats (rds d))) = 16"
  shows "\<exists>d' idx. rds_decoder_decode d g = Some d' \<and> idx \<le> unat (oda_cnt (rds d)) \<and>
           (\<forall>j<idx. oda_id (oda (rds d) ! j) \<noteq> val (blk_d g)) \<and>
           (if idx < unat (oda_cnt (rds d)) then
              oda_id (oda (rds d) ! idx) = val (blk_d g) \<and>
              oda_cnt (rds d') = oda_cnt (rds d) \<and>
              oda (rds d') = (oda (rds d))
                [idx := (oda (rds d) ! idx)
                   \<lparr>oda_gt := \<lparr>gt_code = ucast (drop_bit 1 (val (blk_b g) AND 0x1E)),
                              gt_version = (if val (blk_b g) AND 1 \<noteq> 0 then CHR ''B''
                                            else CHR ''A'')\<rparr>\<rparr>]
            else if unat (oda_cnt (rds d)) < 10 then
              unat (oda_cnt (rds d')) = unat (oda_cnt (rds d)) + 1 \<and>
              oda (rds d') = (oda (rds d))
                [idx := (oda (rds d) ! idx)
                   \<lparr>oda_id := val (blk_d g),
                    oda_gt := \<lparr>gt_code = ucast (drop_bit 1 (val (blk_b g) AND 0x1E)),
                              gt_version = (if val (blk_b g) AND 1 \<noteq> 0 then CHR ''B''
                                            else CHR ''A'')\<rparr>\<rparr>]
            else oda_cnt (rds d') = oda_cnt (rds d) \<and> oda (rds d') = oda (rds d))"
proof -
  let ?d1 = "d\<lparr>rds := entry_state (rds d) g\<rparr>"
  let ?gt = "group_type_of (val (blk_b g))"
  have dec: "rds_decoder_decode d g = decode_group_type_3 ?d1 ?gt g"
    using decode_accepted [OF b sg] code by (simp add: dispatch_def Let_def)
  have sel: "rds ?d1 = entry_state (rds d) g" by simp
  have len1: "length (oda (rds ?d1)) = 10" and cnt1: "unat (oda_cnt (rds ?d1)) \<le> 10"
    using len cnt by (simp_all add: entry_state_fields)
  note R = group_3A_result [OF len1 cnt1 A dn aid, unfolded sel entry_state_fields]
  from R obtain idx where i: "idx \<le> unat (oda_cnt (rds d))"
    and n: "\<forall>j<idx. oda_id (oda (rds d) ! j) \<noteq> val (blk_d g)"
    and e: "idx < unat (oda_cnt (rds d)) \<longrightarrow> oda_id (oda (rds d) ! idx) = val (blk_d g)"
    and r: "decode_group_type_3 ?d1 ?gt g = Some (?d1\<lparr>rds :=
             (if idx < unat (oda_cnt (rds d))
              then (entry_state (rds d) g)\<lparr>oda := (oda (rds d))
                     [idx := (oda (rds d) ! idx)\<lparr>oda_gt := announced_gt (val (blk_b g))\<rparr>]\<rparr>
              else if unat (oda_cnt (rds d)) < 10
              then (entry_state (rds d) g)\<lparr>oda := (oda (rds d))
                     [idx := (oda (rds d) ! idx)
                        \<lparr>oda_id := val (blk_d g), oda_gt := announced_gt (val (blk_b g))\<rparr>],
                     oda_cnt := oda_cnt (rds d) + 1\<rparr>
              else entry_state (rds d) g)\<rparr>)"
    by blast
  have inc: "unat (oda_cnt (rds d)) < 10 \<Longrightarrow> unat (oda_cnt (rds d) + 1) = unat (oda_cnt (rds d)) + 1"
    by (simp add: unat_word_ariths)
  consider (upd) "idx < unat (oda_cnt (rds d))"
    | (app) "\<not> idx < unat (oda_cnt (rds d))" "unat (oda_cnt (rds d)) < 10"
    | (full) "\<not> idx < unat (oda_cnt (rds d))" "\<not> unat (oda_cnt (rds d)) < 10"
    by blast
  then show ?thesis
  proof cases
    case upd
    let ?d2 = "?d1\<lparr>rds :=
        (entry_state (rds d) g)\<lparr>oda := (oda (rds d))
                     [idx := (oda (rds d) ! idx)\<lparr>oda_gt := announced_gt (val (blk_b g))\<rparr>]\<rparr>\<rparr>"
    from upd r have r': "rds_decoder_decode d g = Some ?d2"
      by (simp add: dec)
    show ?thesis
      unfolding r'
      apply (rule exI [of _ ?d2], rule exI [of _ idx])
      using upd i n e by (simp add: entry_state_fields announced_gt_def)
  next
    case app
    let ?d2 = "?d1\<lparr>rds :=
        (entry_state (rds d) g)\<lparr>oda := (oda (rds d))
                     [idx := (oda (rds d) ! idx)
                        \<lparr>oda_id := val (blk_d g), oda_gt := announced_gt (val (blk_b g))\<rparr>],
                     oda_cnt := oda_cnt (rds d) + 1\<rparr>\<rparr>"
    from app r have r': "rds_decoder_decode d g = Some ?d2"
      by (simp add: dec)
    show ?thesis
      unfolding r'
      apply (rule exI [of _ ?d2], rule exI [of _ idx])
      using app i n inc by (simp add: entry_state_fields announced_gt_def)
  next
    case full
    let ?d2 = "?d1"
    from full r have r': "rds_decoder_decode d g = Some ?d2"
      by (simp add: dec)
    show ?thesis
      unfolding r'
      apply (rule exI [of _ ?d2], rule exI [of _ idx])
      using full i n by (simp add: entry_state_fields)
  qed
qed

text \<open>
  On a fresh decoder, the group 3A with block B \<open>0x3016\<close> and block D \<open>0x4BD7\<close> announces the
  application \<open>0x4BD7\<close> in group 11A; it is appended at slot 0.
\<close>

theorem decode_3A_announce_witness:
  "gt_code (group_type_of (val (blk_b (group_of 0 0 0x3016 0 0 0 0x4BD7 0)))) = 3 \<and>
   gt_version (group_type_of (val (blk_b (group_of 0 0 0x3016 0 0 0 0x4BD7 0)))) = CHR ''A'' \<and>
   errors (blk_b (group_of 0 0 0x3016 0 0 0 0x4BD7 0)) \<le> BLERB_MAX \<and>
   errors (blk_d (group_of 0 0 0x3016 0 0 0 0x4BD7 0)) = BLER_NONE \<and>
   val (blk_d (group_of 0 0 0x3016 0 0 0 0x4BD7 0)) \<noteq> 0 \<and>
   length (oda (rds fresh_decoder)) = 10 \<and> unat (oda_cnt (rds fresh_decoder)) = 0 \<and>
   length (stats_groups (stats (rds fresh_decoder))) = 16 \<and>
   (\<exists>d'. rds_decoder_decode fresh_decoder (group_of 0 0 0x3016 0 0 0 0x4BD7 0) = Some d' \<and>
         unat (oda_cnt (rds d')) = 1 \<and> oda_id (oda (rds d') ! 0) = 0x4BD7 \<and>
         oda_gt (oda (rds d') ! 0) = \<lparr>gt_code = 11, gt_version = CHR ''A''\<rparr>)"
proof -
  let ?g = "group_of 0 0 0x3016 0 0 0 0x4BD7 0"
  have h1: "gt_code (group_type_of (val (blk_b ?g))) = 3" by code_simp
  have h2: "gt_version (group_type_of (val (blk_b ?g))) = CHR ''A''" by code_simp
  have h3: "errors (blk_b ?g) \<le> BLERB_MAX" by code_simp
  have h4: "errors (blk_d ?g) = BLER_NONE" by code_simp
  have h5: "val (blk_d ?g) \<noteq> 0" by code_simp
  have h6: "length (oda (rds fresh_decoder)) = 10" by code_simp
  have c0: "unat (oda_cnt (rds fresh_decoder)) = 0" by code_simp
  then have h7: "unat (oda_cnt (rds fresh_decoder)) \<le> 10" by simp
  have h8: "length (stats_groups (stats (rds fresh_decoder))) = 16" by code_simp
  have ann: "\<lparr>gt_code = ucast (drop_bit 1 (val (blk_b ?g) AND 0x1E)),
              gt_version = (if val (blk_b ?g) AND 1 \<noteq> 0 then CHR ''B'' else CHR ''A'')\<rparr>
             = \<lparr>gt_code = 11, gt_version = CHR ''A''\<rparr>" by code_simp
  have d: "val (blk_d ?g) = 0x4BD7" by code_simp
  from decode_3A_announce [OF h1 h2 h3 h4 h5 h6 h7 h8] obtain d' idx where
    r: "rds_decoder_decode fresh_decoder ?g = Some d'" and i: "idx \<le> unat (oda_cnt (rds fresh_decoder))"
    and u: "if idx < unat (oda_cnt (rds fresh_decoder)) then
              oda_id (oda (rds fresh_decoder) ! idx) = val (blk_d ?g) \<and>
              oda_cnt (rds d') = oda_cnt (rds fresh_decoder) \<and>
              oda (rds d') = (oda (rds fresh_decoder))
                [idx := (oda (rds fresh_decoder) ! idx)
                   \<lparr>oda_gt := \<lparr>gt_code = ucast (drop_bit 1 (val (blk_b ?g) AND 0x1E)),
                              gt_version = (if val (blk_b ?g) AND 1 \<noteq> 0 then CHR ''B''
                                            else CHR ''A'')\<rparr>\<rparr>]
            else if unat (oda_cnt (rds fresh_decoder)) < 10 then
              unat (oda_cnt (rds d')) = unat (oda_cnt (rds fresh_decoder)) + 1 \<and>
              oda (rds d') = (oda (rds fresh_decoder))
                [idx := (oda (rds fresh_decoder) ! idx)
                   \<lparr>oda_id := val (blk_d ?g),
                    oda_gt := \<lparr>gt_code = ucast (drop_bit 1 (val (blk_b ?g) AND 0x1E)),
                              gt_version = (if val (blk_b ?g) AND 1 \<noteq> 0 then CHR ''B''
                                            else CHR ''A'')\<rparr>\<rparr>]
            else oda_cnt (rds d') = oda_cnt (rds fresh_decoder) \<and>
                 oda (rds d') = oda (rds fresh_decoder)"
    by blast
  from i c0 have i0: "idx = 0" by simp
  from u have "unat (oda_cnt (rds d')) = 1 \<and>
      oda (rds d') = (oda (rds fresh_decoder))
        [0 := (oda (rds fresh_decoder) ! 0)
           \<lparr>oda_id := 0x4BD7, oda_gt := \<lparr>gt_code = 11, gt_version = CHR ''A''\<rparr>\<rparr>]"
    unfolding i0 c0 ann d by simp
  then have "unat (oda_cnt (rds d')) = 1 \<and> oda_id (oda (rds d') ! 0) = 0x4BD7 \<and>
         oda_gt (oda (rds d') ! 0) = \<lparr>gt_code = 11, gt_version = CHR ''A''\<rparr>"
    using h6 by simp
  with r h1 h2 h3 h4 h5 h6 c0 h8 show ?thesis by blast
qed

subsection \<open>Group 0 with block D over its threshold\<close>

text \<open>
  Claim C5. What \<^verbatim>\<open>decode_group_type_0\<close> does: for every group of type 0 (version A or B)
  that the dispatcher accepts and whose block D is over its threshold, and every decoder with
  a well-formed record, \<^verbatim>\<open>rds_decoder_decode\<close> returns and leaves \<open>ta_code\<close>, \<open>music\<close> and the PS
  record as they were: the function returns on the error class of block D before it reads the
  TA and MS bits of block B.
\<close>

theorem decode_0_block_d_rejected:
  assumes code: "gt_code (group_type_of (val (blk_b g))) = 0"
      and b: "errors (blk_b g) \<le> BLERB_MAX"
      and dbad: "errors (blk_d g) > BLERD_MAX"
      and wf: "wf_rds (rds d)"
  shows "\<exists>d'. rds_decoder_decode d g = Some d' \<and>
           ta_code (rds d') = ta_code (rds d) \<and> music (rds d') = music (rds d) \<and>
           ps (rds d') = ps (rds d)"
proof -
  let ?d1 = "d\<lparr>rds := entry_state (rds d) g\<rparr>"
  let ?gt = "group_type_of (val (blk_b g))"
  have sg: "length (stats_groups (stats (rds d))) = 16"
    using wf by (simp add: wf_rds_def wf_stats_def)
  have dec: "rds_decoder_decode d g = decode_group_type_0 ?d1 ?gt g"
    using decode_accepted [OF b sg] code by (simp add: dispatch_def Let_def)
  from rds_decoder_decode_wf [OF wf, of g] obtain d' where
    d': "rds_decoder_decode d g = Some d'"
    by (auto simp add: reaches_def split: option.splits)
  then have g0: "decode_group_type_0 ?d1 ?gt g = Some d'" by (simp add: dec)
  have "ta_code (rds d') = ta_code (rds d) \<and> music (rds d') = music (rds d) \<and>
        ps (rds d') = ps (rds d)"
  proof (cases "gt_version ?gt = CHR ''A''")
    case True
    with g0 dbad obtain r1 where
      a: "decode_alt_freq (entry_state (rds d) g) g = Some r1" and e: "d' = ?d1\<lparr>rds := r1\<rparr>"
      by (auto simp add: decode_group_type_0_def split: bind_splits)
    from decode_alt_freq_frame [OF a] e show ?thesis by (simp add: entry_state_fields)
  next
    case False
    with g0 dbad have "d' = ?d1" by (simp add: decode_group_type_0_def)
    then show ?thesis by (simp add: entry_state_fields)
  qed
  with d' show ?thesis by simp
qed

text \<open>
  On a fresh decoder, a group 0A whose block B has the TA and MS bits set and whose block D
  has error class 3 leaves both flags clear; the same group with block D at error class 2
  sets both.
\<close>

theorem decode_0_block_d_rejected_witness:
  "gt_code (group_type_of (val (blk_b (group_of 0x1234 0 0x0018 0 0 3 0x4142 3)))) = 0 \<and>
   errors (blk_b (group_of 0x1234 0 0x0018 0 0 3 0x4142 3)) \<le> BLERB_MAX \<and>
   errors (blk_d (group_of 0x1234 0 0x0018 0 0 3 0x4142 3)) > BLERD_MAX \<and>
   wf_rds (rds fresh_decoder) \<and>
   val (blk_b (group_of 0x1234 0 0x0018 0 0 3 0x4142 3)) AND TA_MASK \<noteq> 0 \<and>
   val (blk_b (group_of 0x1234 0 0x0018 0 0 3 0x4142 3)) AND MS_MASK \<noteq> 0 \<and>
   (\<exists>d'. rds_decoder_decode fresh_decoder (group_of 0x1234 0 0x0018 0 0 3 0x4142 3) = Some d' \<and>
         ta_code (rds d') = False \<and> music (rds d') = False \<and>
         ps_display (ps (rds d')) = replicate 8 0) \<and>
   map_option (\<lambda>d. (ta_code (rds d), music (rds d)))
     (rds_decoder_decode fresh_decoder (group_of 0x1234 0 0x0018 0 0 3 0x4142 2)) =
     Some (True, True)"
proof -
  let ?g = "group_of 0x1234 0 0x0018 0 0 3 0x4142 3"
  have h1: "gt_code (group_type_of (val (blk_b ?g))) = 0" by code_simp
  have h2: "errors (blk_b ?g) \<le> BLERB_MAX" by code_simp
  have h3: "errors (blk_d ?g) > BLERD_MAX" by code_simp
  have h4: "wf_rds (rds fresh_decoder)" by code_simp
  have m1: "val (blk_b ?g) AND TA_MASK \<noteq> 0" by code_simp
  have m2: "val (blk_b ?g) AND MS_MASK \<noteq> 0" by code_simp
  have f1: "ta_code (rds fresh_decoder) = False" by code_simp
  have f2: "music (rds fresh_decoder) = False" by code_simp
  have f3: "ps_display (ps (rds fresh_decoder)) = replicate 8 0" by code_simp
  have ok: "map_option (\<lambda>d. (ta_code (rds d), music (rds d)))
     (rds_decoder_decode fresh_decoder (group_of 0x1234 0 0x0018 0 0 3 0x4142 2)) =
     Some (True, True)" by code_simp
  from decode_0_block_d_rejected [OF h1 h2 h3 h4] obtain d' where
    "rds_decoder_decode fresh_decoder ?g = Some d'"
    "ta_code (rds d') = ta_code (rds fresh_decoder)" "music (rds d') = music (rds fresh_decoder)"
    "ps (rds d') = ps (rds fresh_decoder)"
    by blast
  with f1 f2 f3 have "\<exists>d'. rds_decoder_decode fresh_decoder ?g = Some d' \<and>
         ta_code (rds d') = False \<and> music (rds d') = False \<and>
         ps_display (ps (rds d')) = replicate 8 0"
    by simp
  with h1 h2 h3 h4 m1 m2 ok show ?thesis by blast
qed

subsection \<open>The channel of group 5A\<close>

text \<open>
  Claim C6. What \<^verbatim>\<open>decode_group_type_5\<close> does: for every group 5A that the dispatcher accepts
  and whose group type is not taken by an open data application, and every decoder with a
  well-formed record, \<^verbatim>\<open>rds_decoder_decode\<close> returns and leaves as current channel block B masked
  with \<open>0x11\<close>, bits 0 and 4 only: the mask in the source is the hexadecimal literal
  \<open>0x11111\<close>, of which the \<^verbatim>\<open>uint8_t\<close> field keeps \<open>0x11\<close>.
\<close>

theorem decode_5A_channel:
  assumes code: "gt_code (group_type_of (val (blk_b g))) = 5"
      and A: "gt_version (group_type_of (val (blk_b g))) = CHR ''A''"
      and b: "errors (blk_b g) \<le> BLERB_MAX"
      and free: "\<not> IsGroupTypeUsedByODA (rds d) (group_type_of (val (blk_b g)))"
      and wf: "wf_rds (rds d)"
  shows "\<exists>d'. rds_decoder_decode d g = Some d' \<and>
           tdc_curr_channel (tdc (rds d')) = ucast (val (blk_b g) AND 0x11)"
proof -
  let ?d1 = "d\<lparr>rds := entry_state (rds d) g\<rparr>"
  let ?gt = "group_type_of (val (blk_b g))"
  have sg: "length (stats_groups (stats (rds d))) = 16"
    using wf by (simp add: wf_rds_def wf_stats_def)
  have dec: "rds_decoder_decode d g = decode_group_type_5 ?d1 ?gt g"
    using decode_accepted [OF b sg] code by (simp add: dispatch_def Let_def)
  from rds_decoder_decode_wf [OF wf, of g] obtain d' where
    d': "rds_decoder_decode d g = Some d'"
    by (auto simp add: reaches_def split: option.splits)
  then have g5: "decode_group_type_5 ?d1 ?gt g = Some d'" by (simp add: dec)
  let ?r1 = "(entry_state (rds d) g)\<lparr>tdc := (tdc (entry_state (rds d) g))
               \<lparr>tdc_curr_channel := ucast ((ucast (val (blk_b g)) :: u32) AND 0x11111)\<rparr>\<rparr>"
  from g5 A free obtain r2 r3 where
    s2: "decode_tdc_block ?r1 (blk_c g) = Some r2"
    and s3: "decode_tdc_block r2 (blk_d g) = Some r3" and e: "d' = ?d1\<lparr>rds := r3\<rparr>"
    by (auto simp add: decode_group_type_5_def Let_def IsGroupTypeUsedByODA_entry_state
        split: bind_splits)
  have "tdc_curr_channel (tdc r3) = tdc_curr_channel (tdc ?r1)"
    using decode_tdc_block_channel [OF s3] decode_tdc_block_channel [OF s2] by simp
  then have "tdc_curr_channel (tdc (rds d')) = ucast (val (blk_b g) AND 0x11)"
    using e by (simp add: tdc_channel_mask)
  with d' show ?thesis by simp
qed

text \<open>
  On a fresh decoder, the group 5A with block B \<open>0x5002\<close> addresses channel 2
  (\<open>B AND 0x1F\<close>); the current channel becomes 0, and the four bytes of blocks C and D are
  at the end of the buffer of channel 0, none in that of channel 2.
\<close>

theorem decode_5A_channel_witness:
  "gt_code (group_type_of (val (blk_b (group_of 0 0 0x5002 0 0x4142 0 0x4344 0)))) = 5 \<and>
   gt_version (group_type_of (val (blk_b (group_of 0 0 0x5002 0 0x4142 0 0x4344 0)))) = CHR ''A'' \<and>
   errors (blk_b (group_of 0 0 0x5002 0 0x4142 0 0x4344 0)) \<le> BLERB_MAX \<and>
   IsGroupTypeUsedByODA (rds fresh_decoder)
     (group_type_of (val (blk_b (group_of 0 0 0x5002 0 0x4142 0 0x4344 0)))) = False \<and>
   wf_rds (rds fresh_decoder) \<and>
   val (blk_b (group_of 0 0 0x5002 0 0x4142 0 0x4344 0)) AND 0x1F = 2 \<and>
   (\<exists>d'. rds_decoder_decode fresh_decoder (group_of 0 0 0x5002 0 0x4142 0 0x4344 0) = Some d' \<and>
         tdc_curr_channel (tdc (rds d')) = 0) \<and>
   map_option (\<lambda>d. (tdc_curr_channel (tdc (rds d)), drop 28 (tdc_data (tdc (rds d)) ! 0),
                     drop 28 (tdc_data (tdc (rds d)) ! 2)))
     (rds_decoder_decode fresh_decoder (group_of 0 0 0x5002 0 0x4142 0 0x4344 0)) =
     Some (0, [0x41, 0x42, 0x43, 0x44], [0, 0, 0, 0])"
proof -
  let ?g = "group_of 0 0 0x5002 0 0x4142 0 0x4344 0"
  have h1: "gt_code (group_type_of (val (blk_b ?g))) = 5" by code_simp
  have h2: "gt_version (group_type_of (val (blk_b ?g))) = CHR ''A''" by code_simp
  have h3: "errors (blk_b ?g) \<le> BLERB_MAX" by code_simp
  have h4: "\<not> IsGroupTypeUsedByODA (rds fresh_decoder) (group_type_of (val (blk_b ?g)))"
    by code_simp
  have h5: "wf_rds (rds fresh_decoder)" by code_simp
  have m: "val (blk_b ?g) AND 0x1F = 2" by code_simp
  have c: "(ucast (val (blk_b ?g) AND 0x11) :: u8) = 0" by code_simp
  have ev: "map_option (\<lambda>d. (tdc_curr_channel (tdc (rds d)), drop 28 (tdc_data (tdc (rds d)) ! 0),
                     drop 28 (tdc_data (tdc (rds d)) ! 2)))
     (rds_decoder_decode fresh_decoder ?g) = Some (0, [0x41, 0x42, 0x43, 0x44], [0, 0, 0, 0])"
    by code_simp
  from decode_5A_channel [OF h1 h2 h3 h4 h5] c
  have "\<exists>d'. rds_decoder_decode fresh_decoder ?g = Some d' \<and> tdc_curr_channel (tdc (rds d')) = 0"
    by simp
  with h1 h2 h3 h4 h5 m ev show ?thesis by simp
qed

subsection \<open>Blocks C and D in groups 9A and 14A\<close>

text \<open>
  Claim C2. What \<^verbatim>\<open>decode_ews\<close> and \<^verbatim>\<open>decode_eon_block_a\<close> do: for every version A group that
  the dispatcher accepts, whatever the error classes of blocks C and D: a group 9A whose group
  type is not taken by an open data application stores blocks C and D as they are in the EWS
  record; a group 14A of variant 0 writes the two bytes of block C at the start of the PS name
  of the other network.
\<close>

theorem decode_9A_14A_unchecked:
  assumes b: "errors (blk_b g) \<le> BLERB_MAX"
      and A: "gt_version (group_type_of (val (blk_b g))) = CHR ''A''"
      and sg: "length (stats_groups (stats (rds d))) = 16"
  shows "(gt_code (group_type_of (val (blk_b g))) = 9 \<and>
          \<not> IsGroupTypeUsedByODA (rds d) (group_type_of (val (blk_b g))) \<longrightarrow>
            (\<exists>d'. rds_decoder_decode d g = Some d' \<and>
                  ews_c (ews (rds d')) = blk_c g \<and> ews_d (ews (rds d')) = blk_d g)) \<and>
         (gt_code (group_type_of (val (blk_b g))) = 14 \<and> val (blk_b g) AND 0xF = 0 \<longrightarrow>
            (\<exists>d'. rds_decoder_decode d g = Some d' \<and>
                  on_ps (eon_on (eon (rds d'))) =
                    (on_ps (eon_on (eon (rds d))))
                      [0 := hi_byte (val (blk_c g)), 1 := lo_byte (val (blk_c g))]))"
proof -
  let ?d1 = "d\<lparr>rds := entry_state (rds d) g\<rparr>"
  let ?gt = "group_type_of (val (blk_b g))"
  note dec = decode_accepted [OF b sg]
  have p9: "\<exists>d'. rds_decoder_decode d g = Some d' \<and>
                  ews_c (ews (rds d')) = blk_c g \<and> ews_d (ews (rds d')) = blk_d g"
    if "gt_code ?gt = 9" "\<not> IsGroupTypeUsedByODA (rds d) ?gt"
  proof -
    have "rds_decoder_decode d g = Some (decode_ews ?d1 g)"
      using that A
      by (simp add: dec dispatch_def Let_def decode_group_type_9_def
          IsGroupTypeUsedByODA_entry_state)
    moreover have "ews_c (ews (rds (decode_ews ?d1 g))) = blk_c g"
      "ews_d (ews (rds (decode_ews ?d1 g))) = blk_d g"
      by (simp_all add: decode_ews_def Let_def)
    ultimately show ?thesis by simp
  qed
  have p14: "\<exists>d'. rds_decoder_decode d g = Some d' \<and>
                  on_ps (eon_on (eon (rds d'))) =
                    (on_ps (eon_on (eon (rds d))))
                      [0 := hi_byte (val (blk_c g)), 1 := lo_byte (val (blk_c g))]"
    if "gt_code ?gt = 14" "val (blk_b g) AND 0xF = 0"
  proof -
    let ?r1 = "SET_BITS (count_packet (entry_state (rds d) g) PKTCNT_EON) RDS_EON"
    have e: "eon ?r1 = eon (rds d)"
      by (simp add: SET_BITS_def count_packet_def entry_state_fields)
    have "decode_eon_block_a ?r1 g =
            Some (?r1\<lparr>eon := (eon (rds d))\<lparr>eon_on := (eon_on (eon (rds d)))
               \<lparr>on_ps := (on_ps (eon_on (eon (rds d))))
                      [0 := hi_byte (val (blk_c g)), 1 := lo_byte (val (blk_c g))]\<rparr>\<rparr>\<rparr>)"
      using that(2) unfolding decode_eon_block_a_def Let_def e by simp
    then have "rds_decoder_decode d g =
            Some (?d1\<lparr>rds := ?r1\<lparr>eon := (eon (rds d))\<lparr>eon_on := (eon_on (eon (rds d)))
               \<lparr>on_ps := (on_ps (eon_on (eon (rds d))))
                      [0 := hi_byte (val (blk_c g)), 1 := lo_byte (val (blk_c g))]\<rparr>\<rparr>\<rparr>\<rparr>)"
      using that(1) A by (simp add: dec dispatch_def Let_def decode_group_type_14_def)
    then show ?thesis by simp
  qed
  from p9 p14 show ?thesis by blast
qed

text \<open>
  On a fresh decoder, a group 9A and a group 14A whose block C (and, for 9A, block D) has
  error class 3, over the threshold of 2: the EWS record and the PS name hold their values.
\<close>

theorem decode_9A_14A_unchecked_witness:
  "errors (blk_b (group_of 0 0 0x9000 0 0x1234 3 0x5678 3)) \<le> BLERB_MAX \<and>
   gt_version (group_type_of (val (blk_b (group_of 0 0 0x9000 0 0x1234 3 0x5678 3)))) = CHR ''A'' \<and>
   gt_code (group_type_of (val (blk_b (group_of 0 0 0x9000 0 0x1234 3 0x5678 3)))) = 9 \<and>
   IsGroupTypeUsedByODA (rds fresh_decoder)
     (group_type_of (val (blk_b (group_of 0 0 0x9000 0 0x1234 3 0x5678 3)))) = False \<and>
   length (stats_groups (stats (rds fresh_decoder))) = 16 \<and>
   BLERC_MAX < errors (blk_c (group_of 0 0 0x9000 0 0x1234 3 0x5678 3)) \<and>
   BLERD_MAX < errors (blk_d (group_of 0 0 0x9000 0 0x1234 3 0x5678 3)) \<and>
   (\<exists>d'. rds_decoder_decode fresh_decoder (group_of 0 0 0x9000 0 0x1234 3 0x5678 3) = Some d' \<and>
         ews_c (ews (rds d')) = \<lparr>val = 0x1234, errors = 3\<rparr> \<and>
         ews_d (ews (rds d')) = \<lparr>val = 0x5678, errors = 3\<rparr>) \<and>
   errors (blk_b (group_of 0 0 0xE000 0 0x4142 3 0 0)) \<le> BLERB_MAX \<and>
   gt_version (group_type_of (val (blk_b (group_of 0 0 0xE000 0 0x4142 3 0 0)))) = CHR ''A'' \<and>
   gt_code (group_type_of (val (blk_b (group_of 0 0 0xE000 0 0x4142 3 0 0)))) = 14 \<and>
   val (blk_b (group_of 0 0 0xE000 0 0x4142 3 0 0)) AND 0xF = 0 \<and>
   BLERC_MAX < errors (blk_c (group_of 0 0 0xE000 0 0x4142 3 0 0)) \<and>
   (\<exists>d'. rds_decoder_decode fresh_decoder (group_of 0 0 0xE000 0 0x4142 3 0 0) = Some d' \<and>
         on_ps (eon_on (eon (rds d'))) = [0x41, 0x42, 0, 0, 0, 0, 0, 0])"
proof -
  let ?g = "group_of 0 0 0x9000 0 0x1234 3 0x5678 3"
  let ?h = "group_of 0 0 0xE000 0 0x4142 3 0 0"
  have g1: "errors (blk_b ?g) \<le> BLERB_MAX" by code_simp
  have g2: "gt_version (group_type_of (val (blk_b ?g))) = CHR ''A''" by code_simp
  have g3: "gt_code (group_type_of (val (blk_b ?g))) = 9" by code_simp
  have g4: "\<not> IsGroupTypeUsedByODA (rds fresh_decoder) (group_type_of (val (blk_b ?g)))"
    by code_simp
  have sg: "length (stats_groups (stats (rds fresh_decoder))) = 16" by code_simp
  have g5: "BLERC_MAX < errors (blk_c ?g)" by code_simp
  have g6: "BLERD_MAX < errors (blk_d ?g)" by code_simp
  have g7: "blk_c ?g = \<lparr>val = 0x1234, errors = 3\<rparr>" "blk_d ?g = \<lparr>val = 0x5678, errors = 3\<rparr>"
    by (simp_all add: group_of_def)
  have h1: "errors (blk_b ?h) \<le> BLERB_MAX" by code_simp
  have h2: "gt_version (group_type_of (val (blk_b ?h))) = CHR ''A''" by code_simp
  have h3: "gt_code (group_type_of (val (blk_b ?h))) = 14" by code_simp
  have h4: "val (blk_b ?h) AND 0xF = 0" by code_simp
  have h5: "BLERC_MAX < errors (blk_c ?h)" by code_simp
  have h6: "(on_ps (eon_on (eon (rds fresh_decoder))))
              [0 := hi_byte (val (blk_c ?h)), 1 := lo_byte (val (blk_c ?h))] =
            [0x41, 0x42, 0, 0, 0, 0, 0, 0]" by code_simp
  from decode_9A_14A_unchecked [OF g1 g2 sg] g3 g4 g7
  have a: "\<exists>d'. rds_decoder_decode fresh_decoder ?g = Some d' \<and>
         ews_c (ews (rds d')) = \<lparr>val = 0x1234, errors = 3\<rparr> \<and>
         ews_d (ews (rds d')) = \<lparr>val = 0x5678, errors = 3\<rparr>"
    by simp
  from decode_9A_14A_unchecked [OF h1 h2 sg] h3 h4 h6
  have b: "\<exists>d'. rds_decoder_decode fresh_decoder ?h = Some d' \<and>
         on_ps (eon_on (eon (rds d'))) = [0x41, 0x42, 0, 0, 0, 0, 0, 0]"
    by simp
  from g1 g2 g3 g4 sg g5 g6 a h1 h2 h3 h4 h5 b show ?thesis by simp
qed

end
